theory Spec2Isabelle
  imports Main "HOL-Library.Word" "HOL-Library.AList" "HOL-Library.Char_ord"
    "HOL-Library.List_Lexorder"
begin

unbundle bit_operations_syntax

section \<open>Strings as the engine sees them\<close>

text \<open>
  A JavaScript string is modelled as a \<^typ>\<open>string\<close>: a list of code units, here restricted
  to the range 0..255. Within that range the ECMAScript white-space and line-terminator
  characters (what \<^verbatim>\<open>trim()\<close> strips and what \<^verbatim>\<open>\s\<close> matches) are
  TAB, LF, VT, FF, CR, SPACE and NBSP.
\<close>

definition isWhiteSpace :: "char \<Rightarrow> bool" where
  "isWhiteSpace c \<longleftrightarrow>
     c = CHR 0x09 \<or> c = CHR 0x0A \<or> c = CHR 0x0B \<or> c = CHR 0x0C \<or> c = CHR 0x0D \<or>
     c = CHR 0x20 \<or> c = CHR 0xA0"

definition trim :: "string \<Rightarrow> string" where
  "trim s = rev (dropWhile isWhiteSpace (rev (dropWhile isWhiteSpace s)))"

definition trimEnd :: "string \<Rightarrow> string" where
  "trimEnd s = rev (dropWhile isWhiteSpace (rev s))"

definition startsWith :: "string \<Rightarrow> string \<Rightarrow> bool" where
  "startsWith s p \<longleftrightarrow> take (length p) s = p"

text \<open>\<^verbatim>\<open>s.split('\n')\<close>: always at least one piece.\<close>

fun splitNL :: "string \<Rightarrow> string list" where
  "splitNL [] = [[]]"
| "splitNL (c # cs) =
     (if c = CHR 0x0A then [] # splitNL cs
      else (case splitNL cs of
              l # ls \<Rightarrow> (c # l) # ls
            | [] \<Rightarrow> [[c]]))"

text \<open>\<^verbatim>\<open>lines.join('\n')\<close>.\<close>

fun joinNL :: "string list \<Rightarrow> string" where
  "joinNL [] = []"
| "joinNL [l] = l"
| "joinNL (l # ls) = l @ CHR 0x0A # joinNL ls"

definition isHex :: "char \<Rightarrow> bool" where
  "isHex c \<longleftrightarrow> c \<in> set ''0123456789abcdef''"

section \<open>SHA-256 (the digest behind the worktree suffix)\<close>

text \<open>
  \<^verbatim>\<open>crypto.createHash('sha256').update(s).digest('hex')\<close>: FIPS 180-4 over the UTF-8
  encoding of the string, rendered as 64 lowercase hexadecimal digits.
\<close>

type_synonym w32 = "32 word"

text \<open>
  The round constants (the first 32 bits of the fractional parts of the cube roots of the
  first 64 primes) and the initial hash value (likewise for the square roots of the first 8
  primes), written in decimal.
\<close>

definition K256 :: "w32 list" where
  "K256 =
     [1116352408, 1899447441, 3049323471, 3921009573, 961987163, 1508970993,
      2453635748, 2870763221, 3624381080, 310598401, 607225278, 1426881987,
      1925078388, 2162078206, 2614888103, 3248222580, 3835390401, 4022224774,
      264347078, 604807628, 770255983, 1249150122, 1555081692, 1996064986,
      2554220882, 2821834349, 2952996808, 3210313671, 3336571891, 3584528711,
      113926993, 338241895, 666307205, 773529912, 1294757372, 1396182291,
      1695183700, 1986661051, 2177026350, 2456956037, 2730485921, 2820302411,
      3259730800, 3345764771, 3516065817, 3600352804, 4094571909, 275423344,
      430227734, 506948616, 659060556, 883997877, 958139571, 1322822218,
      1537002063, 1747873779, 1955562222, 2024104815, 2227730452, 2361852424,
      2428436474, 2756734187, 3204031479, 3329325298]"

type_synonym hstate = "w32 \<times> w32 \<times> w32 \<times> w32 \<times> w32 \<times> w32 \<times> w32 \<times> w32"

definition H256 :: hstate where
  "H256 = (1779033703, 3144134277, 1013904242, 2773480762, 1359893119, 2600822924, 528734635, 1541459225)"

definition rotr :: "nat \<Rightarrow> w32 \<Rightarrow> w32" where
  "rotr n x = (drop_bit n x) OR (push_bit (32 - n) x)"

definition ch :: "w32 \<Rightarrow> w32 \<Rightarrow> w32 \<Rightarrow> w32" where
  "ch x y z = (x AND y) XOR (NOT x AND z)"

definition maj :: "w32 \<Rightarrow> w32 \<Rightarrow> w32 \<Rightarrow> w32" where
  "maj x y z = (x AND y) XOR (x AND z) XOR (y AND z)"

definition bsig0 :: "w32 \<Rightarrow> w32" where "bsig0 x = rotr 2 x XOR rotr 13 x XOR rotr 22 x"
definition bsig1 :: "w32 \<Rightarrow> w32" where "bsig1 x = rotr 6 x XOR rotr 11 x XOR rotr 25 x"
definition ssig0 :: "w32 \<Rightarrow> w32" where "ssig0 x = rotr 7 x XOR rotr 18 x XOR drop_bit 3 x"
definition ssig1 :: "w32 \<Rightarrow> w32" where "ssig1 x = rotr 17 x XOR rotr 19 x XOR drop_bit 10 x"

text \<open>Padding: 0x80, zeros up to 56 mod 64, then the bit length as 8 big-endian bytes.\<close>

definition be_bytes :: "nat \<Rightarrow> 8 word list" where
  "be_bytes n = map (\<lambda>i. ucast (drop_bit (8 * (7 - i)) (word_of_nat n :: 64 word))) [0..<8]"

definition sha_pad :: "8 word list \<Rightarrow> 8 word list" where
  "sha_pad m = m @ [128] @ replicate ((119 - length m mod 64) mod 64) 0 @ be_bytes (8 * length m)"

fun be_words :: "8 word list \<Rightarrow> w32 list" where
  "be_words (a # b # c # d # r) =
     (push_bit 24 (ucast a) OR push_bit 16 (ucast b) OR push_bit 8 (ucast c) OR ucast d) # be_words r"
| "be_words _ = []"

fun schedule :: "nat \<Rightarrow> w32 list \<Rightarrow> w32 list" where
  "schedule 0 w = w"
| "schedule (Suc n) w =
     (let i = length w in
      schedule n (w @ [ssig1 (w ! (i - 2)) + w ! (i - 7) + ssig0 (w ! (i - 15)) + w ! (i - 16)]))"

fun sha_round :: "hstate \<Rightarrow> w32 \<times> w32 \<Rightarrow> hstate" where
  "sha_round (a, b, c, d, e, f, g, h) (k, w) =
     (let t1 = h + bsig1 e + ch e f g + k + w;
          t2 = bsig0 a + maj a b c
      in (t1 + t2, a, b, c, d + t1, e, f, g))"

fun hadd :: "hstate \<Rightarrow> hstate \<Rightarrow> hstate" where
  "hadd (a, b, c, d, e, f, g, h) (a', b', c', d', e', f', g', h') =
     (a + a', b + b', c + c', d + d', e + e', f + f', g + g', h + h')"

definition compress :: "hstate \<Rightarrow> w32 list \<Rightarrow> hstate" where
  "compress hs blk = hadd hs (foldl sha_round hs (zip K256 (schedule 48 blk)))"

fun blocks :: "nat \<Rightarrow> w32 list \<Rightarrow> hstate \<Rightarrow> hstate" where
  "blocks 0 ws hs = hs"
| "blocks (Suc n) ws hs = blocks n (drop 16 ws) (compress hs (take 16 ws))"

definition sha256 :: "8 word list \<Rightarrow> hstate" where
  "sha256 m = (let ws = be_words (sha_pad m) in blocks (length ws div 16) ws H256)"

definition hexDigit :: "nat \<Rightarrow> char" where
  "hexDigit n = ''0123456789abcdef'' ! (n mod 16)"

definition hex32 :: "w32 \<Rightarrow> string" where
  "hex32 w = map (\<lambda>i. hexDigit (unat (drop_bit (4 * (7 - i)) w AND 15))) [0..<8]"

fun hexdigest :: "hstate \<Rightarrow> string" where
  "hexdigest (a, b, c, d, e, f, g, h) = concat (map hex32 [a, b, c, d, e, f, g, h])"

definition utf8 :: "string \<Rightarrow> 8 word list" where
  "utf8 s = concat (map (\<lambda>c. let n = of_char c :: nat in
       if n < 128 then [word_of_nat n] else [word_of_nat (192 + n div 64), word_of_nat (128 + n mod 64)]) s)"

definition sha256hex :: "string \<Rightarrow> string" where
  "sha256hex s = hexdigest (sha256 (utf8 s))"


section \<open>Identifiers and ref names (types.ts, shadow-branch.ts, checkpoint-store.ts)\<close>

definition CHECKPOINT_ID_LENGTH :: nat where
  "CHECKPOINT_ID_LENGTH = 12"

text \<open>\<^verbatim>\<open>CHECKPOINT_ID_PATTERN = /^[0-9a-f]{12}$/\<close>.\<close>

definition validateCheckpointID :: "string \<Rightarrow> bool" where
  "validateCheckpointID ident \<longleftrightarrow> length ident = 12 \<and> list_all isHex ident"

definition checkpointIDPath :: "string \<Rightarrow> string" where
  "checkpointIDPath ident = take 2 ident @ ''/'' @ drop 2 ident"

definition CHECKPOINTS_BRANCH :: string where
  "CHECKPOINTS_BRANCH = ''entire/checkpoints/v1''"

definition SHADOW_BRANCH_PREFIX :: string where
  "SHADOW_BRANCH_PREFIX = ''entire/''"

definition SHADOW_BRANCH_HASH_LENGTH :: nat where
  "SHADOW_BRANCH_HASH_LENGTH = 7"

definition WORKTREE_ID_HASH_LENGTH :: nat where
  "WORKTREE_ID_HASH_LENGTH = 6"

definition hashWorktreeID :: "string \<Rightarrow> string" where
  "hashWorktreeID worktreeID = take WORKTREE_ID_HASH_LENGTH (sha256hex worktreeID)"

text \<open>
  An optional string argument is a \<^typ>\<open>string option\<close>; the test \<^verbatim>\<open>if (worktreeID)\<close>
  is false for \<^verbatim>\<open>undefined\<close> and for the empty string.
\<close>

definition shadowBranchNameForCommit :: "string \<Rightarrow> string option \<Rightarrow> string" where
  "shadowBranchNameForCommit baseCommit worktreeID =
     (let commitPart = take SHADOW_BRANCH_HASH_LENGTH baseCommit in
      case worktreeID of
        Some w \<Rightarrow>
          if w \<noteq> [] then SHADOW_BRANCH_PREFIX @ commitPart @ ''-'' @ hashWorktreeID w
          else SHADOW_BRANCH_PREFIX @ commitPart
      | None \<Rightarrow> SHADOW_BRANCH_PREFIX @ commitPart)"

text \<open>The checkpoint store's own copy of the naming function (checkpoint-store.ts).\<close>

definition getShadowBranchName :: "string \<Rightarrow> string option \<Rightarrow> string" where
  "getShadowBranchName baseCommit worktreeID =
     (let shortHash = take SHADOW_BRANCH_HASH_LENGTH baseCommit in
      case worktreeID of
        Some w \<Rightarrow>
          if w \<noteq> []
          then (let worktreeHash = take 6 (sha256hex w)
                in SHADOW_BRANCH_PREFIX @ shortHash @ ''-'' @ worktreeHash)
          else SHADOW_BRANCH_PREFIX @ shortHash
      | None \<Rightarrow> SHADOW_BRANCH_PREFIX @ shortHash)"

text \<open>
  \<^verbatim>\<open>SHADOW_BRANCH_PATTERN = /^entire\/[0-9a-f]{7,}(-[0-9a-f]{6,})?$/\<close>. A hyphen is no
  hexadecimal digit, so the greedy first group is the longest run of hex digits after the
  prefix, and what follows is either nothing or a hyphen and a run of hex digits to the
  end.
\<close>

definition matchesShadowPattern :: "string \<Rightarrow> bool" where
  "matchesShadowPattern branchName \<longleftrightarrow>
     startsWith branchName SHADOW_BRANCH_PREFIX \<and>
     (let r = drop (length SHADOW_BRANCH_PREFIX) branchName;
          h = takeWhile isHex r;
          t = dropWhile isHex r
      in SHADOW_BRANCH_HASH_LENGTH \<le> length h \<and>
         (t = [] \<or> (hd t = CHR ''-'' \<and> WORKTREE_ID_HASH_LENGTH \<le> length (tl t) \<and> list_all isHex (tl t))))"

definition isShadowBranch :: "string \<Rightarrow> bool" where
  "isShadowBranch branchName \<longleftrightarrow>
     (if branchName = CHECKPOINTS_BRANCH then False else matchesShadowPattern branchName)"

section \<open>Commit-message trailers (trailers.ts)\<close>

definition CheckpointTrailerKey :: string where
  "CheckpointTrailerKey = ''Runlog-Checkpoint''"

text \<open>
  \<^verbatim>\<open>checkpointTrailerRegex = /Runlog-Checkpoint:\s*([0-9a-f]{12})(?:\s|$)/\<close>, tried at one
  position. White space and hex digits are disjoint, so \<^verbatim>\<open>\s*\<close> can only succeed by
  consuming the whole run of white space.
\<close>

definition matchCheckpointAt :: "string \<Rightarrow> string option" where
  "matchCheckpointAt s =
     (let key = CheckpointTrailerKey @ '':'' in
      if startsWith s key
      then (let r = dropWhile isWhiteSpace (drop (length key) s) in
            if 12 \<le> length r \<and> list_all isHex (take 12 r) \<and>
               (length r = 12 \<or> isWhiteSpace (r ! 12))
            then Some (take 12 r) else None)
      else None)"

text \<open>\<^verbatim>\<open>regex.exec\<close>: the leftmost position at which the pattern matches.\<close>

fun execCheckpointRegex :: "string \<Rightarrow> string option" where
  "execCheckpointRegex [] = matchCheckpointAt []"
| "execCheckpointRegex (c # cs) =
     (case matchCheckpointAt (c # cs) of
        Some g \<Rightarrow> Some g
      | None \<Rightarrow> execCheckpointRegex cs)"

text \<open>
  \<^verbatim>\<open>parseCheckpoint\<close> returns the pair \<^verbatim>\<open>[id, true]\<close> or \<^verbatim>\<open>[null, false]\<close>;
  here \<^term>\<open>Some ident\<close> or \<^term>\<open>None\<close>.
\<close>

definition parseCheckpoint :: "string \<Rightarrow> string option" where
  "parseCheckpoint commitMessage =
     (case execCheckpointRegex commitMessage of
        Some g \<Rightarrow> (if g \<noteq> [] then
                     (let idStr = trim g in
                      if validateCheckpointID idStr then Some idStr else None)
                   else None)
      | None \<Rightarrow> None)"

text \<open>
  The number of checkpoint trailers that a message carries: the positions at which the
  pattern matches. Two matches cannot overlap, since a match begins with the letter R, which
  occurs in no other place of one; so this is the number of matches a global search finds.
\<close>

fun countCheckpointTrailers :: "string \<Rightarrow> nat" where
  "countCheckpointTrailers [] = 0"
| "countCheckpointTrailers (c # cs) =
     (if matchCheckpointAt (c # cs) \<noteq> None then 1 else 0) + countCheckpointTrailers cs"

section \<open>Message helpers of the strategy (manual-commit.ts)\<close>

text \<open>
  \<^verbatim>\<open>injectCheckpointTrailer\<close>: the index of the first line starting with \<^verbatim>\<open>#\<close>, or
  the number of lines.
\<close>

definition insertIndex :: "string list \<Rightarrow> nat" where
  "insertIndex lines = length (takeWhile (\<lambda>l. \<not> startsWith l ''#'') lines)"

text \<open>The \<^verbatim>\<open>while\<close> loop popping blank lines off the end of \<^verbatim>\<open>before\<close>.\<close>

definition popBlank :: "string list \<Rightarrow> string list" where
  "popBlank ls = rev (dropWhile (\<lambda>l. trim l = []) (rev ls))"

definition injectCheckpointTrailer :: "string \<Rightarrow> string \<Rightarrow> string" where
  "injectCheckpointTrailer message trailer =
     (let lines = splitNL message;
          i = insertIndex lines;
          beforeLines = popBlank (take i lines);
          afterLines = drop i lines
      in joinNL (beforeLines @ [[], trailer, []] @ afterLines))"

fun hasUserContentLines :: "string list \<Rightarrow> bool" where
  "hasUserContentLines [] = False"
| "hasUserContentLines (line # rest) =
     (let trimmed = trim line in
      if trimmed = [] then hasUserContentLines rest
      else if startsWith trimmed ''#'' then hasUserContentLines rest
      else if startsWith trimmed (CheckpointTrailerKey @ '':'') then hasUserContentLines rest
      else True)"

definition hasUserContent :: "string \<Rightarrow> bool" where
  "hasUserContent message = hasUserContentLines (splitNL message)"

definition stripCheckpointTrailer :: "string \<Rightarrow> string" where
  "stripCheckpointTrailer message =
     joinNL (filter (\<lambda>line. \<not> startsWith (trim line) (CheckpointTrailerKey @ '':''))
               (splitNL message))"

text \<open>
  The file system the hooks see: a partial map from paths to contents. Reading a missing or
  unreadable file throws in the source (\<^term>\<open>None\<close> here).
\<close>

type_synonym filesys = "string \<rightharpoonup> string"

definition commitMsg :: "filesys \<Rightarrow> string \<Rightarrow> filesys" where
  "commitMsg fs commitMsgFile =
     (case fs commitMsgFile of
        None \<Rightarrow> fs
      | Some content \<Rightarrow>
          (case parseCheckpoint content of
             None \<Rightarrow> fs
           | Some _ \<Rightarrow>
               if \<not> hasUserContent content
               then fs(commitMsgFile \<mapsto> stripCheckpointTrailer content)
               else fs))"

text \<open>The three kinds of line the message-validate rule speaks of.\<close>

definition isBlankLine :: "string \<Rightarrow> bool" where
  "isBlankLine line \<longleftrightarrow> trim line = []"

definition isCommentLine :: "string \<Rightarrow> bool" where
  "isCommentLine line \<longleftrightarrow> startsWith (trim line) ''#''"

definition isTrailerLine :: "string \<Rightarrow> bool" where
  "isTrailerLine line \<longleftrightarrow> startsWith (trim line) (CheckpointTrailerKey @ '':'')"

section \<open>The git object store and its references (git-operations.ts)\<close>

text \<open>
  The engine drives git through its command line. The model keeps what those commands read
  and write: references, commit objects, and the trees and blobs they point to. An object
  id is content addressing without collisions: a tree or blob stands for its own id, and a
  commit is named by the repository's \<open>hashCommit\<close> function. Failures of the git
  process that the stored state does not determine (locks, I/O, timeouts) are not
  modelled; a command whose failure the state does determine (an unknown revision, creating
  a branch that exists, deleting one that is missing or unmerged, a tree entry whose name
  has a slash) yields \<^term>\<open>None\<close>, the thrown \<^verbatim>\<open>GitError\<close>.
\<close>

datatype json =
    JNull
  | JBool bool
  | JNum int
  | JStr string
  | JArr "json list"
  | JObj "(string \<times> json) list"

text \<open>
  A blob holds either plain text or, for what \<^verbatim>\<open>JSON.stringify\<close> wrote, the JSON value
  that text denotes (\<^verbatim>\<open>JSON.parse\<close> of it gives the value back). \<^verbatim>\<open>JSON.parse\<close> of
  a \<open>Text\<close> blob throws.
\<close>

datatype content = Text string | Json json

text \<open>A tree entry is \<open>(mode, type, object, name)\<close>, as \<^verbatim>\<open>git ls-tree\<close> prints it.\<close>

datatype gitobj =
    Blob content
  | Tree "(string \<times> string \<times> gitobj \<times> string) list"

type_synonym treeEntry = "string \<times> string \<times> gitobj \<times> string"

definition entryName :: "treeEntry \<Rightarrow> string" where
  "entryName e = snd (snd (snd e))"

definition entryObj :: "treeEntry \<Rightarrow> gitobj" where
  "entryObj e = fst (snd (snd e))"

record GitAuthor =
  name :: string
  email :: string

record commit =
  tree :: gitobj
  parents :: "string list"
  message :: string
  author :: GitAuthor
  committer :: GitAuthor

record repo =
  refs :: "(string \<times> string) list"
  commits :: "(string \<times> commit) list"
  HEAD :: string
  currentBranch :: "string option"
  userName :: "string option"
  userEmail :: "string option"
  hashCommit :: "commit \<Rightarrow> string"
  stagedNames :: "string option"
  diffNameStatus :: "string \<Rightarrow> string \<Rightarrow> (string \<times> string) list"
  untrackedFiles :: "string list"
  worktreeRoot :: string

text \<open>
  \<open>refs\<close> maps the full names of the branches to commit ids (tags, remote-tracking
  and other references are not part of the model), \<open>HEAD\<close> is the commit id that
  \<^verbatim>\<open>HEAD\<close> resolves to, \<open>currentBranch\<close> is \<^verbatim>\<open>git symbolic-ref --short HEAD\<close>,
  \<open>userName\<close> and \<open>userEmail\<close> are the configured identity, \<open>stagedNames\<close> is
  the output of \<^verbatim>\<open>git diff --cached --name-only --diff-filter=ACMRD\<close> (\<^term>\<open>None\<close>
  when the command fails), and \<open>diffNameStatus a b\<close> is the output of
  \<^verbatim>\<open>git diff --name-status a b\<close>, one (status, path) pair per line;
  \<open>untrackedFiles\<close> is \<^verbatim>\<open>git ls-files --others --exclude-standard\<close> and
  \<open>worktreeRoot\<close> is \<^verbatim>\<open>git rev-parse --show-toplevel\<close>.
\<close>

text \<open>
  A revision argument of a git command, by the kind the call site passes: the literal
  \<^verbatim>\<open>HEAD\<close>, a short branch name, a full reference name, or a commit id.

  Git resolves a reference name by the first of six rules that finds a reference: the name
  itself, then \<^verbatim>\<open>refs/<name>\<close>, \<^verbatim>\<open>refs/tags/<name>\<close>, \<^verbatim>\<open>refs/heads/<name>\<close>,
  \<^verbatim>\<open>refs/remotes/<name>\<close> and \<^verbatim>\<open>refs/remotes/<name>/HEAD\<close>. With branches only, the
  rules that can find one are kept. A full name \<^verbatim>\<open>refs/heads/X\<close> is looked up as it is and
  then, by the fourth rule, as \<^verbatim>\<open>refs/heads/refs/heads/X\<close>. A short name is one of the
  engine's own (\<^verbatim>\<open>entire/...\<close>, or the name of the metadata branch, taken not to begin
  with \<^verbatim>\<open>refs/\<close> or \<^verbatim>\<open>heads/\<close>) and is looked up as \<^verbatim>\<open>refs/heads/<name>\<close>.
\<close>

datatype revision = Head | Branch string | FullRef string | CommitId string

definition revParse :: "repo \<Rightarrow> revision \<Rightarrow> string option" where
  "revParse r rv =
     (case rv of
        Head \<Rightarrow> Some (HEAD r)
      | Branch b \<Rightarrow> map_of (refs r) (''refs/heads/'' @ b)
      | FullRef n \<Rightarrow>
          (case map_of (refs r) n of
             Some h \<Rightarrow> Some h
           | None \<Rightarrow> map_of (refs r) (''refs/heads/'' @ n))
      | CommitId h \<Rightarrow> (if map_of (commits r) h \<noteq> None then Some h else None))"

definition getHead :: "repo \<Rightarrow> string" where
  "getHead r = HEAD r"

definition getCurrentBranch :: "repo \<Rightarrow> string option" where
  "getCurrentBranch r = currentBranch r"

text \<open>
  \<^verbatim>\<open>refExists\<close>: \<^verbatim>\<open>git rev-parse --verify <ref>\<close> did not fail. The engine always
  passes a full reference name, which git resolves by its rules: a branch named
  \<^verbatim>\<open>refs/heads/X\<close> answers for \<^verbatim>\<open>refs/heads/X\<close> when no branch \<^verbatim>\<open>X\<close> exists.
\<close>

definition refExists :: "repo \<Rightarrow> string \<Rightarrow> bool" where
  "refExists r ref \<longleftrightarrow> revParse r (FullRef ref) \<noteq> None"

definition lookupCommit :: "repo \<Rightarrow> revision \<Rightarrow> commit option" where
  "lookupCommit r rv =
     (case revParse r rv of None \<Rightarrow> None | Some h \<Rightarrow> map_of (commits r) h)"

text \<open>\<^verbatim>\<open>getTreeHash\<close>: \<^verbatim>\<open>git rev-parse <ref>^{tree}\<close>.\<close>

definition getTreeHash :: "repo \<Rightarrow> revision \<Rightarrow> gitobj option" where
  "getTreeHash r ref = map_option tree (lookupCommit r ref)"

text \<open>\<^verbatim>\<open>updateRef\<close> prefixes its argument: \<^verbatim>\<open>git update-ref refs/heads/${ref} <hash>\<close>.\<close>

definition updateRef :: "repo \<Rightarrow> string \<Rightarrow> string \<Rightarrow> repo" where
  "updateRef r ref h = r\<lparr>refs := AList.update (''refs/heads/'' @ ref) h (refs r)\<rparr>"

text \<open>\<^verbatim>\<open>git branch <name> <hash>\<close>: refuses a branch that exists.\<close>

definition gitBranchCreate :: "repo \<Rightarrow> string \<Rightarrow> string \<Rightarrow> repo option" where
  "gitBranchCreate r b h =
     (if map_of (refs r) (''refs/heads/'' @ b) \<noteq> None then None
      else Some (r\<lparr>refs := AList.update (''refs/heads/'' @ b) h (refs r)\<rparr>))"

text \<open>
  Reachability along parent links, breadth first, with the number of stored commits as
  the bound on the depth.
\<close>

fun reach :: "(string \<times> commit) list \<Rightarrow> nat \<Rightarrow> string list \<Rightarrow> string \<Rightarrow> bool" where
  "reach cs 0 frontier target \<longleftrightarrow> target \<in> set frontier"
| "reach cs (Suc n) frontier target \<longleftrightarrow>
     target \<in> set frontier \<or>
     reach cs n (concat (map (\<lambda>h. case map_of cs h of None \<Rightarrow> [] | Some c \<Rightarrow> parents c) frontier))
       target"

definition mergedIntoHead :: "repo \<Rightarrow> string \<Rightarrow> bool" where
  "mergedIntoHead r tip \<longleftrightarrow> reach (commits r) (length (commits r)) [HEAD r] tip"

text \<open>
  \<^verbatim>\<open>deleteBranch(name, force)\<close>: \<^verbatim>\<open>git branch -D\<close> or \<^verbatim>\<open>-d\<close>. Git refuses the
  branch that is checked out, and without force a branch that is not merged into
  \<^verbatim>\<open>HEAD\<close>.
\<close>

definition deleteBranch :: "repo \<Rightarrow> string \<Rightarrow> bool \<Rightarrow> repo option" where
  "deleteBranch r b force =
     (case map_of (refs r) (''refs/heads/'' @ b) of
        None \<Rightarrow> None
      | Some tip \<Rightarrow>
          if currentBranch r \<noteq> Some b \<and> (force \<or> mergedIntoHead r tip)
          then Some (r\<lparr>refs := AList.delete (''refs/heads/'' @ b) (refs r)\<rparr>)
          else None)"

definition getGitAuthor :: "repo \<Rightarrow> GitAuthor" where
  "getGitAuthor r =
     \<lparr> name = (case userName r of Some n \<Rightarrow> n | None \<Rightarrow> ''Entire''),
       email = (case userEmail r of Some e \<Rightarrow> e | None \<Rightarrow> ''entire@localhost'') \<rparr>"

text \<open>
  \<^verbatim>\<open>mktree\<close> and \<^verbatim>\<open>hashObject\<close>: the object is its own id. \<^verbatim>\<open>git mktree\<close> dies on
  an entry whose name contains a slash. It accepts an empty name and writes a tree that git
  cannot read back.
\<close>

definition mktree :: "treeEntry list \<Rightarrow> gitobj option" where
  "mktree es =
     (if \<exists>e \<in> set es. CHR ''/'' \<in> set (entryName e) then None else Some (Tree es))"

definition hashObject :: "content \<Rightarrow> gitobj" where
  "hashObject c = Blob c"

text \<open>
  \<^verbatim>\<open>commitTree\<close>: \<^verbatim>\<open>git commit-tree <tree> [-p <parent>] -m <message>\<close> with author and
  committer both set from the given identity. A null or empty parent gives a root commit;
  a parent that names no commit makes git fail.
\<close>

definition commitTree ::
  "repo \<Rightarrow> gitobj \<Rightarrow> string option \<Rightarrow> string \<Rightarrow> GitAuthor \<Rightarrow> (repo \<times> string) option" where
  "commitTree r treeHash parentHash msg who =
     (let ps = (case parentHash of None \<Rightarrow> [] | Some p \<Rightarrow> if p = [] then [] else [p]) in
      if \<exists>p \<in> set ps. revParse r (CommitId p) = None then None
      else (let c = \<lparr> tree = treeHash, parents = ps, message = msg,
                        author = who, committer = who \<rparr>;
                h = hashCommit r c
            in Some (r\<lparr>commits := AList.update h c (commits r)\<rparr>, h)))"

text \<open>
  The entries of a tree object as git reads them (\<^verbatim>\<open>git ls-tree\<close>, and every path
  lookup): nothing for a blob, and nothing for a tree that cannot be read, which is one with
  an empty entry name. A tree with a slash in an entry name is not one that git wrote; it is
  read like an unreadable one.
\<close>

definition validName :: "string \<Rightarrow> bool" where
  "validName n \<longleftrightarrow> n \<noteq> [] \<and> CHR ''/'' \<notin> set n"

fun treeEntries :: "gitobj \<Rightarrow> treeEntry list" where
  "treeEntries (Tree es) = (if \<forall>e \<in> set es. validName (entryName e) then es else [])"
| "treeEntries (Blob _) = []"

fun findEntry :: "treeEntry list \<Rightarrow> string \<Rightarrow> gitobj option" where
  "findEntry [] n = None"
| "findEntry (e # es) n = (if entryName e = n then Some (entryObj e) else findEntry es n)"

text \<open>
  Resolving \<^verbatim>\<open><rev>:<path>\<close>, the path already cut at its slashes; the empty path is
  the tree of the revision itself.
\<close>

fun lookupPath :: "gitobj \<Rightarrow> string list \<Rightarrow> gitobj option" where
  "lookupPath ob [] = Some ob"
| "lookupPath ob (p # ps) =
     (case findEntry (treeEntries ob) p of
        None \<Rightarrow> None
      | Some sub \<Rightarrow> lookupPath sub ps)"

text \<open>\<^verbatim>\<open>path.split('/')\<close>.\<close>

fun splitSlash :: "string \<Rightarrow> string list" where
  "splitSlash [] = [[]]"
| "splitSlash (c # cs) =
     (if c = CHR ''/'' then [] # splitSlash cs
      else (case splitSlash cs of
              l # ls \<Rightarrow> (c # l) # ls
            | [] \<Rightarrow> [[c]]))"

definition resolvePath :: "repo \<Rightarrow> revision \<Rightarrow> string \<Rightarrow> gitobj option" where
  "resolvePath r rv filePath =
     (case getTreeHash r rv of
        None \<Rightarrow> None
      | Some t \<Rightarrow> if filePath = [] then Some t else lookupPath t (splitSlash filePath))"

text \<open>
  \<^verbatim>\<open>lsTree(ref)\<close> lists the root tree of a revision; \<^verbatim>\<open>lsTree(`${ref}:${dir}`)\<close> lists
  a subtree. Both go through \<^verbatim>\<open>gitSafe\<close> and give the empty list on failure.
\<close>

definition lsTree :: "repo \<Rightarrow> revision \<Rightarrow> treeEntry list" where
  "lsTree r ref = (case getTreeHash r ref of None \<Rightarrow> [] | Some t \<Rightarrow> treeEntries t)"

definition lsTreeAt :: "repo \<Rightarrow> revision \<Rightarrow> string \<Rightarrow> treeEntry list" where
  "lsTreeAt r ref dir = (case resolvePath r ref dir of None \<Rightarrow> [] | Some t \<Rightarrow> treeEntries t)"

text \<open>\<^verbatim>\<open>showFile\<close>: \<^verbatim>\<open>git show <ref>:<path>\<close>, the content of the blob there.\<close>

definition showFile :: "repo \<Rightarrow> revision \<Rightarrow> string \<Rightarrow> content option" where
  "showFile r ref filePath =
     (case resolvePath r ref filePath of
        Some (Blob c) \<Rightarrow> Some c
      | _ \<Rightarrow> None)"

text \<open>
  \<^verbatim>\<open>diffNameOnly\<close>: the lines of \<^verbatim>\<open>git diff --name-status\<close> sorted by the first
  letter of the status.
\<close>

definition statusLetter :: "string \<Rightarrow> char option" where
  "statusLetter st = (case st of [] \<Rightarrow> None | c # _ \<Rightarrow> Some c)"

definition diffNameOnly :: "repo \<Rightarrow> string \<Rightarrow> string \<Rightarrow> string list \<times> string list \<times> string list" where
  "diffNameOnly r refA refB =
     (let ls = diffNameStatus r refA refB in
      (map snd (filter (\<lambda>l. statusLetter (fst l) = Some CHR ''A'') ls),
       map snd (filter (\<lambda>l. statusLetter (fst l) \<noteq> Some CHR ''A'' \<and>
                             statusLetter (fst l) \<noteq> Some CHR ''D'') ls),
       map snd (filter (\<lambda>l. statusLetter (fst l) = Some CHR ''D'') ls)))"

section \<open>Numbers and token usage (types.ts)\<close>

text \<open>
  A JavaScript number is an IEEE 754 double. The counters of the engine are whole numbers;
  a whole number is a double when its binary expansion has at most 53 significant bits,
  and a sum is rounded to the nearest double, ties to the even one. \<open>excessBits m\<close> is the
  number of low bits that \<open>m\<close> has beyond 53.
\<close>

function excessBits :: "int \<Rightarrow> nat" where
  "excessBits m = (if m < 2 ^ 53 then 0 else Suc (excessBits (m div 2)))"
  by pat_completeness auto
termination
  by (relation "measure nat") auto

definition roundDouble :: "int \<Rightarrow> int" where
  "roundDouble n =
     (let m = \<bar>n\<bar>;
          s = excessBits m;
          q = m div 2 ^ s;
          rest = m mod 2 ^ s;
          up = (2 * rest > 2 ^ s \<or> (2 * rest = 2 ^ s \<and> odd q));
          v = (if up then q + 1 else q) * 2 ^ s
      in if n < 0 then - v else v)"

text \<open>
  The values a counter can take: a whole double, the two infinities that a sum reaches
  beyond the largest double, and \<^verbatim>\<open>NaN\<close>.
\<close>

datatype jsNumber = Whole int | PosInfinity | NegInfinity | NotANumber

fun jsAdd :: "jsNumber \<Rightarrow> jsNumber \<Rightarrow> jsNumber" where
  "jsAdd (Whole a) (Whole b) =
     (let v = roundDouble (a + b)
      in if v \<ge> 2 ^ 1024 then PosInfinity
         else if v \<le> - (2 ^ 1024) then NegInfinity
         else Whole v)"
| "jsAdd NotANumber _ = NotANumber"
| "jsAdd _ NotANumber = NotANumber"
| "jsAdd PosInfinity NegInfinity = NotANumber"
| "jsAdd NegInfinity PosInfinity = NotANumber"
| "jsAdd PosInfinity _ = PosInfinity"
| "jsAdd _ PosInfinity = PosInfinity"
| "jsAdd NegInfinity _ = NegInfinity"
| "jsAdd _ NegInfinity = NegInfinity"

text \<open>\<^verbatim>\<open>JSON.stringify\<close> writes \<^verbatim>\<open>null\<close> for a number that is not finite.\<close>

fun jsNumberToJson :: "jsNumber \<Rightarrow> json" where
  "jsNumberToJson (Whole i) = JNum i"
| "jsNumberToJson _ = JNull"

datatype TokenUsage =
  TokenUsage (inputTokens: jsNumber) (cacheCreationTokens: jsNumber) (cacheReadTokens: jsNumber)
             (outputTokens: jsNumber) (apiCallCount: jsNumber) (subagentTokens: "TokenUsage option")

definition emptyTokenUsage :: TokenUsage where
  "emptyTokenUsage = TokenUsage (Whole 0) (Whole 0) (Whole 0) (Whole 0) (Whole 0) None"

function addTokenUsage :: "TokenUsage \<Rightarrow> TokenUsage \<Rightarrow> TokenUsage" where
  "addTokenUsage a b =
     TokenUsage (jsAdd (inputTokens a) (inputTokens b))
       (jsAdd (cacheCreationTokens a) (cacheCreationTokens b))
       (jsAdd (cacheReadTokens a) (cacheReadTokens b))
       (jsAdd (outputTokens a) (outputTokens b))
       (jsAdd (apiCallCount a) (apiCallCount b))
       (if subagentTokens a \<noteq> None \<or> subagentTokens b \<noteq> None
        then Some (addTokenUsage
                     (case subagentTokens a of
                        Some x \<Rightarrow> x
                      | None \<Rightarrow> TokenUsage (Whole 0) (Whole 0) (Whole 0) (Whole 0) (Whole 0) None)
                     (case subagentTokens b of
                        Some y \<Rightarrow> y
                      | None \<Rightarrow> TokenUsage (Whole 0) (Whole 0) (Whole 0) (Whole 0) (Whole 0) None))
        else None)"
  by pat_completeness auto
termination
  by (relation "measure (\<lambda>(a, b). size a + size b)")
     (auto split: option.splits, (case_tac a; case_tac b; simp)+)

fun tokenUsageToJson :: "TokenUsage \<Rightarrow> json" where
  "tokenUsageToJson (TokenUsage i cc cr ou ap sub) =
     JObj ([(''inputTokens'', jsNumberToJson i), (''cacheCreationTokens'', jsNumberToJson cc),
            (''cacheReadTokens'', jsNumberToJson cr), (''outputTokens'', jsNumberToJson ou),
            (''apiCallCount'', jsNumberToJson ap)] @
           (case sub of None \<Rightarrow> [] | Some u \<Rightarrow> [(''subagentTokens'', tokenUsageToJson u)]))"

text \<open>\<^verbatim>\<open>JSON.stringify\<close> leaves a field out when its value is \<^verbatim>\<open>undefined\<close>.\<close>

definition optField :: "string \<Rightarrow> ('a \<Rightarrow> json) \<Rightarrow> 'a option \<Rightarrow> (string \<times> json) list" where
  "optField k enc v = (case v of None \<Rightarrow> [] | Some x \<Rightarrow> [(k, enc x)])"

fun jsonField :: "json \<Rightarrow> string \<Rightarrow> json option" where
  "jsonField (JObj fs) k = map_of fs k"
| "jsonField _ k = None"

section \<open>The checkpoint store (checkpoint-store.ts)\<close>

record WriteTemporaryOptions =
  sessionID :: string
  baseCommit :: string
  worktreeID :: "string option"
  modifiedFiles :: "string list"
  newFiles :: "string list"
  deletedFiles :: "string list"
  metadataDir :: string
  metadataDirAbs :: string
  commitMessage :: string
  authorName :: string
  authorEmail :: string
  isFirstCheckpoint :: bool

record WriteTemporaryResult =
  commitHash :: string
  skipped :: bool

text \<open>The field \<^verbatim>\<open>context\<close> of the source is \<open>contextMd\<close> here.\<close>

record WriteCommittedOptions =
  checkpointID :: string
  sessionID :: string
  strategy :: string
  branch :: "string option"
  transcript :: string
  prompts :: "string list"
  contextMd :: string
  filesTouched :: "string list"
  checkpointsCount :: int
  authorName :: string
  authorEmail :: string
  agent :: string
  turnID :: "string option"
  isTask :: "bool option"
  toolUseID :: "string option"
  transcriptIdentifierAtStart :: "string option"
  checkpointTranscriptStart :: int
  tokenUsage :: "TokenUsage option"
  summary :: "json option"
  initialAttribution :: "json option"

text \<open>
  \<^verbatim>\<open>generateID\<close>: six random bytes in hexadecimal. The six bytes are a 48-bit word.
\<close>

definition generateID :: "48 word \<Rightarrow> string" where
  "generateID bytes = map (\<lambda>i. hexDigit (unat (drop_bit (4 * (11 - i)) bytes AND 15))) [0..<12]"

text \<open>
  \<^verbatim>\<open>buildMetadataTree\<close>. The time stamp is \<^verbatim>\<open>new Date().toISOString()\<close>, passed in.
\<close>

definition buildMetadataTree :: "WriteTemporaryOptions \<Rightarrow> string \<Rightarrow> treeEntry list" where
  "buildMetadataTree opts timestamp =
     (let metadata = JObj
            [(''sessionID'', JStr (WriteTemporaryOptions.sessionID opts)),
             (''baseCommit'', JStr (baseCommit opts)),
             (''timestamp'', JStr timestamp),
             (''modifiedFiles'', JArr (map JStr (modifiedFiles opts))),
             (''newFiles'', JArr (map JStr (newFiles opts))),
             (''deletedFiles'', JArr (map JStr (deletedFiles opts)))];
          blob = hashObject (Json metadata)
      in [(''100644'', ''blob'', blob, ''checkpoint.json'')])"

definition mergeMetadataIntoTree :: "gitobj \<Rightarrow> treeEntry list \<Rightarrow> string \<Rightarrow> gitobj option" where
  "mergeMetadataIntoTree baseTree metadataEntries dir =
     (case mktree metadataEntries of
        None \<Rightarrow> None
      | Some metadataTree \<Rightarrow>
          (let rootEntries = treeEntries baseTree;
               filtered = filter (\<lambda>e. entryName e \<noteq> dir) rootEntries
           in mktree (filtered @ [(''040000'', ''tree'', metadataTree, dir)])))"

text \<open>
  The part of \<^verbatim>\<open>writeTemporary\<close> after the dedup test: graft the metadata into the
  tree of \<^verbatim>\<open>HEAD\<close>, commit with parent \<^verbatim>\<open>parentHash ?? headHash\<close>, and move or
  create the branch.
\<close>

definition createTemporaryCommit ::
  "string \<Rightarrow> repo \<Rightarrow> WriteTemporaryOptions \<Rightarrow> string \<Rightarrow> bool \<Rightarrow> string option \<Rightarrow>
   (repo \<times> WriteTemporaryResult) option" where
  "createTemporaryCommit timestamp r opts branchName branchExists parentHash =
     (case getTreeHash r Head of
        None \<Rightarrow> None
      | Some headTreeHash \<Rightarrow>
          (case mergeMetadataIntoTree headTreeHash (buildMetadataTree opts timestamp)
                  (metadataDir opts) of
             None \<Rightarrow> None
           | Some newTree \<Rightarrow>
               (let who = \<lparr> name = WriteTemporaryOptions.authorName opts,
                            email = WriteTemporaryOptions.authorEmail opts \<rparr>;
                    p = (case parentHash of Some ph \<Rightarrow> ph | None \<Rightarrow> getHead r)
                in case commitTree r newTree (Some p) (commitMessage opts) who of
                     None \<Rightarrow> None
                   | Some (r1, newHash) \<Rightarrow>
                       (case (if branchExists then Some (updateRef r1 branchName newHash)
                              else gitBranchCreate r1 branchName newHash) of
                          None \<Rightarrow> None
                        | Some r2 \<Rightarrow> Some (r2, \<lparr> commitHash = newHash, skipped = False \<rparr>)))))"

definition writeTemporary ::
  "string \<Rightarrow> repo \<Rightarrow> WriteTemporaryOptions \<Rightarrow> (repo \<times> WriteTemporaryResult) option" where
  "writeTemporary timestamp r opts =
     (let branchName = getShadowBranchName (baseCommit opts) (worktreeID opts);
          branchExists = refExists r (''refs/heads/'' @ branchName)
      in if branchExists
         then (case revParse r (Branch branchName) of
                 None \<Rightarrow> None
               | Some parentHash \<Rightarrow>
                   (case getTreeHash r (Branch branchName) of
                      None \<Rightarrow> None
                    | Some baseTreeHash \<Rightarrow>
                        (case getTreeHash r Head of
                           None \<Rightarrow> None
                         | Some headTreeHash \<Rightarrow>
                             if baseTreeHash = headTreeHash
                             then Some (r, \<lparr> commitHash = parentHash, skipped = True \<rparr>)
                             else createTemporaryCommit timestamp r opts branchName branchExists
                                    (Some parentHash))))
         else createTemporaryCommit timestamp r opts branchName branchExists None)"

text \<open>\<^verbatim>\<open>deleteShadowBranch\<close>: forced deletion, errors swallowed.\<close>

definition deleteShadowBranch :: "repo \<Rightarrow> string \<Rightarrow> repo" where
  "deleteShadowBranch r branchName =
     (case deleteBranch r branchName True of None \<Rightarrow> r | Some r' \<Rightarrow> r')"

text \<open>
  \<^verbatim>\<open>writeCommitted\<close>, on the repository that holds the metadata branch \<open>cpBranch\<close>.
\<close>

definition committedMetadata :: "WriteCommittedOptions \<Rightarrow> string \<Rightarrow> json" where
  "committedMetadata opts createdAt =
     JObj ([(''cliVersion'', JStr ''opentasks-entire''),
            (''checkpointID'', JStr (checkpointID opts)),
            (''sessionID'', JStr (sessionID opts)),
            (''strategy'', JStr (strategy opts)),
            (''createdAt'', JStr createdAt)] @
           optField ''branch'' JStr (branch opts) @
           [(''checkpointsCount'', JNum (checkpointsCount opts)),
            (''filesTouched'', JArr (map JStr (filesTouched opts))),
            (''agent'', JStr (agent opts))] @
           optField ''turnID'' JStr (turnID opts) @
           optField ''isTask'' JBool (isTask opts) @
           optField ''toolUseID'' JStr (toolUseID opts) @
           optField ''transcriptIdentifierAtStart'' JStr (transcriptIdentifierAtStart opts) @
           [(''checkpointTranscriptStart'', JNum (checkpointTranscriptStart opts))] @
           optField ''tokenUsage'' tokenUsageToJson (tokenUsage opts) @
           optField ''summary'' id (summary opts) @
           optField ''initialAttribution'' id (initialAttribution opts))"

definition checkpointSummary :: "WriteCommittedOptions \<Rightarrow> string \<Rightarrow> string \<Rightarrow> json" where
  "checkpointSummary opts checkpointPath sessionIndex =
     JObj ([(''cliVersion'', JStr ''opentasks-entire''),
            (''checkpointID'', JStr (checkpointID opts)),
            (''strategy'', JStr (strategy opts))] @
           optField ''branch'' JStr (branch opts) @
           [(''checkpointsCount'', JNum (checkpointsCount opts)),
            (''filesTouched'', JArr (map JStr (filesTouched opts))),
            (''sessions'', JArr [JObj
               [(''metadata'', JStr (checkpointPath @ ''/'' @ sessionIndex @ ''/metadata.json'')),
                (''transcript'', JStr (checkpointPath @ ''/'' @ sessionIndex @ ''/full.jsonl'')),
                (''context'', JStr (checkpointPath @ ''/'' @ sessionIndex @ ''/context.md'')),
                (''prompt'', JStr (checkpointPath @ ''/'' @ sessionIndex @ ''/prompt.txt''))]])] @
           optField ''tokenUsage'' tokenUsageToJson (tokenUsage opts))"

text \<open>\<^verbatim>\<open>prompts.join('\n---\n')\<close>.\<close>

fun joinPrompts :: "string list \<Rightarrow> string" where
  "joinPrompts [] = []"
| "joinPrompts [p] = p"
| "joinPrompts (p # ps) = p @ [CHR 0x0A] @ ''---'' @ [CHR 0x0A] @ joinPrompts ps"

definition writeCommitted :: "string \<Rightarrow> string \<Rightarrow> repo \<Rightarrow> WriteCommittedOptions \<Rightarrow> repo option" where
  "writeCommitted cpBranch createdAt r opts =
     (let checkpointPath = checkpointIDPath (checkpointID opts);
          branchRef = ''refs/heads/'' @ cpBranch;
          branchExists = refExists r branchRef
      in case (if branchExists
               then (case revParse r (Branch cpBranch) of
                       None \<Rightarrow> None
                     | Some ph \<Rightarrow>
                         (case getTreeHash r (Branch cpBranch) of
                            None \<Rightarrow> None
                          | Some bt \<Rightarrow> Some (Some ph, Some bt)))
               else Some (None, None)) of
           None \<Rightarrow> None
         | Some (parentHash, baseTree) \<Rightarrow>
             (let sessionIndex = ''1'';
                  metadataBlob = hashObject (Json (committedMetadata opts createdAt));
                  transcriptBlob = hashObject (Text (transcript opts));
                  promptBlob = hashObject (Text (joinPrompts (prompts opts)));
                  contextBlob = hashObject (Text (contextMd opts))
              in case mktree
                    [(''100644'', ''blob'', metadataBlob, ''metadata.json''),
                     (''100644'', ''blob'', transcriptBlob, ''full.jsonl''),
                     (''100644'', ''blob'', promptBlob, ''prompt.txt''),
                     (''100644'', ''blob'', contextBlob, ''context.md'')] of
                   None \<Rightarrow> None
                 | Some sessionTree \<Rightarrow>
                     (let summaryBlob =
                            hashObject (Json (checkpointSummary opts checkpointPath sessionIndex))
                      in case mktree
                            [(''100644'', ''blob'', summaryBlob, ''metadata.json''),
                             (''040000'', ''tree'', sessionTree, sessionIndex)] of
                           None \<Rightarrow> None
                         | Some checkpointTree \<Rightarrow>
      (let shardDir = take 2 (checkpointID opts);
           checkpointDir = drop 2 (checkpointID opts);
           existingShardEntries =
             (if baseTree \<noteq> None then lsTreeAt r (Branch cpBranch) shardDir else []);
           shardSubtreeEntries =
             (if existingShardEntries \<noteq> []
              then filter (\<lambda>e. entryName e \<noteq> checkpointDir) existingShardEntries
              else []) @ [(''040000'', ''tree'', checkpointTree, checkpointDir)]
       in case mktree shardSubtreeEntries of
            None \<Rightarrow> None
          | Some shardTree \<Rightarrow>
              (let rootEntries =
                     (if baseTree \<noteq> None
                      then filter (\<lambda>e. entryName e \<noteq> shardDir) (lsTree r (Branch cpBranch))
                      else []) @ [(''040000'', ''tree'', shardTree, shardDir)]
               in case mktree rootEntries of
                    None \<Rightarrow> None
                  | Some rootTree \<Rightarrow>
                      (let who = getGitAuthor r;
                           msg = ''Entire-Checkpoint: '' @ checkpointID opts @ [CHR 0x0A, CHR 0x0A] @
                                 ''Session: '' @ sessionID opts
                       in case commitTree r rootTree parentHash msg who of
                            None \<Rightarrow> None
                          | Some (r1, newHash) \<Rightarrow>
                              if branchExists then Some (updateRef r1 cpBranch newHash)
                              else gitBranchCreate r1 cpBranch newHash))))))"

text \<open>
  \<^verbatim>\<open>readCommitted\<close>: the parsed \<^verbatim>\<open>metadata.json\<close> at the checkpoint's path, or
  \<^verbatim>\<open>null\<close>. The cast to \<^verbatim>\<open>CheckpointSummary\<close> checks nothing, so the result is the
  JSON value as stored.
\<close>

definition readCommitted :: "string \<Rightarrow> repo \<Rightarrow> string \<Rightarrow> json option" where
  "readCommitted cpBranch r ident =
     (if \<not> refExists r (''refs/heads/'' @ cpBranch) then None
      else (let checkpointPath = checkpointIDPath ident in
            case showFile r (Branch cpBranch) (checkpointPath @ ''/metadata.json'') of
              Some (Json j) \<Rightarrow> Some j
            | _ \<Rightarrow> None))"

section \<open>Session state and the session store (types.ts, session-store.ts)\<close>

datatype SessionPhase = Idle | Active | Ended

record PromptAttribution =
  prompt :: string
  timestamp :: string
  agentLines :: int
  humanAdded :: int
  humanModified :: int
  humanRemoved :: int

text \<open>What \<^verbatim>\<open>condenseSession\<close> returns.\<close>

record CondensationResult =
  checkpointID :: string
  sessionsCondensed :: int
  checkpointsCount :: int
  filesTouched :: "string list"
  tokenUsage :: "TokenUsage option"

text \<open>
  What a step hands to \<^verbatim>\<open>saveStep\<close>: the fields of \<^verbatim>\<open>StepContext\<close> that the
  strategy reads.
\<close>

record StepContext =
  metadataDir :: string
  metadataDirAbs :: string
  modifiedFiles :: "string list"
  newFiles :: "string list"
  deletedFiles :: "string list"
  commitMessage :: string
  authorName :: string
  authorEmail :: string
  agentType :: string
  stepTranscriptIdentifier :: "string option"
  tokenUsage :: "TokenUsage option"

text \<open>
  \<open>endedAt\<close> holds the time \<^verbatim>\<open>new Date(state.endedAt).getTime()\<close> in milliseconds;
  an absent, empty or unparsable time stamp is \<^term>\<open>None\<close>.
\<close>

record SessionState =
  sessionID :: string
  cliVersion :: "string option"
  baseCommit :: string
  attributionBaseCommit :: "string option"
  worktreePath :: "string option"
  worktreeID :: "string option"
  startedAt :: string
  endedAt :: "int option"
  phase :: SessionPhase
  turnID :: "string option"
  turnCheckpointIDs :: "string list"
  lastInteractionTime :: "string option"
  stepCount :: int
  checkpointTranscriptStart :: int
  untrackedFilesAtStart :: "string list"
  filesTouched :: "string list"
  lastCheckpointID :: "string option"
  agentType :: string
  tokenUsage :: "TokenUsage option"
  transcriptIdentifierAtStart :: "string option"
  transcriptPath :: "string option"
  firstPrompt :: "string option"
  promptAttributions :: "PromptAttribution list option"
  pendingPromptAttribution :: "PromptAttribution option"

definition STALE_SESSION_DAYS :: int where
  "STALE_SESSION_DAYS = 7"

definition isStale :: "int \<Rightarrow> SessionState \<Rightarrow> bool" where
  "isStale now state \<longleftrightarrow>
     (if phase state \<noteq> Ended \<or> endedAt state = None then False
      else (case endedAt state of
              Some t \<Rightarrow> t < now - STALE_SESSION_DAYS * 24 * 60 * 60 * 1000
            | None \<Rightarrow> False))"

text \<open>
  The sessions directory: one state per file \<^verbatim>\<open><key>.json\<close>, in directory order.
  Writing and reading a state back is the identity.
\<close>

type_synonym sessionDir = "(string \<times> SessionState) list"

text \<open>\<^verbatim>\<open>load\<close>: a stale session is unlinked and reported absent.\<close>

definition storeLoad :: "int \<Rightarrow> sessionDir \<Rightarrow> string \<Rightarrow> sessionDir \<times> SessionState option" where
  "storeLoad now dir sid =
     (case map_of dir sid of
        None \<Rightarrow> (dir, None)
      | Some state \<Rightarrow>
          if isStale now state then (AList.delete sid dir, None) else (dir, Some state))"

text \<open>\<^verbatim>\<open>list\<close>: stale sessions are unlinked on the way and left out.\<close>

definition storeList :: "int \<Rightarrow> sessionDir \<Rightarrow> sessionDir \<times> SessionState list" where
  "storeList now dir =
     (let kept = filter (\<lambda>(k, state). \<not> isStale now state) dir
      in (kept, map snd kept))"

definition storeSave :: "sessionDir \<Rightarrow> SessionState \<Rightarrow> sessionDir" where
  "storeSave dir state = AList.update (sessionID state) state dir"

section \<open>The world of the strategy (manual-commit.ts)\<close>

text \<open>
  \<open>proj\<close> is the repository at \<^verbatim>\<open>cwd\<close>; \<open>sessionRepo\<close> is the separate
  session repository at \<^verbatim>\<open>sessionRepoCwd\<close> when one is configured; \<open>files\<close> is
  the file system; \<open>nowMs\<close> and \<open>nowISO\<close> are the clock as \<^verbatim>\<open>Date.now()\<close> and as
  \<^verbatim>\<open>new Date().toISOString()\<close>; \<open>entropy\<close> are the successive results of
  \<^verbatim>\<open>crypto.randomBytes(6)\<close>, of which \<open>drawn\<close> have been used.
\<close>

record world =
  proj :: repo
  sessionRepo :: "repo option"
  sessions :: sessionDir
  files :: filesys
  nowMs :: int
  nowISO :: string
  entropy :: "nat \<Rightarrow> 48 word"
  drawn :: nat

text \<open>
  What the strategy is configured with and what it imports from modules that are not among
  the sources at hand: the branch name override, the three questions of the overlap
  analyzer (content-overlap.ts), each asked of a repository, and the text that
  \<^verbatim>\<open>git show\<close> prints for a blob holding a JSON document.
\<close>

record env =
  checkpointsBranch :: "string option"
  filesOverlapWithContent :: "repo \<Rightarrow> string \<Rightarrow> string \<Rightarrow> string \<Rightarrow> string list \<Rightarrow> bool"
  stagedFilesOverlapWithContent :: "repo \<Rightarrow> string \<Rightarrow> string list \<Rightarrow> string list \<Rightarrow> bool"
  filesWithRemainingAgentChanges ::
    "repo \<Rightarrow> string \<Rightarrow> string \<Rightarrow> string list \<Rightarrow> string set \<Rightarrow> string list"
  jsonText :: "json \<Rightarrow> string"

definition cpBranch :: "env \<Rightarrow> string" where
  "cpBranch e = (case checkpointsBranch e of Some b \<Rightarrow> b | None \<Rightarrow> CHECKPOINTS_BRANCH)"

text \<open>
  The name of the strategy, \<^verbatim>\<open>STRATEGY_NAME_MANUAL_COMMIT\<close>, is declared in
  strategy/types.ts, which is not among the sources at hand; trailers.ts writes the same
  name literally.
\<close>

definition STRATEGY_NAME_MANUAL_COMMIT :: string where
  "STRATEGY_NAME_MANUAL_COMMIT = ''manual-commit''"

text \<open>The repository that committed checkpoints go to (\<^verbatim>\<open>committedCwd\<close>).\<close>

definition committedRepo :: "world \<Rightarrow> repo" where
  "committedRepo w = (case sessionRepo w of Some r \<Rightarrow> r | None \<Rightarrow> proj w)"

definition setCommittedRepo :: "world \<Rightarrow> repo \<Rightarrow> world" where
  "setCommittedRepo w r =
     (case sessionRepo w of Some _ \<Rightarrow> w\<lparr>sessionRepo := Some r\<rparr> | None \<Rightarrow> w\<lparr>proj := r\<rparr>)"

definition loadSession :: "world \<Rightarrow> string \<Rightarrow> world \<times> SessionState option" where
  "loadSession w sid =
     (case storeLoad (nowMs w) (sessions w) sid of (dir, res) \<Rightarrow> (w\<lparr>sessions := dir\<rparr>, res))"

definition saveSession :: "world \<Rightarrow> SessionState \<Rightarrow> world" where
  "saveSession w state = w\<lparr>sessions := storeSave (sessions w) state\<rparr>"

definition listAllSessions :: "world \<Rightarrow> world \<times> SessionState list" where
  "listAllSessions w =
     (case storeList (nowMs w) (sessions w) of (dir, res) \<Rightarrow> (w\<lparr>sessions := dir\<rparr>, res))"

definition findSessionsForCommit :: "world \<Rightarrow> string \<Rightarrow> world \<times> SessionState list" where
  "findSessionsForCommit w baseCommitSHA =
     (case listAllSessions w of
        (w', allSessions) \<Rightarrow> (w', filter (\<lambda>s. baseCommit s = baseCommitSHA) allSessions))"

text \<open>
  \<^verbatim>\<open>mergeFilesTouched\<close>: the union as a set, then \<^verbatim>\<open>Array.prototype.sort\<close>, which
  orders strings by their code units.
\<close>

definition mergeFilesTouched :: "string list \<Rightarrow> string list list \<Rightarrow> string list" where
  "mergeFilesTouched existing fileLists = sort (remdups (existing @ concat fileLists))"

text \<open>\<^verbatim>\<open>checkpointStore.generateID()\<close> draws the next six random bytes.\<close>

definition drawID :: "world \<Rightarrow> world \<times> string" where
  "drawID w = (w\<lparr>drawn := Suc (drawn w)\<rparr>, generateID (entropy w (drawn w)))"

subsection \<open>prepareCommitMsg\<close>

text \<open>
  The loop over the sessions of \<^verbatim>\<open>prepareCommitMsg\<close>: the first session with steps, touched
  files, an existing shadow branch and staged overlap.
\<close>

fun findOverlapping :: "env \<Rightarrow> repo \<Rightarrow> string list \<Rightarrow> SessionState list \<Rightarrow> SessionState option" where
  "findOverlapping e r stagedFiles [] = None"
| "findOverlapping e r stagedFiles (state # rest) =
     (if stepCount state = 0 \<or> filesTouched state = [] then findOverlapping e r stagedFiles rest
      else (let shadowBranch = getShadowBranchName (baseCommit state) (worktreeID state);
                ex = refExists r (''refs/heads/'' @ shadowBranch)
            in if \<not> ex then findOverlapping e r stagedFiles rest
               else if stagedFilesOverlapWithContent e r shadowBranch stagedFiles (filesTouched state)
               then Some state
               else findOverlapping e r stagedFiles rest))"

text \<open>
  Reading a missing message file throws (\<^term>\<open>None\<close>). The third argument of the hook, the
  commit id, is not used by the source.
\<close>

definition prepareCommitMsg :: "env \<Rightarrow> world \<Rightarrow> string \<Rightarrow> string \<Rightarrow> world option" where
  "prepareCommitMsg e w commitMsgFile source =
     (case files w commitMsgFile of
        None \<Rightarrow> None
      | Some msg0 \<Rightarrow>
          if source = ''merge'' then Some w
          else if source = ''commit'' \<and> parseCheckpoint msg0 \<noteq> None then Some w
          else (let hd0 = getHead (proj w) in
                case findSessionsForCommit w hd0 of
                  (w1, found) \<Rightarrow>
                    if found = [] then Some w1
                    else (case map_option trimEnd (stagedNames (proj w1)) of
                            None \<Rightarrow> Some w1
                          | Some stagedOutput \<Rightarrow>
                              if stagedOutput = [] then Some w1
                              else (let stagedFiles =
                                          filter (\<lambda>f. f \<noteq> []) (splitNL (trim stagedOutput))
                                    in if stagedFiles = [] then Some w1
                                       else (case findOverlapping e (proj w1) stagedFiles found of
                                               None \<Rightarrow> Some w1
                                             | Some overlappingSession \<Rightarrow>
                                                 (case (case lastCheckpointID overlappingSession of
                                                          Some l \<Rightarrow>
                                                            if l \<noteq> [] \<and> validateCheckpointID l
                                                            then (w1, l) else drawID w1
                                                        | None \<Rightarrow> drawID w1) of
                                                    (w2, cpID) \<Rightarrow>
                                                      (let trailer = CheckpointTrailerKey @ '': '' @ cpID;
                                                           injected = injectCheckpointTrailer msg0 trailer
                                                       in Some (w2\<lparr>files := (files w2)(commitMsgFile \<mapsto> injected)\<rparr>))))))))"

subsection \<open>Condensation\<close>

text \<open>\<^verbatim>\<open>s.split(sep)\<close> for a non-empty separator.\<close>

function splitOn :: "string \<Rightarrow> string \<Rightarrow> string list" where
  "splitOn sep [] = [[]]"
| "splitOn sep (c # cs) =
     (if sep \<noteq> [] \<and> startsWith (c # cs) sep
      then [] # splitOn sep (drop (length sep - 1) cs)
      else (case splitOn sep cs of
              l # ls \<Rightarrow> (c # l) # ls
            | [] \<Rightarrow> [[c]]))"
  by pat_completeness auto
termination
  by (relation "measure (\<lambda>(sep, s). length s)") auto

text \<open>A number in decimal, as a template literal prints it.\<close>

function showNat :: "nat \<Rightarrow> string" where
  "showNat n =
     (if n < 10 then [''0123456789'' ! n]
      else showNat (n div 10) @ [''0123456789'' ! (n mod 10)])"
  by pat_completeness auto
termination
  by (relation "measure id") auto

fun joinWith :: "string \<Rightarrow> string list \<Rightarrow> string" where
  "joinWith sep [] = []"
| "joinWith sep [l] = l"
| "joinWith sep (l # ls) = l @ sep @ joinWith sep ls"

text \<open>What \<^verbatim>\<open>gitSafe(['show', ...])\<close> returns for a blob: its text, trailing white space cut.\<close>

definition shownText :: "env \<Rightarrow> content option \<Rightarrow> string option" where
  "shownText e c =
     (case c of
        None \<Rightarrow> None
      | Some (Text t) \<Rightarrow> Some (trimEnd t)
      | Some (Json j) \<Rightarrow> Some (trimEnd (jsonText e j)))"

definition condenseSession ::
  "env \<Rightarrow> world \<Rightarrow> SessionState \<Rightarrow> string \<Rightarrow> string set \<Rightarrow> (world \<times> CondensationResult) option" where
  "condenseSession e w state cpID committedFiles =
     (let who = getGitAuthor (proj w);
          br = getCurrentBranch (proj w);
          touched = filter (\<lambda>f. f \<in> committedFiles) (SessionState.filesTouched state);
          shadowBranch = getShadowBranchName (baseCommit state) (worktreeID state);
          shadowExists = refExists (proj w) (''refs/heads/'' @ shadowBranch);
          dir = ''.entire/metadata/'' @ sessionID state;
          fullContent =
            (if shadowExists
             then shownText e (showFile (proj w) (FullRef (''refs/heads/'' @ shadowBranch))
                                 (dir @ ''/full.jsonl''))
             else None);
          transcript0 = (case fullContent of Some t \<Rightarrow> t | None \<Rightarrow> []);
          promptContent =
            (if shadowExists
             then shownText e (showFile (proj w) (FullRef (''refs/heads/'' @ shadowBranch))
                                 (dir @ ''/prompt.txt''))
             else None);
          ps = (case promptContent of
                  Some t \<Rightarrow>
                    if t \<noteq> []
                    then filter (\<lambda>p. trim p \<noteq> [])
                           (splitOn ([CHR 0x0A] @ ''---'' @ [CHR 0x0A]) t)
                    else []
                | None \<Rightarrow> []);
          transcript1 =
            (if transcript0 = []
             then (case transcriptPath state of
                     Some tp \<Rightarrow>
                       if tp \<noteq> [] then (case files w tp of Some t \<Rightarrow> t | None \<Rightarrow> transcript0)
                       else transcript0
                   | None \<Rightarrow> transcript0)
             else transcript0);
          ctx = (if ps \<noteq> []
                 then joinWith ([CHR 0x0A, CHR 0x0A] @ ''---'' @ [CHR 0x0A, CHR 0x0A])
                        (map (\<lambda>(i, p). ''## Prompt '' @ showNat (i + 1) @ [CHR 0x0A, CHR 0x0A] @ p)
                           (zip [0..<length ps] ps))
                 else []);
          opts = \<lparr> WriteCommittedOptions.checkpointID = cpID,
                   sessionID = sessionID state,
                   strategy = STRATEGY_NAME_MANUAL_COMMIT,
                   branch = br,
                   transcript = transcript1,
                   prompts = ps,
                   contextMd = ctx,
                   filesTouched = touched,
                   checkpointsCount = stepCount state,
                   authorName = name who,
                   authorEmail = email who,
                   agent = agentType state,
                   turnID = turnID state,
                   isTask = None,
                   toolUseID = None,
                   transcriptIdentifierAtStart = transcriptIdentifierAtStart state,
                   checkpointTranscriptStart = checkpointTranscriptStart state,
                   tokenUsage = SessionState.tokenUsage state,
                   summary = None,
                   initialAttribution = None \<rparr>
      in case writeCommitted (cpBranch e) (nowISO w) (committedRepo w) opts of
           None \<Rightarrow> None
         | Some r' \<Rightarrow>
             Some (setCommittedRepo w r',
                   \<lparr> CondensationResult.checkpointID = cpID,
                     sessionsCondensed = 1,
                     checkpointsCount = stepCount state,
                     filesTouched = touched,
                     tokenUsage = SessionState.tokenUsage state \<rparr>))"

subsection \<open>postCommit\<close>

text \<open>
  \<^verbatim>\<open>try { await condenseSession(...) } catch { }\<close>: a failed condensation leaves the
  world as it was.
\<close>

definition tryCondense :: "env \<Rightarrow> world \<Rightarrow> SessionState \<Rightarrow> string \<Rightarrow> string set \<Rightarrow> world" where
  "tryCondense e w state cpID committedFiles =
     (case condenseSession e w state cpID committedFiles of
        None \<Rightarrow> w
      | Some (w', _) \<Rightarrow> w')"

text \<open>The body of the loop over the sessions of \<^verbatim>\<open>postCommit\<close>.\<close>

definition postCommitSession ::
  "env \<Rightarrow> string \<Rightarrow> string \<Rightarrow> string \<Rightarrow> string set \<Rightarrow> world \<Rightarrow> SessionState \<Rightarrow> world" where
  "postCommitSession e cpID headHash parentHash committedFiles w state =
     (if stepCount state = 0 \<or> SessionState.filesTouched state = [] then w
      else (let shadowBranch = getShadowBranchName (baseCommit state) (worktreeID state);
                ex = refExists (proj w) (''refs/heads/'' @ shadowBranch)
            in if \<not> ex then w
               else if \<not> filesOverlapWithContent e (proj w) shadowBranch headHash parentHash
                           (SessionState.filesTouched state)
               then w
               else (let w1 = tryCondense e w state cpID committedFiles;
                         remaining = filesWithRemainingAgentChanges e (proj w1) shadowBranch headHash
                                       (SessionState.filesTouched state) committedFiles
                     in if remaining = []
                        then (let w2 = w1\<lparr>proj := deleteShadowBranch (proj w1) shadowBranch\<rparr>
                              in saveSession w2
                                   (state\<lparr>baseCommit := headHash,
                                          stepCount := 0,
                                          SessionState.filesTouched := [],
                                          promptAttributions := Some [],
                                          lastCheckpointID := Some cpID\<rparr>))
                        else saveSession w1
                               (state\<lparr>baseCommit := headHash,
                                      SessionState.filesTouched := remaining,
                                      stepCount := 0,
                                      promptAttributions := Some [],
                                      lastCheckpointID := Some cpID\<rparr>))))"

definition postCommitLoop ::
  "env \<Rightarrow> string \<Rightarrow> string \<Rightarrow> string \<Rightarrow> string set \<Rightarrow> world \<Rightarrow> SessionState list \<Rightarrow> world" where
  "postCommitLoop e cpID headHash parentHash committedFiles w found =
     foldl (postCommitSession e cpID headHash parentHash committedFiles) w found"

text \<open>
  \<^verbatim>\<open>git log -1 --format=%B\<close> of a commit that is not stored throws (\<^term>\<open>None\<close>);
  \<^verbatim>\<open>git rev-parse HEAD^\<close> of a root commit fails and is swallowed by \<^verbatim>\<open>gitSafe\<close>.
\<close>

definition postCommit :: "env \<Rightarrow> world \<Rightarrow> world option" where
  "postCommit e w =
     (let headHash = getHead (proj w) in
      case map_of (commits (proj w)) headHash of
        None \<Rightarrow> None
      | Some hc \<Rightarrow>
          (case parseCheckpoint (trimEnd (message hc)) of
             None \<Rightarrow> Some w
           | Some cpID \<Rightarrow>
               (case parents hc of
                  [] \<Rightarrow> Some w
                | parentHash # _ \<Rightarrow>
                    if parentHash = [] then Some w
                    else (case findSessionsForCommit w (trim parentHash) of
                            (w1, found) \<Rightarrow>
                              if found = [] then Some w1
                              else (case diffNameOnly (proj w1) (headHash @ ''^'') headHash of
                                      (added, modified, deleted) \<Rightarrow>
                                        Some (postCommitLoop e cpID headHash (trim parentHash)
                                                (set (added @ modified @ deleted)) w1 found))))))"

subsection \<open>Shadow branch migration and saveStep\<close>

text \<open>
  \<^verbatim>\<open>migrateShadowBranchIfNeeded\<close>: the state as mutated, and whether it migrated. The
  rename is wrapped in \<^verbatim>\<open>try\<close>: a failure leaves the repository as the failing command
  found it.
\<close>

definition migrateShadowBranchIfNeeded :: "world \<Rightarrow> SessionState \<Rightarrow> world \<times> SessionState \<times> bool" where
  "migrateShadowBranchIfNeeded w state =
     (if baseCommit state = [] then (w, state, False)
      else (let currentHead = getHead (proj w) in
            if baseCommit state = currentHead then (w, state, False)
            else (let oldShadowBranch = getShadowBranchName (baseCommit state) (worktreeID state);
                      newShadowBranch = getShadowBranchName currentHead (worktreeID state)
                  in if oldShadowBranch = newShadowBranch
                     then (w, state\<lparr>baseCommit := currentHead\<rparr>, True)
                     else if \<not> refExists (proj w) (''refs/heads/'' @ oldShadowBranch)
                     then (w, state\<lparr>baseCommit := currentHead\<rparr>, True)
                     else (let r1 =
                                 (case revParse (proj w) (FullRef (''refs/heads/'' @ oldShadowBranch)) of
                                    None \<Rightarrow> proj w
                                  | Some oldTip \<Rightarrow>
                                      (let r' = updateRef (proj w) (''refs/heads/'' @ newShadowBranch)
                                                  (trim oldTip)
                                       in case deleteBranch r' oldShadowBranch False of
                                            None \<Rightarrow> r'
                                          | Some r'' \<Rightarrow> r''))
                           in (w\<lparr>proj := r1\<rparr>, state\<lparr>baseCommit := currentHead\<rparr>, True)))))"

definition migrateAndPersist :: "world \<Rightarrow> SessionState \<Rightarrow> world \<times> SessionState" where
  "migrateAndPersist w state =
     (case migrateShadowBranchIfNeeded w state of
        (w1, state1, migrated) \<Rightarrow>
          if migrated then (saveSession w1 state1, state1) else (w1, state1))"

text \<open>\<^verbatim>\<open>path.basename\<close>: the last component, trailing slashes ignored.\<close>

definition basename :: "string \<Rightarrow> string" where
  "basename p = rev (takeWhile (\<lambda>c. c \<noteq> CHR ''/'') (dropWhile (\<lambda>c. c = CHR ''/'') (rev p)))"

text \<open>The state a first step creates.\<close>

definition initialState :: "world \<Rightarrow> string \<Rightarrow> string \<Rightarrow> SessionState" where
  "initialState w sid agent0 =
     \<lparr> sessionID = sid,
       cliVersion = None,
       baseCommit = getHead (proj w),
       attributionBaseCommit = Some (getHead (proj w)),
       worktreePath = Some (worktreeRoot (proj w)),
       worktreeID = None,
       startedAt = nowISO w,
       endedAt = None,
       phase = Active,
       turnID = None,
       turnCheckpointIDs = [],
       lastInteractionTime = None,
       stepCount = 0,
       checkpointTranscriptStart = 0,
       untrackedFilesAtStart = untrackedFiles (proj w),
       filesTouched = [],
       lastCheckpointID = None,
       agentType = agent0,
       tokenUsage = None,
       transcriptIdentifierAtStart = None,
       transcriptPath = None,
       firstPrompt = None,
       promptAttributions = None,
       pendingPromptAttribution = None \<rparr>"

text \<open>
  The head of \<^verbatim>\<open>saveStep\<close>, up to the call of \<^verbatim>\<open>writeTemporary\<close>: load the session
  or create it, then migrate.
\<close>

definition stepSession :: "world \<Rightarrow> StepContext \<Rightarrow> world \<times> SessionState" where
  "stepSession w step =
     (let sid = basename (StepContext.metadataDir step) in
      case loadSession w sid of
        (w0, loaded) \<Rightarrow>
          (case (case loaded of
                   Some s \<Rightarrow>
                     if baseCommit s \<noteq> [] then (w0, s)
                     else (let s0 = initialState w0 sid (StepContext.agentType step)
                           in (saveSession w0 s0, s0))
                 | None \<Rightarrow>
                     (let s0 = initialState w0 sid (StepContext.agentType step)
                      in (saveSession w0 s0, s0))) of
             (w1, state) \<Rightarrow> migrateAndPersist w1 state))"

text \<open>
  \<^verbatim>\<open>saveStep\<close>. The step count is a whole double, so \<^verbatim>\<open>state.stepCount++\<close> rounds.
\<close>

datatype outcome = Returned | Threw

definition saveStep :: "world \<Rightarrow> StepContext \<Rightarrow> world \<times> outcome" where
  "saveStep w step =
     (case stepSession w step of
        (w2, state) \<Rightarrow>
          (case writeTemporary (nowISO w2) (proj w2)
                  \<lparr> WriteTemporaryOptions.sessionID = basename (StepContext.metadataDir step),
                    baseCommit = baseCommit state,
                    worktreeID = worktreeID state,
                    modifiedFiles = StepContext.modifiedFiles step,
                    newFiles = StepContext.newFiles step,
                    deletedFiles = StepContext.deletedFiles step,
                    metadataDir = StepContext.metadataDir step,
                    metadataDirAbs = StepContext.metadataDirAbs step,
                    commitMessage = StepContext.commitMessage step,
                    authorName = StepContext.authorName step,
                    authorEmail = StepContext.authorEmail step,
                    isFirstCheckpoint = (stepCount state = 0) \<rparr> of
             None \<Rightarrow> (w2, Threw)
           | Some (r3, result) \<Rightarrow>
               (let w3 = w2\<lparr>proj := r3\<rparr> in
                if skipped result then (w3, Returned)
                else (let st3 = state\<lparr>stepCount := roundDouble (stepCount state + 1),
                                       SessionState.filesTouched :=
                                         mergeFilesTouched (SessionState.filesTouched state)
                                           [StepContext.modifiedFiles step, StepContext.newFiles step,
                                            StepContext.deletedFiles step]\<rparr>;
                          st4 = (if stepCount st3 = 1 \<and>
                                    (case stepTranscriptIdentifier step of
                                       Some t \<Rightarrow> t \<noteq> [] | None \<Rightarrow> False)
                                 then st3\<lparr>transcriptIdentifierAtStart := stepTranscriptIdentifier step\<rparr>
                                 else st3);
                          st5 = (case StepContext.tokenUsage step of
                                   Some tu \<Rightarrow>
                                     st4\<lparr>SessionState.tokenUsage :=
                                           Some (case SessionState.tokenUsage st4 of
                                                   Some a \<Rightarrow> addTokenUsage a tu
                                                 | None \<Rightarrow> tu)\<rparr>
                                 | None \<Rightarrow> st4)
                      in (saveSession w3 st5, Returned)))))"

section \<open>A small repository for the examples\<close>

text \<open>
  The situation after a user commit: \<open>aaaaaaa1\<close> is the old commit, \<open>bbbbbbb1\<close> is
  the new \<^verbatim>\<open>HEAD\<close> with a checkpoint trailer in its message, and \<open>ccccccc1\<close> is a
  temporary checkpoint whose tree equals the tree of \<^verbatim>\<open>HEAD\<close>. Shadow branches exist
  for both commits.
\<close>

definition exTree0 :: gitobj where
  "exTree0 = Tree [(''100644'', ''blob'', Blob (Text ''one''), ''a.txt'')]"

definition exTree1 :: gitobj where
  "exTree1 = Tree [(''100644'', ''blob'', Blob (Text ''two''), ''a.txt'')]"

definition exAlice :: GitAuthor where
  "exAlice = \<lparr> name = ''Alice'', email = ''alice@example.com'' \<rparr>"

definition exAgent :: GitAuthor where
  "exAgent = \<lparr> name = ''Agent'', email = ''agent@example.com'' \<rparr>"

definition exCommits :: "(string \<times> commit) list" where
  "exCommits =
     [(''aaaaaaa1'', \<lparr> tree = exTree0, parents = [], message = ''init'',
                       author = exAlice, committer = exAlice \<rparr>),
      (''bbbbbbb1'', \<lparr> tree = exTree1, parents = [''aaaaaaa1''],
                       message = ''fix: a'' @ [CHR 0x0A, CHR 0x0A] @
                                 ''Runlog-Checkpoint: abc123def456'' @ [CHR 0x0A],
                       author = exAlice, committer = exAlice \<rparr>),
      (''ccccccc1'', \<lparr> tree = exTree1, parents = [''aaaaaaa1''], message = ''step'',
                       author = exAgent, committer = exAgent \<rparr>)]"

definition exRepo :: repo where
  "exRepo =
     \<lparr> refs = [(''refs/heads/main'', ''bbbbbbb1''),
               (''refs/heads/entire/aaaaaaa'', ''ccccccc1''),
               (''refs/heads/entire/bbbbbbb'', ''ccccccc1'')],
       commits = exCommits,
       HEAD = ''bbbbbbb1'',
       currentBranch = Some ''main'',
       userName = Some ''Alice'',
       userEmail = Some ''alice@example.com'',
       hashCommit = (\<lambda>c. ''eeeeeee1''),
       stagedNames = Some (''a.txt'' @ [CHR 0x0A]),
       diffNameStatus = (\<lambda>a b. [(''M'', ''a.txt'')]),
       untrackedFiles = [],
       worktreeRoot = ''/repo'' \<rparr>"

definition exSession :: "string \<Rightarrow> string \<Rightarrow> SessionState" where
  "exSession sid base =
     \<lparr> sessionID = sid,
       cliVersion = None,
       baseCommit = base,
       attributionBaseCommit = Some base,
       worktreePath = Some ''/repo'',
       worktreeID = None,
       startedAt = ''2001-09-09T00:00:00.000Z'',
       endedAt = None,
       phase = Active,
       turnID = None,
       turnCheckpointIDs = [],
       lastInteractionTime = None,
       stepCount = 1,
       checkpointTranscriptStart = 0,
       untrackedFilesAtStart = [],
       filesTouched = [''a.txt''],
       lastCheckpointID = Some ''abc123def456'',
       agentType = ''Agent'',
       tokenUsage = None,
       transcriptIdentifierAtStart = None,
       transcriptPath = None,
       firstPrompt = None,
       promptAttributions = None,
       pendingPromptAttribution = None \<rparr>"

definition exWorld :: "sessionDir \<Rightarrow> world" where
  "exWorld dir =
     \<lparr> proj = exRepo,
       sessionRepo = None,
       sessions = dir,
       files = [''MSG'' \<mapsto> ''fix: a''],
       nowMs = 1000000000000,
       nowISO = ''2001-09-09T01:46:40.000Z'',
       entropy = (\<lambda>n. 0),
       drawn = 0 \<rparr>"

text \<open>
  An overlap analyzer for the examples: every session overlaps, and what remains is what
  the commit did not touch.
\<close>

definition exEnv :: env where
  "exEnv =
     \<lparr> checkpointsBranch = None,
       filesOverlapWithContent = (\<lambda>r b h p fs. True),
       stagedFilesOverlapWithContent = (\<lambda>r b st fs. True),
       filesWithRemainingAgentChanges = (\<lambda>r b h fs cf. filter (\<lambda>f. f \<notin> cf) fs),
       jsonText = (\<lambda>j. []) \<rparr>"

text \<open>
  A step of session \<open>s1\<close>. Its metadata directory is at the top of the worktree: the
  name goes into a tree entry as it is, and \<^verbatim>\<open>git mktree\<close> refuses a name with a slash.
\<close>

definition exStep :: StepContext where
  "exStep =
     \<lparr> metadataDir = ''s1'',
       metadataDirAbs = ''/repo/s1'',
       modifiedFiles = [''a.txt''],
       newFiles = [],
       deletedFiles = [],
       commitMessage = ''step'',
       authorName = ''Agent'',
       authorEmail = ''agent@example.com'',
       agentType = ''Agent'',
       stepTranscriptIdentifier = None,
       tokenUsage = None \<rparr>"

definition exTemporaryOptions :: "string \<Rightarrow> WriteTemporaryOptions" where
  "exTemporaryOptions base =
     \<lparr> WriteTemporaryOptions.sessionID = ''s1'',
       baseCommit = base,
       worktreeID = None,
       modifiedFiles = [''a.txt''],
       newFiles = [],
       deletedFiles = [],
       metadataDir = ''s1'',
       metadataDirAbs = ''/repo/s1'',
       commitMessage = ''step'',
       authorName = ''Agent'',
       authorEmail = ''agent@example.com'',
       isFirstCheckpoint = False \<rparr>"

text \<open>A separate session repository, configured for another user.\<close>

definition exSessionRepo :: repo where
  "exSessionRepo =
     \<lparr> refs = [],
       commits = [],
       HEAD = [],
       currentBranch = None,
       userName = Some ''Bob'',
       userEmail = Some ''bob@example.com'',
       hashCommit = (\<lambda>c. ''fffffff1''),
       stagedNames = None,
       diffNameStatus = (\<lambda>a b. []),
       untrackedFiles = [],
       worktreeRoot = ''/sessions'' \<rparr>"

definition exCommittedOptions :: WriteCommittedOptions where
  "exCommittedOptions =
     \<lparr> WriteCommittedOptions.checkpointID = ''abc123def456'',
       sessionID = ''s1'',
       strategy = ''manual-commit'',
       branch = Some ''main'',
       transcript = [],
       prompts = [],
       contextMd = [],
       filesTouched = [''a.txt''],
       checkpointsCount = 1,
       authorName = ''Agent'',
       authorEmail = ''agent@example.com'',
       agent = ''Agent'',
       turnID = None,
       isTask = None,
       toolUseID = None,
       transcriptIdentifierAtStart = None,
       checkpointTranscriptStart = 0,
       tokenUsage = None,
       summary = None,
       initialAttribution = None \<rparr>"

section \<open>Properties\<close>

subsection \<open>Strings, digests and names\<close>

lemma splitNL_nonempty: "splitNL s \<noteq> []"
  by (induction s) (auto split: list.splits)

lemma hasUserContentLines_iff:
  "hasUserContentLines ls \<longleftrightarrow> (\<exists>l \<in> set ls. \<not> isBlankLine l \<and> \<not> isCommentLine l \<and> \<not> isTrailerLine l)"
  by (induction ls) (auto simp: isBlankLine_def isCommentLine_def isTrailerLine_def Let_def)

text \<open>
  Claim C6. The message-validate hook rewrites the commit-message file, with every
  checkpoint-trailer line removed, exactly when the file can be read, carries a checkpoint
  trailer, and has no line that is non-blank, not a \<^verbatim>\<open>#\<close>-comment and not a
  checkpoint-trailer line; in every other case the file system is left as it was.
\<close>

theorem commitMsg_spec:
  "commitMsg fs f =
     (case fs f of
        None \<Rightarrow> fs
      | Some content \<Rightarrow>
          if parseCheckpoint content \<noteq> None \<and>
             (\<forall>line \<in> set (splitNL content). isBlankLine line \<or> isCommentLine line \<or> isTrailerLine line)
          then fs(f \<mapsto> joinNL (filter (\<lambda>line. \<not> isTrailerLine line) (splitNL content)))
          else fs)"
  by (auto simp: commitMsg_def hasUserContent_def hasUserContentLines_iff stripCheckpointTrailer_def
      isTrailerLine_def split: option.splits)

lemma hexDigit_isHex: "isHex (hexDigit n)"
proof -
  have "n mod 16 < length ''0123456789abcdef''" by simp
  then have "''0123456789abcdef'' ! (n mod 16) \<in> set ''0123456789abcdef''"
    by (rule nth_mem)
  then show ?thesis unfolding isHex_def hexDigit_def .
qed

lemma hex32_length: "length (hex32 w) = 8"
  by (simp add: hex32_def)

lemma hex32_isHex: "list_all isHex (hex32 w)"
  by (simp add: hex32_def list_all_iff hexDigit_isHex)

lemma hstate_cases:
  obtains a b c d e f g h where "hs = (a, b, c, d, e, f, g, h)"
  by (metis surj_pair)

lemma hexdigest_length: "length (hexdigest hs) = 64"
  by (cases hs rule: hstate_cases) (simp add: hex32_length)

lemma hexdigest_isHex: "list_all isHex (hexdigest hs)"
  by (cases hs rule: hstate_cases) (simp add: hex32_isHex)

lemma hashWorktreeID_length: "length (hashWorktreeID w) = 6"
  by (simp add: hashWorktreeID_def WORKTREE_ID_HASH_LENGTH_def sha256hex_def hexdigest_length)

lemma hashWorktreeID_isHex: "list_all isHex (hashWorktreeID w)"
  using hexdigest_isHex[of "sha256 (utf8 w)"]
  by (simp add: hashWorktreeID_def sha256hex_def list_all_iff) (meson in_set_takeD)

lemma getShadowBranchName_eq: "getShadowBranchName x w = shadowBranchNameForCommit x w"
  by (simp add: getShadowBranchName_def shadowBranchNameForCommit_def hashWorktreeID_def
      WORKTREE_ID_HASH_LENGTH_def Let_def split: option.splits)


lemma takeWhile_run:
  assumes "list_all P xs" and "ys = [] \<or> \<not> P (hd ys)"
  shows "takeWhile P (xs @ ys) = xs"
proof -
  have "takeWhile P ys = []" using assms(2) by (cases ys) auto
  with assms(1) show ?thesis by (simp add: list_all_iff takeWhile_append2)
qed

lemma dropWhile_run:
  assumes "list_all P xs" and "ys = [] \<or> \<not> P (hd ys)"
  shows "dropWhile P (xs @ ys) = ys"
proof -
  have "dropWhile P ys = ys" using assms(2) by (cases ys) auto
  with assms(1) show ?thesis by (simp add: list_all_iff dropWhile_append2)
qed

lemma hyphen_not_hex: "\<not> isHex CHR ''-''"
  by (simp add: isHex_def)

lemma matchesShadowPattern_name:
  assumes len: "7 \<le> length x" and hex: "list_all isHex (take 7 x)"
  shows "matchesShadowPattern (shadowBranchNameForCommit x w)"
proof -
  have l7: "length (take 7 x) = 7" using len by simp
  have plain: "matchesShadowPattern (SHADOW_BRANCH_PREFIX @ take 7 x)"
    using hex l7
    by (simp add: matchesShadowPattern_def startsWith_def SHADOW_BRANCH_HASH_LENGTH_def Let_def
        list_all_iff takeWhile_eq_all_conv[THEN iffD2] dropWhile_eq_Nil_conv[THEN iffD2])
  have suff: "matchesShadowPattern (SHADOW_BRANCH_PREFIX @ take 7 x @ ''-'' @ hashWorktreeID v)" for v
    using hex l7 takeWhile_run[of isHex "take 7 x" "''-'' @ hashWorktreeID v"]
      dropWhile_run[of isHex "take 7 x" "''-'' @ hashWorktreeID v"]
      hashWorktreeID_length[of v] hashWorktreeID_isHex[of v] hyphen_not_hex
    by (simp add: matchesShadowPattern_def startsWith_def SHADOW_BRANCH_HASH_LENGTH_def
        WORKTREE_ID_HASH_LENGTH_def Let_def)
  show ?thesis
    using plain suff
    by (simp add: shadowBranchNameForCommit_def SHADOW_BRANCH_HASH_LENGTH_def Let_def
        split: option.splits)
qed

lemma name_not_checkpoints:
  assumes len: "7 \<le> length x" and hex: "list_all isHex (take 7 x)"
  shows "shadowBranchNameForCommit x w \<noteq> CHECKPOINTS_BRANCH"
proof
  assume eq: "shadowBranchNameForCommit x w = CHECKPOINTS_BRANCH"
  have "take 7 (drop 7 (shadowBranchNameForCommit x w)) = take 7 x"
    using len
    by (simp add: shadowBranchNameForCommit_def SHADOW_BRANCH_HASH_LENGTH_def
        SHADOW_BRANCH_PREFIX_def Let_def split: option.splits)
  with eq have "take 7 x = ''checkpo''"
    by (simp add: CHECKPOINTS_BRANCH_def)
  with hex show False
    by (simp add: isHex_def)
qed

text \<open>
  Claim C8, as amended. The classifier rejects the metadata ref name; it accepts the shadow
  ref name generated for a base commit and an optional worktree id whenever the base commit
  has at least seven characters and its first seven are lowercase hexadecimal digits; and
  the store's \<^const>\<open>getShadowBranchName\<close> produces the same name as
  \<^const>\<open>shadowBranchNameForCommit\<close>.
\<close>

theorem isShadowBranch_classifier:
  "(7 \<le> length x \<and> list_all isHex (take 7 x) \<longrightarrow> isShadowBranch (shadowBranchNameForCommit x w))
   \<and> isShadowBranch CHECKPOINTS_BRANCH = False
   \<and> getShadowBranchName x w = shadowBranchNameForCommit x w"
  using matchesShadowPattern_name[of x w] name_not_checkpoints[of x w]
  by (simp add: isShadowBranch_def getShadowBranchName_eq)

theorem isShadowBranch_classifier_witness:
  "isShadowBranch (shadowBranchNameForCommit ''0123456789abcdef0123456789abcdef01234567'' (Some ''/home/u/wt''))
   \<and> isShadowBranch (shadowBranchNameForCommit ''0123456789abcdef0123456789abcdef01234567'' None)"
  using isShadowBranch_classifier[of "''0123456789abcdef0123456789abcdef01234567''" "Some ''/home/u/wt''"]
    isShadowBranch_classifier[of "''0123456789abcdef0123456789abcdef01234567''" None]
  by (simp add: isHex_def)

theorem commitMsg_spec_witness:
  "commitMsg [''MSG'' \<mapsto> ''# Enter message\<newline>Runlog-Checkpoint: abc123def456\<newline>''] ''MSG''
     = [''MSG'' \<mapsto> ''# Enter message\<newline>'']"
proof -
  let ?c = "''# Enter message\<newline>Runlog-Checkpoint: abc123def456\<newline>''"
  have p: "parseCheckpoint ?c = Some ''abc123def456''"
    by code_simp
  have q: "\<forall>line \<in> set (splitNL ?c). isBlankLine line \<or> isCommentLine line \<or> isTrailerLine line"
    by code_simp
  have r: "joinNL (filter (\<lambda>line. \<not> isTrailerLine line) (splitNL ?c)) = ''# Enter message\<newline>''"
    by code_simp
  show ?thesis
    using commitMsg_spec[of "[''MSG'' \<mapsto> ?c]" "''MSG''"] p q r
    by simp
qed

subsection \<open>Temporary and committed checkpoints\<close>

lemma writeTemporary_skip:
  assumes ex: "refExists r (''refs/heads/'' @ getShadowBranchName (WriteTemporaryOptions.baseCommit opts) (WriteTemporaryOptions.worktreeID opts))"
    and t1: "getTreeHash r (Branch (getShadowBranchName (WriteTemporaryOptions.baseCommit opts) (WriteTemporaryOptions.worktreeID opts))) = Some t"
    and t2: "getTreeHash r Head = Some t"
  shows "\<exists>tip. revParse r (Branch (getShadowBranchName (WriteTemporaryOptions.baseCommit opts) (WriteTemporaryOptions.worktreeID opts))) = Some tip
        \<and> writeTemporary ts r opts = Some (r, \<lparr> commitHash = tip, skipped = True \<rparr>)"
proof -
  let ?b = "getShadowBranchName (WriteTemporaryOptions.baseCommit opts) (WriteTemporaryOptions.worktreeID opts)"
  from t1 obtain tip where tip: "revParse r (Branch ?b) = Some tip"
    by (auto simp: getTreeHash_def lookupCommit_def split: option.splits)
  show ?thesis
    using ex t1 t2 tip by (simp add: writeTemporary_def Let_def)
qed

lemma migrate_head:
  "migrateShadowBranchIfNeeded w state = (w1, state1, m) \<Longrightarrow>
     HEAD (proj w1) = HEAD (proj w) \<and> sessions w1 = sessions w \<and>
     (m \<longrightarrow> state1 = state\<lparr>baseCommit := HEAD (proj w)\<rparr>) \<and>
     (\<not> m \<longrightarrow> state1 = state \<and> w1 = w \<and> (baseCommit state \<noteq> [] \<longrightarrow> baseCommit state = HEAD (proj w)))"
  by (auto simp: migrateShadowBranchIfNeeded_def Let_def getHead_def updateRef_def deleteBranch_def
      split: if_splits option.splits)

lemma migrateAndPersist_props:
  assumes "migrateAndPersist w state = (w1, state1)"
  shows "HEAD (proj w1) = HEAD (proj w)"
    and "baseCommit state \<noteq> [] \<or> baseCommit state = HEAD (proj w) \<Longrightarrow> baseCommit state1 = HEAD (proj w)"
    and "state1 = state\<lparr>baseCommit := baseCommit state1\<rparr>"
    and "map_of (sessions w) (sessionID state) = Some state \<Longrightarrow>
         map_of (sessions w1) (sessionID state) = Some state1"
  using assms migrate_head[of w state]
  by (auto simp: migrateAndPersist_def saveSession_def storeSave_def update_conv'
      split: prod.splits if_splits)


lemma loadSession_frame [simp]:
  "proj (fst (loadSession w sid)) = proj w"
  "nowISO (fst (loadSession w sid)) = nowISO w"
  "nowMs (fst (loadSession w sid)) = nowMs w"
  by (auto simp: loadSession_def storeLoad_def split: option.splits)

lemma stepSession_form:
  assumes "stepSession w step = (w2, state)"
  shows "(\<exists>s. map_of (sessions w) (basename (StepContext.metadataDir step)) = Some s \<and>
             \<not> isStale (nowMs w) s \<and> baseCommit s \<noteq> [] \<and>
             migrateAndPersist w s = (w2, state))
       \<or> (\<exists>w0. proj w0 = proj w \<and>
             migrateAndPersist
               (saveSession w0 (initialState w0 (basename (StepContext.metadataDir step)) (StepContext.agentType step)))
               (initialState w0 (basename (StepContext.metadataDir step)) (StepContext.agentType step)) = (w2, state))"
proof -
  obtain w0 loaded where l: "loadSession w (basename (StepContext.metadataDir step)) = (w0, loaded)"
    by (cases "loadSession w (basename (StepContext.metadataDir step))")
  then have p: "proj w0 = proj w"
    using loadSession_frame(1)[of w "basename (StepContext.metadataDir step)"] by simp
  show ?thesis
  proof (cases loaded)
    case None
    with assms l p show ?thesis
      by (auto simp: stepSession_def Let_def)
  next
    case (Some s)
    show ?thesis
    proof (cases "baseCommit s = []")
      case True
      with assms l p Some show ?thesis
        by (auto simp: stepSession_def Let_def)
    next
      case False
      from l Some have "map_of (sessions w) (basename (StepContext.metadataDir step)) = Some s"
        and "\<not> isStale (nowMs w) s" and "w0 = w"
        by (auto simp: loadSession_def storeLoad_def split: option.splits if_splits)
      with assms l Some False show ?thesis
        by (auto simp: stepSession_def Let_def)
    qed
  qed
qed

lemma stepSession_head:
  assumes "stepSession w step = (w2, state)"
  shows "baseCommit state = HEAD (proj w2) \<and> HEAD (proj w2) = HEAD (proj w)"
  using stepSession_form[OF assms]
proof (elim disjE exE conjE)
  fix s assume "migrateAndPersist w s = (w2, state)" "baseCommit s \<noteq> []"
  then show ?thesis
    using migrateAndPersist_props(1,2)[of w s w2 state] by simp
next
  fix w0 assume p: "proj w0 = proj w"
    and m: "migrateAndPersist
             (saveSession w0 (initialState w0 (basename (StepContext.metadataDir step)) (StepContext.agentType step)))
             (initialState w0 (basename (StepContext.metadataDir step)) (StepContext.agentType step)) = (w2, state)"
  show ?thesis
    using migrateAndPersist_props(1,2)[OF m] p
    by (simp add: initialState_def getHead_def saveSession_def)
qed

lemma stepSession_existing:
  assumes "stepSession w step = (w2, state)"
    and "map_of (sessions w) (basename (StepContext.metadataDir step)) = Some s"
    and "\<not> isStale (nowMs w) s" and "baseCommit s \<noteq> []"
    and "sessionID s = basename (StepContext.metadataDir step)"
  shows "state = s\<lparr>baseCommit := HEAD (proj w)\<rparr> \<and> map_of (sessions w2) (sessionID s) = Some state"
proof -
  have "loadSession w (basename (StepContext.metadataDir step)) = (w, Some s)"
    using assms by (simp add: loadSession_def storeLoad_def)
  with assms have mp: "migrateAndPersist w s = (w2, state)"
    by (simp add: stepSession_def Let_def)
  show ?thesis
    using migrateAndPersist_props(2,3,4)[OF mp] assms by simp
qed


text \<open>
  Claim C3. If the shadow ref for the base commit and worktree id of the options exists and
  the tree of its tip equals the tree of \<^verbatim>\<open>HEAD\<close>, \<open>writeTemporary\<close> returns the tip
  with \<open>skipped\<close> set and leaves the repository as it was: no commit is created and no ref
  moves. A \<open>saveStep\<close> that reaches this call returns with the world as it stood before
  the call; the session record stored for an existing session keeps its step count, its
  touched files and its token usage.
\<close>

theorem saveStep_dedup:
  assumes ex: "refExists r (''refs/heads/'' @ getShadowBranchName (WriteTemporaryOptions.baseCommit opts) (WriteTemporaryOptions.worktreeID opts))"
    and t1: "getTreeHash r (Branch (getShadowBranchName (WriteTemporaryOptions.baseCommit opts) (WriteTemporaryOptions.worktreeID opts))) = Some t"
    and t2: "getTreeHash r Head = Some t"
  shows "(\<exists>tip. revParse r (Branch (getShadowBranchName (WriteTemporaryOptions.baseCommit opts) (WriteTemporaryOptions.worktreeID opts))) = Some tip
            \<and> writeTemporary ts r opts = Some (r, \<lparr> commitHash = tip, skipped = True \<rparr>))
       \<and> (\<forall>w step w2 state.
             stepSession w step = (w2, state) \<and> proj w2 = r \<and>
             baseCommit state = WriteTemporaryOptions.baseCommit opts \<and>
             worktreeID state = WriteTemporaryOptions.worktreeID opts
             \<longrightarrow> saveStep w step = (w2, Returned)
                 \<and> (\<forall>s. map_of (sessions w) (basename (StepContext.metadataDir step)) = Some s \<and>
                         \<not> isStale (nowMs w) s \<and> baseCommit s \<noteq> [] \<and>
                         sessionID s = basename (StepContext.metadataDir step)
                     \<longrightarrow> map_of (sessions w2) (sessionID s) = Some (s\<lparr>baseCommit := HEAD r\<rparr>)
                         \<and> stepCount state = stepCount s
                         \<and> SessionState.filesTouched state = SessionState.filesTouched s
                         \<and> SessionState.tokenUsage state = SessionState.tokenUsage s))"
proof (intro conjI allI impI)
  show "\<exists>tip. revParse r (Branch (getShadowBranchName (WriteTemporaryOptions.baseCommit opts) (WriteTemporaryOptions.worktreeID opts))) = Some tip
            \<and> writeTemporary ts r opts = Some (r, \<lparr> commitHash = tip, skipped = True \<rparr>)"
    using writeTemporary_skip[OF ex t1 t2] .
next
  fix w step w2 state
  assume a: "stepSession w step = (w2, state) \<and> proj w2 = r \<and>
             baseCommit state = WriteTemporaryOptions.baseCommit opts \<and>
             worktreeID state = WriteTemporaryOptions.worktreeID opts"
  let ?o = "\<lparr> WriteTemporaryOptions.sessionID = basename (StepContext.metadataDir step),
                    baseCommit = baseCommit state,
                    worktreeID = worktreeID state,
                    modifiedFiles = StepContext.modifiedFiles step,
                    newFiles = StepContext.newFiles step,
                    deletedFiles = StepContext.deletedFiles step,
                    metadataDir = StepContext.metadataDir step,
                    metadataDirAbs = StepContext.metadataDirAbs step,
                    commitMessage = StepContext.commitMessage step,
                    authorName = StepContext.authorName step,
                    authorEmail = StepContext.authorEmail step,
                    isFirstCheckpoint = (stepCount state = 0) \<rparr>"
  have "\<exists>tip. revParse r (Branch (getShadowBranchName (WriteTemporaryOptions.baseCommit ?o) (WriteTemporaryOptions.worktreeID ?o))) = Some tip
        \<and> writeTemporary (nowISO w2) r ?o = Some (r, \<lparr> commitHash = tip, skipped = True \<rparr>)"
    using ex t1 t2 a by (intro writeTemporary_skip[where t = t]) simp_all
  then show "saveStep w step = (w2, Returned)"
    using a by (auto simp: saveStep_def Let_def)
  fix s
  assume b: "map_of (sessions w) (basename (StepContext.metadataDir step)) = Some s \<and>
             \<not> isStale (nowMs w) s \<and> baseCommit s \<noteq> [] \<and>
             sessionID s = basename (StepContext.metadataDir step)"
  have h: "HEAD r = HEAD (proj w)"
    using stepSession_head[of w step w2 state] a by simp
  have e: "state = s\<lparr>baseCommit := HEAD (proj w)\<rparr> \<and> map_of (sessions w2) (sessionID s) = Some state"
    using stepSession_existing[of w step w2 state s] a b by simp
  from e h show "map_of (sessions w2) (sessionID s) = Some (s\<lparr>baseCommit := HEAD r\<rparr>)" by simp
  from e show "stepCount state = stepCount s" by (cases s) auto
  from e show "SessionState.filesTouched state = SessionState.filesTouched s" by (cases s) auto
  from e show "SessionState.tokenUsage state = SessionState.tokenUsage s" by (cases s) auto
qed


lemma commitTree_stored:
  assumes "commitTree r t p msg who = Some (r1, h)"
  shows "map_of (commits r1) h =
           Some \<lparr> tree = t,
                  parents = (case p of None \<Rightarrow> [] | Some q \<Rightarrow> if q = [] then [] else [q]),
                  message = msg, author = who, committer = who \<rparr>"
    and "refs r1 = refs r" and "HEAD r1 = HEAD r" and "currentBranch r1 = currentBranch r"
  using assms
  by (auto simp: commitTree_def Let_def update_conv' split: if_splits)

lemma createTemporaryCommit_stored:
  assumes "createTemporaryCommit ts r opts b ex p = Some (r', res)"
  shows "\<exists>c. map_of (commits r') (commitHash res) = Some c \<and>
             parents c = (let q = (case p of Some ph \<Rightarrow> ph | None \<Rightarrow> HEAD r) in if q = [] then [] else [q]) \<and>
             author c = \<lparr> name = WriteTemporaryOptions.authorName opts, email = WriteTemporaryOptions.authorEmail opts \<rparr> \<and>
             committer c = \<lparr> name = WriteTemporaryOptions.authorName opts, email = WriteTemporaryOptions.authorEmail opts \<rparr>"
  using assms
  by (auto simp: createTemporaryCommit_def Let_def getHead_def updateRef_def gitBranchCreate_def
      dest!: commitTree_stored(1) split: option.splits if_splits prod.splits)

lemma refExists_exact:
  "\<not> refExists r (''refs/heads/'' @ b) \<Longrightarrow> revParse r (Branch b) = None"
  by (auto simp: refExists_def revParse_def split: option.splits)

lemma writeTemporary_new_commit:
  assumes "writeTemporary ts r opts = Some (r', res)" and "\<not> skipped res"
  shows "\<exists>c. map_of (commits r') (commitHash res) = Some c \<and>
             parents c = (let q = (case revParse r (Branch (getShadowBranchName (WriteTemporaryOptions.baseCommit opts) (WriteTemporaryOptions.worktreeID opts))) of
                                     Some tip \<Rightarrow> tip | None \<Rightarrow> HEAD r)
                          in if q = [] then [] else [q]) \<and>
             author c = \<lparr> name = WriteTemporaryOptions.authorName opts, email = WriteTemporaryOptions.authorEmail opts \<rparr> \<and>
             committer c = \<lparr> name = WriteTemporaryOptions.authorName opts, email = WriteTemporaryOptions.authorEmail opts \<rparr>"
proof -
  let ?b = "getShadowBranchName (WriteTemporaryOptions.baseCommit opts) (WriteTemporaryOptions.worktreeID opts)"
  from assms have "createTemporaryCommit ts r opts ?b (refExists r (''refs/heads/'' @ ?b)) (revParse r (Branch ?b)) = Some (r', res)"
    using refExists_exact[of r ?b]
    by (auto simp: writeTemporary_def Let_def split: option.splits if_splits)
  from createTemporaryCommit_stored[OF this] show ?thesis by simp
qed


lemma writeTemporary_reads:
  assumes "writeTemporary ts r opts = Some (r', res)" and "\<not> skipped res"
  shows "map_of (commits r) (HEAD r) \<noteq> None"
    and "revParse r (Branch (getShadowBranchName (WriteTemporaryOptions.baseCommit opts) (WriteTemporaryOptions.worktreeID opts))) = Some tip
         \<Longrightarrow> map_of (commits r) tip \<noteq> None"
  using assms
  by (auto simp: writeTemporary_def createTemporaryCommit_def Let_def getTreeHash_def
      lookupCommit_def revParse_def refExists_def split: option.splits if_splits)

text \<open>
  Claim C4, as amended. When \<open>writeTemporary\<close> creates a new commit, the parent of that
  commit is the tip of the shadow ref when the ref exists, and otherwise the commit that
  \<^verbatim>\<open>HEAD\<close> points to. A \<open>saveStep\<close> passes a base commit equal to \<^verbatim>\<open>HEAD\<close>, so on that
  path the parent is the base commit of the session. (The empty string names no commit.)
\<close>

theorem writeTemporary_parent:
  assumes w: "writeTemporary ts r opts = Some (r', res)" and n: "\<not> skipped res"
    and wf: "map_of (commits r) [] = None"
  shows "(\<exists>c. map_of (commits r') (commitHash res) = Some c \<and>
              parents c = [case map_of (refs r) (''refs/heads/'' @ getShadowBranchName
                                  (WriteTemporaryOptions.baseCommit opts) (WriteTemporaryOptions.worktreeID opts)) of
                             Some tip \<Rightarrow> tip
                           | None \<Rightarrow> HEAD r])
       \<and> (\<forall>w0 step w2 state. stepSession w0 step = (w2, state) \<longrightarrow> baseCommit state = HEAD (proj w2))"
proof (intro conjI allI impI)
  let ?b = "getShadowBranchName (WriteTemporaryOptions.baseCommit opts) (WriteTemporaryOptions.worktreeID opts)"
  let ?q = "case revParse r (Branch ?b) of Some tip \<Rightarrow> tip | None \<Rightarrow> HEAD r"
  have "map_of (commits r) ?q \<noteq> None"
    using writeTemporary_reads[OF w n] by (auto split: option.splits)
  with wf have q: "?q \<noteq> []" by auto
  from writeTemporary_new_commit[OF w n] q
  show "\<exists>c. map_of (commits r') (commitHash res) = Some c \<and>
              parents c = [case map_of (refs r) (''refs/heads/'' @ ?b) of
                             Some tip \<Rightarrow> tip
                           | None \<Rightarrow> HEAD r]"
    by (auto simp: Let_def revParse_def)
next
  fix w0 step w2 state
  assume "stepSession w0 step = (w2, state)"
  then show "baseCommit state = HEAD (proj w2)"
    using stepSession_head by blast
qed

lemma findEntry_fresh:
  "\<forall>e \<in> set pre. entryName e \<noteq> n \<Longrightarrow> findEntry (pre @ [(m, t, ob, n)]) n = Some ob"
  by (induction pre) (auto simp: entryName_def entryObj_def)

lemma findEntry_first:
  "findEntry ((m, t, ob, n) # es) n = Some ob"
  by (simp add: entryName_def entryObj_def)

lemma mktree_cases:
  "mktree es = Some t \<Longrightarrow> t = Tree es \<and> (\<forall>e \<in> set es. CHR ''/'' \<notin> set (entryName e))"
  by (auto simp: mktree_def split: if_splits)

lemma mktree_valid:
  "\<forall>e \<in> set es. validName (entryName e) \<Longrightarrow> mktree es = Some (Tree es)"
  by (auto simp: mktree_def validName_def)

lemma treeEntries_valid:
  "e \<in> set (treeEntries t) \<Longrightarrow> validName (entryName e)"
  by (cases t) (auto split: if_splits)

lemma treeEntries_Tree:
  "\<forall>e \<in> set es. validName (entryName e) \<Longrightarrow> treeEntries (Tree es) = es"
  by simp

lemma lsTree_valid:
  "e \<in> set (lsTree r rv) \<Longrightarrow> validName (entryName e)"
  "e \<in> set (lsTreeAt r rv d) \<Longrightarrow> validName (entryName e)"
  by (auto simp: lsTree_def lsTreeAt_def dest: treeEntries_valid split: option.splits)

lemma lookup_fresh:
  assumes "\<forall>e \<in> set pre. entryName e \<noteq> n \<and> validName (entryName e)" and "validName n"
  shows "lookupPath (Tree (pre @ [(m, t, ob, n)])) (n # ps) = lookupPath ob ps"
proof -
  have "\<forall>e \<in> set (pre @ [(m, t, ob, n)]). validName (entryName e)"
    using assms by (auto simp: entryName_def)
  then have "treeEntries (Tree (pre @ [(m, t, ob, n)])) = pre @ [(m, t, ob, n)]"
    by (rule treeEntries_Tree)
  moreover have "findEntry (pre @ [(m, t, ob, n)]) n = Some ob"
    using assms(1) by (intro findEntry_fresh) auto
  ultimately show ?thesis by simp
qed

lemma lookup_summary:
  assumes "\<forall>e \<in> set preRoot. entryName e \<noteq> shard \<and> validName (entryName e)"
    and "\<forall>e \<in> set preShard. entryName e \<noteq> dir \<and> validName (entryName e)"
    and "validName shard" and "validName dir"
  shows "lookupPath
           (Tree (preRoot @ [(m1, t1,
              Tree (preShard @ [(m2, t2,
                 Tree [(m3, t3, blob, ''metadata.json''), (m4, t4, st, ''1'')], dir)]),
              shard)]))
           [shard, dir, ''metadata.json''] = Some blob"
proof -
  have "lookupPath (Tree [(m3, t3, blob, ''metadata.json''), (m4, t4, st, ''1'')]) [''metadata.json'']
          = Some blob"
    by (simp add: entryName_def entryObj_def validName_def)
  then show ?thesis
    using lookup_fresh[OF assms(1,3)] lookup_fresh[OF assms(2,4)] by simp
qed

text \<open>What a successful \<open>writeCommitted\<close> has done.\<close>

lemma writeCommitted_form:
  assumes "writeCommitted cp ts r opts = Some r'"
  shows "\<exists>ph preRoot preShard st msg r1 h.
           commitTree r
             (Tree (preRoot @ [(''040000'', ''tree'',
                Tree (preShard @ [(''040000'', ''tree'',
                   Tree [(''100644'', ''blob'',
                          Blob (Json (checkpointSummary opts
                            (checkpointIDPath (WriteCommittedOptions.checkpointID opts)) ''1'')),
                          ''metadata.json''),
                         (''040000'', ''tree'', st, ''1'')],
                   drop 2 (WriteCommittedOptions.checkpointID opts))]),
                take 2 (WriteCommittedOptions.checkpointID opts))]))
             ph msg (getGitAuthor r) = Some (r1, h) \<and>
           (\<forall>e \<in> set preRoot. entryName e \<noteq> take 2 (WriteCommittedOptions.checkpointID opts)
                                \<and> validName (entryName e)) \<and>
           (\<forall>e \<in> set preShard. entryName e \<noteq> drop 2 (WriteCommittedOptions.checkpointID opts)
                                 \<and> validName (entryName e)) \<and>
           (r' = updateRef r1 cp h \<or> gitBranchCreate r1 cp h = Some r')"
proof -
  let ?shard = "take 2 (WriteCommittedOptions.checkpointID opts)"
  let ?dir = "drop 2 (WriteCommittedOptions.checkpointID opts)"
  from assms obtain ph bt where
    pb: "(if refExists r (''refs/heads/'' @ cp)
          then (case revParse r (Branch cp) of
                  None \<Rightarrow> None
                | Some ph \<Rightarrow>
                    (case getTreeHash r (Branch cp) of
                       None \<Rightarrow> None
                     | Some bt \<Rightarrow> Some (Some ph, Some bt)))
          else Some (None, None)) = Some (ph, bt)"
    unfolding writeCommitted_def Let_def by (auto split: option.splits prod.splits)
  define preShard where
    "preShard = (if (if bt \<noteq> None then lsTreeAt r (Branch cp) ?shard else []) \<noteq> []
                 then filter (\<lambda>e. entryName e \<noteq> ?dir)
                        (if bt \<noteq> None then lsTreeAt r (Branch cp) ?shard else [])
                 else [])"
  define preRoot where
    "preRoot = (if bt \<noteq> None then filter (\<lambda>e. entryName e \<noteq> ?shard) (lsTree r (Branch cp)) else [])"
  have vs: "\<forall>e \<in> set preShard. entryName e \<noteq> ?dir \<and> validName (entryName e)"
    unfolding preShard_def by (auto dest: lsTree_valid(2))
  have vr: "\<forall>e \<in> set preRoot. entryName e \<noteq> ?shard \<and> validName (entryName e)"
    unfolding preRoot_def by (auto dest: lsTree_valid(1))
  from assms pb obtain st ct sh rt msg r1 h where
    ct: "commitTree r rt ph msg (getGitAuthor r) = Some (r1, h)"
    and rt: "mktree (preRoot @ [(''040000'', ''tree'', sh, ?shard)]) = Some rt"
    and sh: "mktree (preShard @ [(''040000'', ''tree'', ct, ?dir)]) = Some sh"
    and cpt: "mktree [(''100644'', ''blob'',
                        Blob (Json (checkpointSummary opts
                          (checkpointIDPath (WriteCommittedOptions.checkpointID opts)) ''1'')),
                        ''metadata.json''),
                       (''040000'', ''tree'', st, ''1'')] = Some ct"
    and upd: "r' = updateRef r1 cp h \<or> gitBranchCreate r1 cp h = Some r'"
    unfolding writeCommitted_def Let_def hashObject_def preShard_def preRoot_def
    by (auto split: option.splits prod.splits if_splits)
  from mktree_cases[OF rt] mktree_cases[OF sh] mktree_cases[OF cpt] ct vs vr upd
  show ?thesis by blast
qed

text \<open>
  Whatever the options name, the commit that \<open>writeCommitted\<close> puts on the branch has the
  identity of the git configuration as author and as committer.
\<close>

lemma writeCommitted_identity:
  assumes "writeCommitted cp ts r opts = Some r'"
  shows "\<exists>h c. map_of (refs r') (''refs/heads/'' @ cp) = Some h \<and>
               map_of (commits r') h = Some c \<and>
               author c = getGitAuthor r \<and> committer c = getGitAuthor r"
proof -
  from writeCommitted_form[OF assms] obtain t ph msg r1 h where
    ct: "commitTree r t ph msg (getGitAuthor r) = Some (r1, h)"
    and upd: "r' = updateRef r1 cp h \<or> gitBranchCreate r1 cp h = Some r'"
    by blast
  from upd have "map_of (refs r') (''refs/heads/'' @ cp) = Some h \<and> commits r' = commits r1"
    by (auto simp: updateRef_def gitBranchCreate_def update_conv' split: if_splits)
  with commitTree_stored(1)[OF ct] show ?thesis by auto
qed

lemma writeCommitted_result:
  assumes w: "writeCommitted cp ts r opts = Some r'"
    and valid: "validateCheckpointID (WriteCommittedOptions.checkpointID opts)"
  shows "\<exists>h c. map_of (refs r') (''refs/heads/'' @ cp) = Some h \<and>
               map_of (commits r') h = Some c \<and>
               lookupPath (tree c) [take 2 (WriteCommittedOptions.checkpointID opts),
                                    drop 2 (WriteCommittedOptions.checkpointID opts), ''metadata.json'']
                 = Some (Blob (Json (checkpointSummary opts
                      (checkpointIDPath (WriteCommittedOptions.checkpointID opts)) ''1'')))"
proof -
  let ?id = "WriteCommittedOptions.checkpointID opts"
  from valid have len: "length ?id = 12" and hex: "list_all isHex ?id"
    by (simp_all add: validateCheckpointID_def CHECKPOINT_ID_LENGTH_def)
  have "CHR ''/'' \<notin> set ?id"
    using hex by (auto simp: list_all_iff isHex_def)
  then have v: "validName (take 2 ?id)" "validName (drop 2 ?id)"
    using len by (auto simp: validName_def dest: in_set_takeD in_set_dropD)
  from writeCommitted_form[OF w] obtain ph preRoot preShard st msg r1 h where
    ct: "commitTree r
             (Tree (preRoot @ [(''040000'', ''tree'',
                Tree (preShard @ [(''040000'', ''tree'',
                   Tree [(''100644'', ''blob'',
                          Blob (Json (checkpointSummary opts (checkpointIDPath ?id) ''1'')),
                          ''metadata.json''),
                         (''040000'', ''tree'', st, ''1'')],
                   drop 2 ?id)]),
                take 2 ?id)]))
             ph msg (getGitAuthor r) = Some (r1, h)"
    and vr: "\<forall>e \<in> set preRoot. entryName e \<noteq> take 2 ?id \<and> validName (entryName e)"
    and vs: "\<forall>e \<in> set preShard. entryName e \<noteq> drop 2 ?id \<and> validName (entryName e)"
    and upd: "r' = updateRef r1 cp h \<or> gitBranchCreate r1 cp h = Some r'"
    by blast
  from upd have "map_of (refs r') (''refs/heads/'' @ cp) = Some h \<and> commits r' = commits r1"
    by (auto simp: updateRef_def gitBranchCreate_def update_conv' split: if_splits)
  with commitTree_stored(1)[OF ct] lookup_summary[OF vr vs v] show ?thesis
    by (auto simp del: lookupPath.simps)
qed

lemma splitSlash_plain: "CHR ''/'' \<notin> set s \<Longrightarrow> splitSlash s = [s]"
  by (induction s) auto

lemma splitSlash_component:
  "CHR ''/'' \<notin> set s \<Longrightarrow> splitSlash (s @ CHR ''/'' # rest) = s # splitSlash rest"
  by (induction s) auto

lemma hex_no_slash: "list_all isHex s \<Longrightarrow> CHR ''/'' \<notin> set s"
  by (auto simp: list_all_iff isHex_def)

lemma checkpoint_path_split:
  assumes "validateCheckpointID ident"
  shows "splitSlash (checkpointIDPath ident @ ''/metadata.json'')
           = [take 2 ident, drop 2 ident, ''metadata.json'']"
proof -
  from assms have "list_all isHex ident" by (simp add: validateCheckpointID_def)
  then have a: "CHR ''/'' \<notin> set (take 2 ident)" and b: "CHR ''/'' \<notin> set (drop 2 ident)"
    using hex_no_slash[of ident] by (auto dest: in_set_takeD in_set_dropD)
  have "splitSlash (drop 2 ident @ CHR ''/'' # ''metadata.json'')
          = drop 2 ident # splitSlash ''metadata.json''"
    using b by (rule splitSlash_component)
  moreover have "splitSlash (take 2 ident @ CHR ''/'' # (drop 2 ident @ CHR ''/'' # ''metadata.json''))
          = take 2 ident # splitSlash (drop 2 ident @ CHR ''/'' # ''metadata.json'')"
    using a by (rule splitSlash_component)
  moreover have "splitSlash ''metadata.json'' = [''metadata.json'']"
    by (rule splitSlash_plain) simp
  ultimately show ?thesis
    by (simp add: checkpointIDPath_def)
qed

lemma committedRepo_set [simp]: "committedRepo (setCommittedRepo w r) = r"
  by (simp add: committedRepo_def setCommittedRepo_def split: option.splits)

lemma summary_filesTouched:
  "jsonField (checkpointSummary opts p i) ''filesTouched''
     = Some (JArr (map JStr (WriteCommittedOptions.filesTouched opts)))"
  by (simp add: checkpointSummary_def optField_def split: option.splits)

lemma readCommitted_after_write:
  assumes w: "writeCommitted cp ts r opts = Some r'"
    and valid: "validateCheckpointID (WriteCommittedOptions.checkpointID opts)"
  shows "readCommitted cp r' (WriteCommittedOptions.checkpointID opts)
           = Some (checkpointSummary opts (checkpointIDPath (WriteCommittedOptions.checkpointID opts)) ''1'')"
proof -
  from writeCommitted_result[OF w valid] obtain h c where
    r: "map_of (refs r') (''refs/heads/'' @ cp) = Some h" and c: "map_of (commits r') h = Some c"
    and l: "lookupPath (tree c) [take 2 (WriteCommittedOptions.checkpointID opts),
                                    drop 2 (WriteCommittedOptions.checkpointID opts), ''metadata.json'']
                 = Some (Blob (Json (checkpointSummary opts
                      (checkpointIDPath (WriteCommittedOptions.checkpointID opts)) ''1'')))"
    by blast
  have t: "getTreeHash r' (Branch cp) = Some (tree c)"
    using r c by (simp add: getTreeHash_def lookupCommit_def revParse_def)
  have ne: "checkpointIDPath (WriteCommittedOptions.checkpointID opts) @ ''/metadata.json'' \<noteq> []"
    by simp
  have ex: "refExists r' (''refs/heads/'' @ cp)"
    using r by (simp add: refExists_def revParse_def)
  show ?thesis
    using ex t l ne checkpoint_path_split[OF valid]
    by (simp add: readCommitted_def showFile_def resolvePath_def Let_def
        del: lookupPath.simps)
qed

lemma writeCommitted_succeeds:
  assumes valid: "validateCheckpointID (WriteCommittedOptions.checkpointID opts)"
    and wf: "refExists r (''refs/heads/'' @ cp) \<longrightarrow>
               (\<exists>tip. revParse r (Branch cp) = Some tip \<and> map_of (commits r) tip \<noteq> None)"
  shows "writeCommitted cp ts r opts \<noteq> None"
proof -
  let ?id = "WriteCommittedOptions.checkpointID opts"
  let ?shard = "take 2 ?id"
  let ?dir = "drop 2 ?id"
  from valid have len: "length ?id = 12" and hex: "list_all isHex ?id"
    by (simp_all add: validateCheckpointID_def CHECKPOINT_ID_LENGTH_def)
  have "CHR ''/'' \<notin> set ?id"
    using hex by (auto simp: list_all_iff isHex_def)
  then have v: "validName ?shard" "validName ?dir"
    using len by (auto simp: validName_def dest: in_set_takeD in_set_dropD)
  have m1: "mktree (filter (\<lambda>e. entryName e \<noteq> ?dir) (lsTreeAt r (Branch cp) ?shard) @ [(a, b, c, ?dir)])
              = Some (Tree (filter (\<lambda>e. entryName e \<noteq> ?dir) (lsTreeAt r (Branch cp) ?shard) @ [(a, b, c, ?dir)]))"
    for a b c
    using v by (intro mktree_valid) (auto simp: entryName_def dest: lsTree_valid(2))
  have m2: "mktree (filter (\<lambda>e. entryName e \<noteq> ?shard) (lsTree r (Branch cp)) @ [(a, b, c, ?shard)])
              = Some (Tree (filter (\<lambda>e. entryName e \<noteq> ?shard) (lsTree r (Branch cp)) @ [(a, b, c, ?shard)]))"
    for a b c
    using v by (intro mktree_valid) (auto simp: entryName_def dest: lsTree_valid(1))
  have m3: "mktree [(a, b, c, ?dir)] = Some (Tree [(a, b, c, ?dir)])" for a b c
    using v by (intro mktree_valid) (auto simp: entryName_def)
  have m4: "mktree [(a, b, c, ?shard)] = Some (Tree [(a, b, c, ?shard)])" for a b c
    using v by (intro mktree_valid) (auto simp: entryName_def)
  have m5: "mktree [(a, b, c, ''metadata.json''), (a2, b2, c2, ''full.jsonl''),
                    (a3, b3, c3, ''prompt.txt''), (a4, b4, c4, ''context.md'')]
              = Some (Tree [(a, b, c, ''metadata.json''), (a2, b2, c2, ''full.jsonl''),
                    (a3, b3, c3, ''prompt.txt''), (a4, b4, c4, ''context.md'')])"
    for a b c a2 b2 c2 a3 b3 c3 a4 b4 c4
    by (simp add: mktree_def entryName_def)
  have m6: "mktree [(a, b, c, ''metadata.json''), (a2, b2, c2, ''1'')]
              = Some (Tree [(a, b, c, ''metadata.json''), (a2, b2, c2, ''1'')])"
    for a b c a2 b2 c2
    by (simp add: mktree_def entryName_def)
  show ?thesis
  proof (cases "refExists r (''refs/heads/'' @ cp)")
    case True
    with wf obtain tip cm where
      tip: "revParse r (Branch cp) = Some tip" and cm: "map_of (commits r) tip = Some cm"
      by auto
    then have t: "getTreeHash r (Branch cp) = Some (tree cm)"
      by (simp add: getTreeHash_def lookupCommit_def)
    have p: "revParse r (CommitId tip) = Some tip"
      using cm by (simp add: revParse_def)
    show ?thesis
      unfolding writeCommitted_def Let_def
      using True tip t p
      by (simp add: m1 m2 m3 m4 m5 m6 commitTree_def Let_def split: option.splits)
  next
    case False
    then have "map_of (refs r) (''refs/heads/'' @ cp) = None"
      by (auto simp: refExists_def revParse_def split: option.splits)
    then show ?thesis
      unfolding writeCommitted_def Let_def
      using False
      by (simp add: m3 m4 m5 m6 commitTree_def gitBranchCreate_def Let_def)
  qed
qed

text \<open>
  Claim C2. A promotion whose metadata ref, if it exists, points to a stored commit succeeds,
  and reading the checkpoint id back with \<open>readCommitted\<close> yields a summary whose
  \<open>filesTouched\<close> is the session's list filtered by \<open>committedFiles\<close>, a subset of
  \<open>committedFiles\<close>. The id is a valid checkpoint id, as both callers guarantee; the ref
  exists when the store's own test \<open>refExists\<close> finds it, and points to what the store's
  own \<^verbatim>\<open>rev-parse\<close> of the branch name gives.
\<close>

theorem condenseSession_readCommitted:
  assumes valid: "validateCheckpointID cpID"
    and wf: "refExists (committedRepo w) (''refs/heads/'' @ cpBranch e) \<longrightarrow>
               (\<exists>tip. revParse (committedRepo w) (Branch (cpBranch e)) = Some tip \<and>
                      map_of (commits (committedRepo w)) tip \<noteq> None)"
  shows "\<exists>w' res summary.
           condenseSession e w state cpID committedFiles = Some (w', res) \<and>
           readCommitted (cpBranch e) (committedRepo w') cpID = Some summary \<and>
           jsonField summary ''filesTouched''
             = Some (JArr (map JStr (filter (\<lambda>f. f \<in> committedFiles) (SessionState.filesTouched state)))) \<and>
           set (filter (\<lambda>f. f \<in> committedFiles) (SessionState.filesTouched state)) \<subseteq> committedFiles"
proof -
  obtain opts where
    o: "condenseSession e w state cpID committedFiles =
          (case writeCommitted (cpBranch e) (nowISO w) (committedRepo w) opts of
             None \<Rightarrow> None
           | Some r' \<Rightarrow> Some (setCommittedRepo w r',
                   \<lparr> CondensationResult.checkpointID = cpID,
                     sessionsCondensed = 1,
                     checkpointsCount = stepCount state,
                     filesTouched = filter (\<lambda>f. f \<in> committedFiles) (SessionState.filesTouched state),
                     tokenUsage = SessionState.tokenUsage state \<rparr>))"
    and id: "WriteCommittedOptions.checkpointID opts = cpID"
    and ft: "WriteCommittedOptions.filesTouched opts = filter (\<lambda>f. f \<in> committedFiles) (SessionState.filesTouched state)"
    by (simp add: condenseSession_def Let_def)
  from valid id have v: "validateCheckpointID (WriteCommittedOptions.checkpointID opts)" by simp
  from writeCommitted_succeeds[OF v wf] obtain r' where
    w: "writeCommitted (cpBranch e) (nowISO w) (committedRepo w) opts = Some r'"
    by blast
  have "readCommitted (cpBranch e) r' cpID
          = Some (checkpointSummary opts (checkpointIDPath cpID) ''1'')"
    using readCommitted_after_write[OF w v] id by simp
  then show ?thesis
    using o w ft summary_filesTouched[of opts "checkpointIDPath cpID" "''1''"] by auto
qed

lemma condenseSession_form:
  "\<exists>opts res. condenseSession e w state cpID cf =
          (case writeCommitted (cpBranch e) (nowISO w) (committedRepo w) opts of
             None \<Rightarrow> None
           | Some r' \<Rightarrow> Some (setCommittedRepo w r', res))"
  unfolding condenseSession_def Let_def by (intro exI) (rule refl)

subsection \<open>postCommit\<close>

lemma writeCommitted_frame:
  assumes "writeCommitted cp ts r opts = Some r'"
  shows "HEAD r' = HEAD r"
    and "n \<noteq> ''refs/heads/'' @ cp \<Longrightarrow> map_of (refs r') n = map_of (refs r) n"
    and "currentBranch r' = currentBranch r"
proof -
  from assms obtain t p msg who r1 h where
    ct: "commitTree r t p msg who = Some (r1, h)"
    and upd: "r' = updateRef r1 cp h \<or> gitBranchCreate r1 cp h = Some r'"
    unfolding writeCommitted_def Let_def
    by (auto split: option.splits if_splits prod.splits)
  from upd commitTree_stored(2,3)[OF ct] show "HEAD r' = HEAD r"
    by (auto simp: updateRef_def gitBranchCreate_def split: if_splits)
  from upd commitTree_stored(2,3)[OF ct]
  show "n \<noteq> ''refs/heads/'' @ cp \<Longrightarrow> map_of (refs r') n = map_of (refs r) n"
    by (auto simp: updateRef_def gitBranchCreate_def update_conv' split: if_splits)
  from upd commitTree_stored(4)[OF ct] show "currentBranch r' = currentBranch r"
    by (auto simp: updateRef_def gitBranchCreate_def split: if_splits)
qed

lemma tryCondense_cases:
  obtains "tryCondense e w state cpID cf = w"
  | opts r' where "writeCommitted (cpBranch e) (nowISO w) (committedRepo w) opts = Some r'"
      and "tryCondense e w state cpID cf = setCommittedRepo w r'"
proof -
  from condenseSession_form[of e w state cpID cf] obtain opts res where
    f: "condenseSession e w state cpID cf =
          (case writeCommitted (cpBranch e) (nowISO w) (committedRepo w) opts of
             None \<Rightarrow> None
           | Some r' \<Rightarrow> Some (setCommittedRepo w r', res))"
    by blast
  show ?thesis
  proof (cases "writeCommitted (cpBranch e) (nowISO w) (committedRepo w) opts")
    case None
    with f that(1) show ?thesis by (simp add: tryCondense_def)
  next
    case (Some r')
    with f that(2)[of opts r'] show ?thesis by (simp add: tryCondense_def)
  qed
qed

lemma tryCondense_frame:
  shows "sessions (tryCondense e w state cpID cf) = sessions w"
    and "(sessionRepo (tryCondense e w state cpID cf) = None) = (sessionRepo w = None)"
    and "HEAD (proj (tryCondense e w state cpID cf)) = HEAD (proj w)"
    and "sessionRepo w \<noteq> None \<or> n \<noteq> ''refs/heads/'' @ cpBranch e \<Longrightarrow>
         map_of (refs (proj (tryCondense e w state cpID cf))) n = map_of (refs (proj w)) n"
    and "currentBranch (proj (tryCondense e w state cpID cf)) = currentBranch (proj w)"
proof -
  show "sessions (tryCondense e w state cpID cf) = sessions w"
    by (cases rule: tryCondense_cases[of e w state cpID cf])
       (auto simp: setCommittedRepo_def split: option.splits)
  show "(sessionRepo (tryCondense e w state cpID cf) = None) = (sessionRepo w = None)"
    by (cases rule: tryCondense_cases[of e w state cpID cf])
       (auto simp: setCommittedRepo_def split: option.splits)
  show "HEAD (proj (tryCondense e w state cpID cf)) = HEAD (proj w)"
    by (cases rule: tryCondense_cases[of e w state cpID cf])
       (auto simp: setCommittedRepo_def committedRepo_def dest: writeCommitted_frame(1)
          split: option.splits)
  show "sessionRepo w \<noteq> None \<or> n \<noteq> ''refs/heads/'' @ cpBranch e \<Longrightarrow>
         map_of (refs (proj (tryCondense e w state cpID cf))) n = map_of (refs (proj w)) n"
    by (cases rule: tryCondense_cases[of e w state cpID cf])
       (auto simp: setCommittedRepo_def committedRepo_def dest: writeCommitted_frame(2)
          split: option.splits)
  show "currentBranch (proj (tryCondense e w state cpID cf)) = currentBranch (proj w)"
    by (cases rule: tryCondense_cases[of e w state cpID cf])
       (auto simp: setCommittedRepo_def committedRepo_def dest: writeCommitted_frame(3)
          split: option.splits)
qed


lemma deleteShadowBranch_gone:
  "n = ''refs/heads/'' @ b \<Longrightarrow> currentBranch r \<noteq> Some b \<Longrightarrow>
   map_of (refs (deleteShadowBranch r b)) n = None"
  by (auto simp: deleteShadowBranch_def deleteBranch_def delete_conv' split: option.splits if_splits)

lemma deleteShadowBranch_frame:
  "HEAD (deleteShadowBranch r b) = HEAD r"
  "map_of (refs r) n = None \<Longrightarrow> map_of (refs (deleteShadowBranch r b)) n = None"
  by (auto simp: deleteShadowBranch_def deleteBranch_def delete_conv' split: option.splits if_splits)

lemma postCommitSession_persisted:
  assumes "stepCount state \<noteq> 0" and "SessionState.filesTouched state \<noteq> []"
    and "refExists (proj w) (''refs/heads/'' @ getShadowBranchName (baseCommit state) (worktreeID state))"
    and "filesOverlapWithContent e (proj w) (getShadowBranchName (baseCommit state) (worktreeID state))
           headHash parentHash (SessionState.filesTouched state)"
  shows "map_of (sessions (postCommitSession e cpID headHash parentHash cf w state)) (sessionID state)
           = Some (state\<lparr>baseCommit := headHash, stepCount := 0,
                 SessionState.filesTouched :=
                   filesWithRemainingAgentChanges e (proj (tryCondense e w state cpID cf))
                     (getShadowBranchName (baseCommit state) (worktreeID state)) headHash
                     (SessionState.filesTouched state) cf,
                 promptAttributions := Some [], lastCheckpointID := Some cpID\<rparr>)"
    and "filesWithRemainingAgentChanges e (proj (tryCondense e w state cpID cf))
           (getShadowBranchName (baseCommit state) (worktreeID state)) headHash
           (SessionState.filesTouched state) cf = [] \<Longrightarrow>
         currentBranch (proj w) \<noteq> Some (getShadowBranchName (baseCommit state) (worktreeID state)) \<Longrightarrow>
         map_of (refs (proj (postCommitSession e cpID headHash parentHash cf w state)))
           (''refs/heads/'' @ getShadowBranchName (baseCommit state) (worktreeID state)) = None"
  using assms
  by (auto simp: postCommitSession_def Let_def saveSession_def storeSave_def update_conv'
      deleteShadowBranch_gone tryCondense_frame(5))

lemma postCommitSession_frame:
  shows "k \<noteq> sessionID state \<Longrightarrow>
         map_of (sessions (postCommitSession e cpID headHash parentHash cf w state)) k = map_of (sessions w) k"
    and "(sessionRepo (postCommitSession e cpID headHash parentHash cf w state) = None) = (sessionRepo w = None)"
    and "map_of (refs (proj w)) n = None \<Longrightarrow> sessionRepo w \<noteq> None \<or> n \<noteq> ''refs/heads/'' @ cpBranch e \<Longrightarrow>
         map_of (refs (proj (postCommitSession e cpID headHash parentHash cf w state))) n = None"
proof -
  show "k \<noteq> sessionID state \<Longrightarrow>
         map_of (sessions (postCommitSession e cpID headHash parentHash cf w state)) k = map_of (sessions w) k"
    by (auto simp: postCommitSession_def Let_def saveSession_def storeSave_def update_conv'
        tryCondense_frame(1))
  show "(sessionRepo (postCommitSession e cpID headHash parentHash cf w state) = None) = (sessionRepo w = None)"
    by (auto simp: postCommitSession_def Let_def saveSession_def tryCondense_frame(2))
  show "map_of (refs (proj w)) n = None \<Longrightarrow> sessionRepo w \<noteq> None \<or> n \<noteq> ''refs/heads/'' @ cpBranch e \<Longrightarrow>
         map_of (refs (proj (postCommitSession e cpID headHash parentHash cf w state))) n = None"
    using tryCondense_frame(4)[of w n e state cpID cf]
    by (auto simp: postCommitSession_def Let_def saveSession_def deleteShadowBranch_frame(2))
qed

lemma postCommitLoop_frame:
  shows "k \<notin> sessionID ` set ss \<Longrightarrow>
         map_of (sessions (postCommitLoop e cpID headHash parentHash cf w ss)) k = map_of (sessions w) k"
    and "map_of (refs (proj w)) n = None \<Longrightarrow> sessionRepo w \<noteq> None \<or> n \<noteq> ''refs/heads/'' @ cpBranch e \<Longrightarrow>
         map_of (refs (proj (postCommitLoop e cpID headHash parentHash cf w ss))) n = None"
proof -
  show "k \<notin> sessionID ` set ss \<Longrightarrow>
         map_of (sessions (postCommitLoop e cpID headHash parentHash cf w ss)) k = map_of (sessions w) k"
    unfolding postCommitLoop_def
    by (induction ss arbitrary: w) (auto simp: postCommitSession_frame(1))
  show "map_of (refs (proj w)) n = None \<Longrightarrow> sessionRepo w \<noteq> None \<or> n \<noteq> ''refs/heads/'' @ cpBranch e \<Longrightarrow>
         map_of (refs (proj (postCommitLoop e cpID headHash parentHash cf w ss))) n = None"
    unfolding postCommitLoop_def
  proof (induction ss arbitrary: w)
    case Nil
    then show ?case by simp
  next
    case (Cons s ss)
    have a: "map_of (refs (proj (postCommitSession e cpID headHash parentHash cf w s))) n = None"
      using Cons.prems by (rule postCommitSession_frame(3))
    have b: "sessionRepo (postCommitSession e cpID headHash parentHash cf w s) \<noteq> None \<or> n \<noteq> ''refs/heads/'' @ cpBranch e"
      using Cons.prems(2) postCommitSession_frame(2)[of e cpID headHash parentHash cf w s] by auto
    show ?case using Cons.IH[OF a b] by simp
  qed
qed

lemma postCommitLoop_split:
  "i < length ss \<Longrightarrow>
   postCommitLoop e cpID headHash parentHash cf w ss
     = postCommitLoop e cpID headHash parentHash cf
         (postCommitSession e cpID headHash parentHash cf
            (postCommitLoop e cpID headHash parentHash cf w (take i ss)) (ss ! i))
         (drop (Suc i) ss)"
proof -
  assume "i < length ss"
  then have "ss = take i ss @ ss ! i # drop (Suc i) ss"
    by (simp add: id_take_nth_drop)
  then have "foldl (postCommitSession e cpID headHash parentHash cf) w ss
      = foldl (postCommitSession e cpID headHash parentHash cf) w (take i ss @ ss ! i # drop (Suc i) ss)"
    by simp
  then show ?thesis
    unfolding postCommitLoop_def by (simp only: foldl_append foldl_Cons)
qed


lemma postCommitLoop_sessionRepo:
  "(sessionRepo (postCommitLoop e cpID headHash parentHash cf w ss) = None) = (sessionRepo w = None)"
  unfolding postCommitLoop_def
  by (induction ss arbitrary: w) (auto simp: postCommitSession_frame(2))

lemma findSessionsForCommit_frame:
  assumes "findSessionsForCommit w sha = (w1, found)"
  shows "proj w1 = proj w" and "sessionRepo w1 = sessionRepo w"
  using assms
  by (auto simp: findSessionsForCommit_def listAllSessions_def storeList_def Let_def split: prod.splits)

lemma distinct_later:
  assumes "distinct (map f xs)" and "i < length xs"
  shows "f (xs ! i) \<notin> f ` set (drop (Suc i) xs)"
proof -
  have "xs = take i xs @ xs ! i # drop (Suc i) xs"
    using assms(2) by (simp add: id_take_nth_drop)
  then have "distinct (map f (take i xs @ xs ! i # drop (Suc i) xs))"
    using assms(1) by simp
  then show ?thesis by auto
qed

text \<open>
  Claim C1, as amended. After \<open>postCommit\<close> finds a checkpoint trailer in the message of
  \<^verbatim>\<open>HEAD\<close>, every session that the store lists for the parent of \<^verbatim>\<open>HEAD\<close> (session ids
  distinct), with a step count other than zero, touched files, and whose shadow ref exists
  and has content overlap at the moment the loop reaches it, is persisted with its base
  commit set to the new \<^verbatim>\<open>HEAD\<close>, its step count zero, its prompt attributions empty and
  its last checkpoint id set to the id of the trailer. Its touched files become what
  \<open>filesWithRemainingAgentChanges\<close> reports after the promotion; when that is empty the
  shadow ref is deleted (it not being the branch checked out, and the metadata ref being
  another ref).
\<close>

theorem postCommit_persists:
  fixes e :: env and w :: world
  defines "headHash \<equiv> HEAD (proj w)"
  assumes head: "map_of (commits (proj w)) headHash = Some hc"
    and trailer: "parseCheckpoint (trimEnd (message hc)) = Some cpID"
    and par: "parents hc = parentHash # others" and ne: "parentHash \<noteq> []"
    and found: "findSessionsForCommit w (trim parentHash) = (w1, found)"
    and diff: "diffNameOnly (proj w1) (headHash @ ''^'') headHash = (added, modified, deleted)"
    and dist: "distinct (map sessionID found)"
    and i: "i < length found"
  defines "cf \<equiv> set (added @ modified @ deleted)"
    and "state \<equiv> found ! i"
  defines "shadow \<equiv> getShadowBranchName (baseCommit state) (worktreeID state)"
    and "wi \<equiv> postCommitLoop e cpID headHash (trim parentHash) cf w1 (take i found)"
  defines "remaining \<equiv> filesWithRemainingAgentChanges e (proj (tryCondense e wi state cpID cf))
                          shadow headHash (SessionState.filesTouched state) cf"
  assumes steps: "stepCount state \<noteq> 0"
    and touched: "SessionState.filesTouched state \<noteq> []"
    and ex: "refExists (proj wi) (''refs/heads/'' @ shadow)"
    and overlap: "filesOverlapWithContent e (proj wi) shadow headHash (trim parentHash)
                    (SessionState.filesTouched state)"
  shows "\<exists>w'. postCommit e w = Some w' \<and>
           baseCommit state = trim parentHash \<and>
           map_of (sessions w') (sessionID state)
             = Some (state\<lparr>baseCommit := headHash, stepCount := 0,
                            SessionState.filesTouched := remaining,
                            promptAttributions := Some [],
                            lastCheckpointID := Some cpID\<rparr>) \<and>
           (remaining = [] \<and> currentBranch (proj wi) \<noteq> Some shadow \<and>
            (sessionRepo w \<noteq> None \<or> shadow \<noteq> cpBranch e)
              \<longrightarrow> map_of (refs (proj w')) (''refs/heads/'' @ shadow) = None)"
proof -
  let ?loop = "postCommitLoop e cpID headHash (trim parentHash) cf"
  let ?step = "postCommitSession e cpID headHash (trim parentHash) cf"
  from i have fne: "found \<noteq> []" by auto
  have pc: "postCommit e w = Some (?loop w1 found)"
    using head trailer par ne found diff fne
    by (simp add: postCommit_def Let_def getHead_def headHash_def cf_def)
  have sp: "?loop w1 found = ?loop (?step wi state) (drop (Suc i) found)"
    unfolding wi_def state_def by (rule postCommitLoop_split[OF i])
  have later: "sessionID state \<notin> sessionID ` set (drop (Suc i) found)"
    unfolding state_def by (rule distinct_later[OF dist i])
  have stored: "map_of (sessions (?step wi state)) (sessionID state)
             = Some (state\<lparr>baseCommit := headHash, stepCount := 0,
                            SessionState.filesTouched := remaining,
                            promptAttributions := Some [],
                            lastCheckpointID := Some cpID\<rparr>)"
    unfolding remaining_def shadow_def
    using steps touched ex[unfolded shadow_def] overlap[unfolded shadow_def]
    by (rule postCommitSession_persisted(1))
  have final: "map_of (sessions (?loop w1 found)) (sessionID state)
             = Some (state\<lparr>baseCommit := headHash, stepCount := 0,
                            SessionState.filesTouched := remaining,
                            promptAttributions := Some [],
                            lastCheckpointID := Some cpID\<rparr>)"
    using postCommitLoop_frame(1)[OF later, of e cpID headHash "trim parentHash" cf "?step wi state"]
      stored sp by simp
  have base: "baseCommit state = trim parentHash"
  proof -
    have "state \<in> set found" unfolding state_def using i by simp
    then show ?thesis
      using found
      by (auto simp: findSessionsForCommit_def split: prod.splits)
  qed
  have gone: "map_of (refs (proj (?loop w1 found))) (''refs/heads/'' @ shadow) = None"
    if r: "remaining = []" and cur: "currentBranch (proj wi) \<noteq> Some shadow"
      and c: "sessionRepo w \<noteq> None \<or> shadow \<noteq> cpBranch e"
  proof -
    have a: "map_of (refs (proj (?step wi state))) (''refs/heads/'' @ shadow) = None"
      unfolding shadow_def
      using steps touched ex[unfolded shadow_def] overlap[unfolded shadow_def]
        r[unfolded remaining_def shadow_def] cur[unfolded shadow_def]
      by (rule postCommitSession_persisted(2))
    have "(sessionRepo (?step wi state) = None) = (sessionRepo w = None)"
      using postCommitSession_frame(2)[of e cpID headHash "trim parentHash" cf wi state]
        postCommitLoop_sessionRepo[of e cpID headHash "trim parentHash" cf w1 "take i found"]
        findSessionsForCommit_frame(2)[OF found]
      by (simp add: wi_def)
    with c have b: "sessionRepo (?step wi state) \<noteq> None \<or> ''refs/heads/'' @ shadow \<noteq> ''refs/heads/'' @ cpBranch e"
      by auto
    show ?thesis
      using postCommitLoop_frame(2)[OF a b] sp by simp
  qed
  show ?thesis
    using pc final base gone by auto
qed

subsection \<open>prepareCommitMsg\<close>

lemma hex_not_space: "isHex c \<Longrightarrow> \<not> isWhiteSpace c"
  by (auto simp: isHex_def isWhiteSpace_def)

lemma dropWhile_none: "\<forall>c \<in> set s. \<not> P c \<Longrightarrow> dropWhile P s = s"
  by (cases s) auto

lemma trim_hex: "list_all isHex g \<Longrightarrow> trim g = g"
  by (simp add: trim_def dropWhile_none hex_not_space list_all_iff)

lemma matchCheckpointAt_valid:
  "matchCheckpointAt s = Some g \<Longrightarrow> validateCheckpointID g"
  by (auto simp: matchCheckpointAt_def validateCheckpointID_def Let_def split: if_splits)

lemma execCheckpointRegex_valid:
  "execCheckpointRegex s = Some g \<Longrightarrow> validateCheckpointID g"
  by (induction s) (auto simp: matchCheckpointAt_valid split: option.splits)

lemma parseCheckpoint_exec: "parseCheckpoint m = execCheckpointRegex m"
proof (cases "execCheckpointRegex m")
  case None
  then show ?thesis by (simp add: parseCheckpoint_def)
next
  case (Some g)
  then have v: "validateCheckpointID g" by (rule execCheckpointRegex_valid)
  then have "g \<noteq> []" and "trim g = g"
    by (auto simp: validateCheckpointID_def trim_hex)
  with Some v show ?thesis by (simp add: parseCheckpoint_def)
qed

lemma exec_at: "matchCheckpointAt s \<noteq> None \<Longrightarrow> execCheckpointRegex s \<noteq> None"
  by (cases s) (auto split: option.splits)

lemma exec_suffix: "execCheckpointRegex s \<noteq> None \<Longrightarrow> execCheckpointRegex (p @ s) \<noteq> None"
  by (induction p) (auto split: option.splits)

lemma match_trailer:
  assumes "validateCheckpointID ident"
  shows "matchCheckpointAt (CheckpointTrailerKey @ '': '' @ ident @ CHR 0x0A # q) = Some ident"
proof -
  from assms have len: "length ident = 12" and hex: "list_all isHex ident"
    by (simp_all add: validateCheckpointID_def)
  from len obtain c cs where ic: "ident = c # cs" by (cases ident) auto
  with hex have "\<not> isWhiteSpace c" by (simp add: hex_not_space)
  then have dw: "dropWhile isWhiteSpace (CHR '' '' # ident @ CHR 0x0A # q) = ident @ CHR 0x0A # q"
    using ic by (simp add: isWhiteSpace_def)
  have nl: "isWhiteSpace (CHR 0x0A)" by (simp add: isWhiteSpace_def)
  show ?thesis
    using len hex dw nl
    by (simp add: matchCheckpointAt_def CheckpointTrailerKey_def startsWith_def Let_def nth_append)
qed

lemma joinNL_append:
  "ys \<noteq> [] \<Longrightarrow> joinNL (xs @ ys) = (if xs = [] then joinNL ys else joinNL xs @ CHR 0x0A # joinNL ys)"
  by (induction xs rule: joinNL.induct) (auto simp: neq_Nil_conv)

lemma joinNL_trailer:
  "\<exists>p q. joinNL (xs @ [[], t, []] @ ys) = p @ t @ CHR 0x0A # q"
proof -
  have a: "joinNL ([[], t, []] @ ys) = CHR 0x0A # t @ CHR 0x0A # joinNL ([] # ys)"
    by (cases ys) auto
  show ?thesis
  proof (cases "xs = []")
    case True
    with a show ?thesis by (metis append_Cons append_Nil)
  next
    case False
    then have "joinNL (xs @ [[], t, []] @ ys) = (joinNL xs @ [CHR 0x0A, CHR 0x0A]) @ t @ CHR 0x0A # joinNL ([] # ys)"
      using a joinNL_append[of "[[], t, []] @ ys" xs] by simp
    then show ?thesis by blast
  qed
qed

lemma parse_injected:
  assumes "validateCheckpointID ident"
  shows "parseCheckpoint (injectCheckpointTrailer m (CheckpointTrailerKey @ '': '' @ ident)) \<noteq> None"
proof -
  obtain p q where
    "injectCheckpointTrailer m (CheckpointTrailerKey @ '': '' @ ident)
       = p @ (CheckpointTrailerKey @ '': '' @ ident) @ CHR 0x0A # q"
    unfolding injectCheckpointTrailer_def Let_def
    using joinNL_trailer by blast
  moreover have "execCheckpointRegex (p @ (CheckpointTrailerKey @ '': '' @ ident @ CHR 0x0A # q)) \<noteq> None"
    using match_trailer[OF assms, of q] by (intro exec_suffix exec_at) simp
  ultimately show ?thesis
    by (simp add: parseCheckpoint_exec)
qed

text \<open>Counting trailers: one injection into a message without a trailer leaves exactly one.\<close>

lemma match_head: "matchCheckpointAt (c # s) \<noteq> None \<Longrightarrow> c = CHR ''R''"
  by (auto simp: matchCheckpointAt_def CheckpointTrailerKey_def startsWith_def Let_def
      split: if_splits)

lemma match_Nil [simp]: "matchCheckpointAt [] = None"
  by (simp add: matchCheckpointAt_def CheckpointTrailerKey_def startsWith_def)

lemma count_no_R:
  "\<forall>c \<in> set X. c \<noteq> CHR ''R'' \<Longrightarrow> countCheckpointTrailers (X @ Y) = countCheckpointTrailers Y"
  by (induction X) (auto dest: match_head)

lemma count_suffix_zero:
  "countCheckpointTrailers (p @ s) = 0 \<Longrightarrow> countCheckpointTrailers s = 0"
  by (induction p) (auto split: if_splits)

lemma count_zero_exec:
  "countCheckpointTrailers s = 0 \<longleftrightarrow> execCheckpointRegex s = None"
  by (induction s) (auto split: option.splits)

lemma count_prefix:
  "\<forall>i < length X. matchCheckpointAt (drop i X @ Y) = None \<Longrightarrow>
   countCheckpointTrailers (X @ Y) = countCheckpointTrailers Y"
proof (induction X)
  case Nil
  then show ?case by simp
next
  case (Cons c X)
  have "matchCheckpointAt ((c # X) @ Y) = None"
    using Cons.prems by (metis drop0 length_greater_0_conv list.distinct(1))
  moreover have "\<forall>i < length X. matchCheckpointAt (drop i X @ Y) = None"
  proof (intro allI impI)
    fix i assume "i < length X"
    then have "Suc i < length (c # X)" by simp
    with Cons.prems have "matchCheckpointAt (drop (Suc i) (c # X) @ Y) = None" by blast
    then show "matchCheckpointAt (drop i X @ Y) = None" by simp
  qed
  ultimately show ?case using Cons.IH by simp
qed

lemma joinNL_splitNL: "joinNL (splitNL m) = m"
proof (induction m)
  case Nil
  then show ?case by simp
next
  case (Cons c cs)
  obtain l ls where s: "splitNL cs = l # ls"
    using splitNL_nonempty[of cs] by (cases "splitNL cs") auto
  with Cons show ?case by (cases ls) auto
qed

lemma popBlank_split: "\<exists>bl. ls = popBlank ls @ bl"
proof -
  have "rev ls = takeWhile (\<lambda>l. trim l = []) (rev ls) @ dropWhile (\<lambda>l. trim l = []) (rev ls)"
    by simp
  then have "ls = rev (dropWhile (\<lambda>l. trim l = []) (rev ls)) @ rev (takeWhile (\<lambda>l. trim l = []) (rev ls))"
    by (metis rev_append rev_rev_ident)
  then show ?thesis unfolding popBlank_def by blast
qed

lemma key_plain:
  "CHR 0x0A \<notin> set (CheckpointTrailerKey @ '':'')"
  "length (CheckpointTrailerKey @ '':'') = 18"
  by (simp_all add: CheckpointTrailerKey_def)

lemma take_over_newline:
  "length u < n \<Longrightarrow> CHR 0x0A \<in> set (take n (u @ CHR 0x0A # z))"
proof -
  assume "length u < n"
  then obtain d where n: "n = length u + Suc d"
    by (metis less_imp_Suc_add add_Suc_right)
  have "take (length u + Suc d) (u @ CHR 0x0A # z) = u @ CHR 0x0A # take d z"
    by simp
  then show ?thesis unfolding n by simp
qed

lemma take_append_newline:
  assumes "take n (u @ CHR 0x0A # z) = k" and "CHR 0x0A \<notin> set k"
  shows "n \<le> length u \<and> take n u = k"
proof -
  have "n \<le> length u"
    using take_over_newline[of u n z] assms by (cases "length u < n") auto
  with assms(1) show ?thesis by simp
qed

lemma take_hex_newline:
  assumes "list_all isHex (take 12 (v @ CHR 0x0A # z))"
  shows "12 \<le> length v"
proof (rule ccontr)
  assume "\<not> 12 \<le> length v"
  then have "CHR 0x0A \<in> set (take 12 (v @ CHR 0x0A # z))"
    by (intro take_over_newline) simp
  with assms have "isHex (CHR 0x0A)"
    unfolding list_all_iff by blast
  then show False by (simp add: isHex_def)
qed

lemma match_iff:
  "matchCheckpointAt s \<noteq> None \<longleftrightarrow>
     take 18 s = CheckpointTrailerKey @ '':'' \<and>
     12 \<le> length (dropWhile isWhiteSpace (drop 18 s)) \<and>
     list_all isHex (take 12 (dropWhile isWhiteSpace (drop 18 s))) \<and>
     (length (dropWhile isWhiteSpace (drop 18 s)) = 12 \<or>
      isWhiteSpace (dropWhile isWhiteSpace (drop 18 s) ! 12))"
proof -
  define A where "A \<longleftrightarrow> take 18 s = CheckpointTrailerKey @ '':''"
  define B where "B \<longleftrightarrow>
     12 \<le> length (dropWhile isWhiteSpace (drop 18 s)) \<and>
     list_all isHex (take 12 (dropWhile isWhiteSpace (drop 18 s))) \<and>
     (length (dropWhile isWhiteSpace (drop 18 s)) = 12 \<or>
      isWhiteSpace (dropWhile isWhiteSpace (drop 18 s) ! 12))"
  have "matchCheckpointAt s =
     (if A then (if B then Some (take 12 (dropWhile isWhiteSpace (drop 18 s))) else None) else None)"
    unfolding matchCheckpointAt_def startsWith_def Let_def key_plain(2) A_def B_def
    by (rule refl)
  then have "matchCheckpointAt s \<noteq> None \<longleftrightarrow> A \<and> B"
    by simp
  then show ?thesis
    unfolding A_def B_def .
qed

lemma match_local:
  assumes m: "matchCheckpointAt (u @ CHR 0x0A # CHR 0x0A # CHR ''R'' # z) \<noteq> None"
    and rest: "rest = [] \<or> (\<exists>y. rest = CHR 0x0A # y)"
  shows "matchCheckpointAt (u @ rest) \<noteq> None"
proof -
  let ?key = "CheckpointTrailerKey @ '':''"
  let ?S = "CHR 0x0A # CHR 0x0A # CHR ''R'' # z"
  let ?r = "dropWhile isWhiteSpace (drop 18 (u @ ?S))"
  from m[unfolded match_iff] have sw: "take 18 (u @ ?S) = ?key"
    and h1: "12 \<le> length ?r" and h2: "list_all isHex (take 12 ?r)"
    and h3: "length ?r = 12 \<or> isWhiteSpace (?r ! 12)"
    by blast+
  from take_append_newline[OF sw key_plain(1)]
  have lu: "18 \<le> length u" and ku: "take 18 u = ?key" by blast+
  define u1 where "u1 = drop 18 u"
  have d: "drop 18 (u @ x) = u1 @ x" for x
    using lu by (simp add: u1_def)
  have nws: "\<exists>c \<in> set u1. \<not> isWhiteSpace c"
  proof (rule ccontr)
    assume "\<not> (\<exists>c \<in> set u1. \<not> isWhiteSpace c)"
    then have "dropWhile isWhiteSpace (u1 @ ?S) = dropWhile isWhiteSpace ?S"
      by (simp add: dropWhile_append)
    moreover have "dropWhile isWhiteSpace ?S = CHR ''R'' # z"
      by (simp add: isWhiteSpace_def)
    ultimately have "?r = CHR ''R'' # z"
      by (simp only: d)
    with h1 h2 show False by (simp add: isHex_def)
  qed
  define v where "v = dropWhile isWhiteSpace u1"
  have r: "dropWhile isWhiteSpace (u1 @ x) = v @ x" for x
    using nws by (auto simp: v_def dropWhile_append)
  have rv: "?r = v @ ?S" by (simp only: d r)
  from h2 have lv: "12 \<le> length v"
    unfolding rv by (rule take_hex_newline)
  have hx: "list_all isHex (take 12 v)"
    using h2 lv unfolding rv by simp
  have tm: "length v = 12 \<or> isWhiteSpace (v ! 12)"
    using h3 lv unfolding rv by (cases "12 < length v") (auto simp: nth_append)
  have sw': "take 18 (u @ rest) = ?key" using lu ku by simp
  have r': "dropWhile isWhiteSpace (drop 18 (u @ rest)) = v @ rest"
    by (simp only: d r)
  have nl: "isWhiteSpace (CHR 0x0A)" by (simp add: isWhiteSpace_def)
  have t': "length (v @ rest) = 12 \<or> isWhiteSpace ((v @ rest) ! 12)"
  proof (cases "length v = 12")
    case True
    with rest nl show ?thesis by (auto simp: nth_append)
  next
    case False
    with tm lv show ?thesis by (simp add: nth_append)
  qed
  have l': "12 \<le> length (v @ rest)" using lv by simp
  have hx': "list_all isHex (take 12 (v @ rest))" using hx lv by simp
  show ?thesis
    unfolding match_iff r'
    using sw' l' hx' t' by blast
qed

lemma joinNL_inject:
  "joinNL ([[], t, []] @ ys) = CHR 0x0A # t @ CHR 0x0A # joinNL ([] # ys)"
  by (cases ys) auto

lemma joinNL_blank_head:
  "joinNL ([] # ys) = (if ys = [] then [] else CHR 0x0A # joinNL ys)"
  by (cases ys) auto

lemma hex_not_R: "isHex c \<Longrightarrow> c \<noteq> CHR ''R''"
  by (auto simp: isHex_def)

lemma trailer_no_R:
  assumes "validateCheckpointID ident"
  shows "\<forall>c \<in> set (''unlog-Checkpoint: '' @ ident). c \<noteq> CHR ''R''"
proof -
  from assms have "list_all isHex ident" by (simp add: validateCheckpointID_def)
  then have a: "\<forall>c \<in> set ident. c \<noteq> CHR ''R''"
    by (simp add: list_all_iff hex_not_R)
  have b: "\<forall>c \<in> set ''unlog-Checkpoint: ''. c \<noteq> CHR ''R''"
    by simp
  show ?thesis
    unfolding set_append using a b by blast
qed

lemma count_skip:
  "c \<noteq> CHR ''R'' \<Longrightarrow> countCheckpointTrailers (c # s) = countCheckpointTrailers s"
  using match_head[of c s] by (cases "matchCheckpointAt (c # s)") auto

lemma count_trailer:
  assumes v: "validateCheckpointID ident" and q: "countCheckpointTrailers Q = 0"
  shows "countCheckpointTrailers ((CheckpointTrailerKey @ '': '' @ ident) @ CHR 0x0A # Q) = 1"
proof -
  define X where "X = ''unlog-Checkpoint: '' @ ident"
  have t: "(CheckpointTrailerKey @ '': '' @ ident) @ CHR 0x0A # Q = CHR ''R'' # (X @ CHR 0x0A # Q)"
    by (simp add: CheckpointTrailerKey_def X_def)
  have m: "matchCheckpointAt (CHR ''R'' # (X @ CHR 0x0A # Q)) \<noteq> None"
    using match_trailer[OF v, of Q] by (simp add: CheckpointTrailerKey_def X_def)
  have "countCheckpointTrailers (X @ CHR 0x0A # Q) = countCheckpointTrailers (CHR 0x0A # Q)"
    using trailer_no_R[OF v] unfolding X_def by (rule count_no_R)
  also have "\<dots> = countCheckpointTrailers Q"
    by (rule count_skip) simp
  finally have r: "countCheckpointTrailers (X @ CHR 0x0A # Q) = 0"
    using q by simp
  have "countCheckpointTrailers (CHR ''R'' # (X @ CHR 0x0A # Q))
          = (if matchCheckpointAt (CHR ''R'' # (X @ CHR 0x0A # Q)) \<noteq> None then 1 else 0)
            + countCheckpointTrailers (X @ CHR 0x0A # Q)"
    by (rule countCheckpointTrailers.simps(2))
  with m r show ?thesis
    unfolding t by simp
qed

lemma inject_count:
  assumes v: "validateCheckpointID ident" and n: "execCheckpointRegex m = None"
  shows "countCheckpointTrailers (injectCheckpointTrailer m (CheckpointTrailerKey @ '': '' @ ident)) = 1"
proof -
  define T where "T = CheckpointTrailerKey @ '': '' @ ident"
  define ls where "ls = splitNL m"
  define i where "i = insertIndex ls"
  define bs where "bs = popBlank (take i ls)"
  define as where "as = drop i ls"
  define Q where "Q = joinNL ([] # as)"
  obtain bl where bl: "take i ls = bs @ bl"
    unfolding bs_def using popBlank_split by blast
  have "ls = (bs @ bl) @ as"
    unfolding bl[symmetric] as_def by simp
  then have m: "m = joinNL ((bs @ bl) @ as)"
    using joinNL_splitNL[of m] unfolding ls_def[symmetric] by simp
  have m0: "countCheckpointTrailers m = 0"
    using n by (simp add: count_zero_exec)
  have q: "countCheckpointTrailers Q = 0"
  proof (cases "as = []")
    case True
    then show ?thesis by (simp add: Q_def)
  next
    case False
    then have "m = (if bs @ bl = [] then joinNL as else joinNL (bs @ bl) @ CHR 0x0A # joinNL as)"
      unfolding m by (rule joinNL_append)
    then obtain p where "m = p @ joinNL as"
      by (cases "bs @ bl = []") (auto intro: that[of "[]"])
    then have "countCheckpointTrailers (joinNL as) = 0"
      using m0 count_suffix_zero by blast
    moreover have "Q = CHR 0x0A # joinNL as"
      using False by (simp add: Q_def joinNL_blank_head)
    ultimately show ?thesis
      using count_skip[of "CHR 0x0A" "joinNL as"] by simp
  qed
  have one: "countCheckpointTrailers (T @ CHR 0x0A # Q) = 1"
    unfolding T_def using v q by (rule count_trailer)
  have inj: "injectCheckpointTrailer m T = joinNL (bs @ [[], T, []] @ as)"
    unfolding injectCheckpointTrailer_def Let_def ls_def i_def bs_def as_def by (rule refl)
  have tail: "joinNL ([[], T, []] @ as) = CHR 0x0A # T @ CHR 0x0A # Q"
    unfolding Q_def by (rule joinNL_inject)
  have "countCheckpointTrailers (injectCheckpointTrailer m T) = 1"
  proof (cases "bs = []")
    case True
    then have "injectCheckpointTrailer m T = CHR 0x0A # T @ CHR 0x0A # Q"
      unfolding inj using tail by simp
    then show ?thesis
      using one count_skip[of "CHR 0x0A" "T @ CHR 0x0A # Q"] by simp
  next
    case False
    define B where "B = joinNL bs"
    define X where "X = ''unlog-Checkpoint: '' @ ident"
    define Z where "Z = X @ CHR 0x0A # Q"
    have TR: "T = CHR ''R'' # X"
      by (simp add: T_def X_def CheckpointTrailerKey_def)
    have "joinNL (bs @ ([[], T, []] @ as)) = joinNL bs @ CHR 0x0A # joinNL ([[], T, []] @ as)"
      using False joinNL_append[of "[[], T, []] @ as" bs] by simp
    then have e: "injectCheckpointTrailer m T = B @ CHR 0x0A # CHR 0x0A # T @ CHR 0x0A # Q"
      unfolding inj B_def tail by simp
    have S: "CHR 0x0A # CHR 0x0A # T @ CHR 0x0A # Q = CHR 0x0A # CHR 0x0A # CHR ''R'' # Z"
      unfolding Z_def TR by simp
    obtain rest where mr: "m = B @ rest" and rest: "rest = [] \<or> (\<exists>y. rest = CHR 0x0A # y)"
    proof (cases "bl @ as = []")
      case True
      then have "m = B @ []" unfolding m B_def by simp
      then show ?thesis using that by blast
    next
      case F: False
      have "joinNL (bs @ (bl @ as)) = joinNL bs @ CHR 0x0A # joinNL (bl @ as)"
        using False F joinNL_append[of "bl @ as" bs] by simp
      then have "m = B @ CHR 0x0A # joinNL (bl @ as)"
        unfolding m B_def by simp
      then show ?thesis using that by blast
    qed
    have none: "\<forall>k < length B. matchCheckpointAt (drop k B @ CHR 0x0A # CHR 0x0A # T @ CHR 0x0A # Q) = None"
    proof (intro allI impI, rule ccontr)
      fix k assume "k < length B"
        and "matchCheckpointAt (drop k B @ CHR 0x0A # CHR 0x0A # T @ CHR 0x0A # Q) \<noteq> None"
      then have "matchCheckpointAt (drop k B @ CHR 0x0A # CHR 0x0A # CHR ''R'' # Z) \<noteq> None"
        unfolding S by simp
      then have "matchCheckpointAt (drop k B @ rest) \<noteq> None"
        using rest by (rule match_local)
      then have "execCheckpointRegex (drop k B @ rest) \<noteq> None"
        by (rule exec_at)
      then have "execCheckpointRegex (take k B @ (drop k B @ rest)) \<noteq> None"
        by (rule exec_suffix)
      moreover have "take k B @ (drop k B @ rest) = m"
        unfolding mr by (simp only: append_assoc[symmetric] append_take_drop_id)
      ultimately show False using n by simp
    qed
    have "countCheckpointTrailers (B @ CHR 0x0A # CHR 0x0A # T @ CHR 0x0A # Q)
            = countCheckpointTrailers (CHR 0x0A # CHR 0x0A # T @ CHR 0x0A # Q)"
      using none by (rule count_prefix)
    also have "\<dots> = countCheckpointTrailers (CHR 0x0A # T @ CHR 0x0A # Q)"
      by (rule count_skip) simp
    also have "\<dots> = countCheckpointTrailers (T @ CHR 0x0A # Q)"
      by (rule count_skip) simp
    finally show ?thesis unfolding e using one by simp
  qed
  then show ?thesis unfolding T_def .
qed

lemma generateID_valid: "validateCheckpointID (generateID b)"
  by (simp add: validateCheckpointID_def generateID_def list_all_iff hexDigit_isHex)


lemma findSessionsForCommit_eq:
  "findSessionsForCommit w sha =
     (w\<lparr>sessions := filter (\<lambda>(k, s). \<not> isStale (nowMs w) s) (sessions w)\<rparr>,
      filter (\<lambda>s. baseCommit s = sha) (map snd (filter (\<lambda>(k, s). \<not> isStale (nowMs w) s) (sessions w))))"
  by (simp add: findSessionsForCommit_def listAllSessions_def storeList_def Let_def)

lemma findSessionsForCommit_again:
  assumes "findSessionsForCommit w sha = (w1, found)"
  shows "findSessionsForCommit w1 sha = (w1, found)"
  using assms by (auto simp: findSessionsForCommit_eq)

lemma drawID_frame:
  assumes "drawID w = (w2, ident)"
  shows "proj w2 = proj w" "sessionRepo w2 = sessionRepo w" "sessions w2 = sessions w"
    "files w2 = files w" "nowMs w2 = nowMs w" "validateCheckpointID ident"
  using assms by (auto simp: drawID_def generateID_valid)

text \<open>The three ways \<open>prepareCommitMsg\<close> returns.\<close>

lemma prepareCommitMsg_cases:
  assumes "prepareCommitMsg e w f src = Some w'"
  obtains (early) m where "files w f = Some m" and "w' = w"
      and "src = ''merge'' \<or> (src = ''commit'' \<and> parseCheckpoint m \<noteq> None)"
  | (listed) m where "files w f = Some m" and "src \<noteq> ''merge''"
      and "src = ''commit'' \<longrightarrow> parseCheckpoint m = None"
      and "w' = fst (findSessionsForCommit w (HEAD (proj w)))"
  | (injected) m w2 ident where "files w f = Some m" and "src \<noteq> ''merge''"
      and "src = ''commit'' \<longrightarrow> parseCheckpoint m = None"
      and "validateCheckpointID ident"
      and "proj w2 = proj w" and "sessionRepo w2 = sessionRepo w" and "nowMs w2 = nowMs w"
      and "sessions w2 = sessions (fst (findSessionsForCommit w (HEAD (proj w))))"
      and "files w2 = files w"
      and "w' = w2\<lparr>files := (files w)(f \<mapsto> injectCheckpointTrailer m (CheckpointTrailerKey @ '': '' @ ident))\<rparr>"
proof -
  from assms obtain m where m: "files w f = Some m"
    by (auto simp: prepareCommitMsg_def split: option.splits)
  show ?thesis
  proof (cases "src = ''merge'' \<or> (src = ''commit'' \<and> parseCheckpoint m \<noteq> None)")
    case True
    with assms m have "w' = w" by (auto simp: prepareCommitMsg_def)
    with m True show ?thesis by (intro early[of m]) auto
  next
    case False
    obtain w1 found where fs: "findSessionsForCommit w (HEAD (proj w)) = (w1, found)"
      by (cases "findSessionsForCommit w (HEAD (proj w))")
    have w1: "proj w1 = proj w" "sessionRepo w1 = sessionRepo w" "nowMs w1 = nowMs w" "files w1 = files w"
      using fs by (auto simp: findSessionsForCommit_eq)
    from False have nm: "src \<noteq> ''merge''" and np: "src = ''commit'' \<longrightarrow> parseCheckpoint m = None"
      by auto
    have "w' = w1 \<or> (\<exists>w2 ident. validateCheckpointID ident \<and> proj w2 = proj w1 \<and>
          sessionRepo w2 = sessionRepo w1 \<and> nowMs w2 = nowMs w1 \<and> sessions w2 = sessions w1 \<and>
          files w2 = files w1 \<and>
          w' = w2\<lparr>files := (files w2)(f \<mapsto> injectCheckpointTrailer m (CheckpointTrailerKey @ '': '' @ ident))\<rparr>)"
      using assms m False fs
      by (auto simp: prepareCommitMsg_def Let_def getHead_def
          dest: drawID_frame split: option.splits if_splits prod.splits)
    then show ?thesis
    proof
      assume "w' = w1"
      with m nm np fs show ?thesis by (intro listed[of m]) auto
    next
      assume "\<exists>w2 ident. validateCheckpointID ident \<and> proj w2 = proj w1 \<and>
          sessionRepo w2 = sessionRepo w1 \<and> nowMs w2 = nowMs w1 \<and> sessions w2 = sessions w1 \<and>
          files w2 = files w1 \<and>
          w' = w2\<lparr>files := (files w2)(f \<mapsto> injectCheckpointTrailer m (CheckpointTrailerKey @ '': '' @ ident))\<rparr>"
      then obtain w2 ident where "validateCheckpointID ident" "proj w2 = proj w1"
          "sessionRepo w2 = sessionRepo w1" "nowMs w2 = nowMs w1" "sessions w2 = sessions w1"
          "files w2 = files w1"
          "w' = w2\<lparr>files := (files w2)(f \<mapsto> injectCheckpointTrailer m (CheckpointTrailerKey @ '': '' @ ident))\<rparr>"
        by blast
      with m nm np w1 fs show ?thesis by (intro injected[of m ident w2]) auto
    qed
  qed
qed


text \<open>
  Claim C10, as amended. \<open>prepareCommitMsg\<close> creates and modifies no record of the session
  store: afterwards the store is the store as it was, or, once the sessions have been
  listed, the store without its stale sessions, which listing unlinks. The repositories are
  unchanged and the only file written is the message file, so a freshly generated
  checkpoint id reaches no session record.
\<close>

theorem prepareCommitMsg_store:
  assumes "prepareCommitMsg e w f src = Some w'"
  shows "proj w' = proj w \<and> sessionRepo w' = sessionRepo w \<and>
         (\<forall>p. p \<noteq> f \<longrightarrow> files w' p = files w p) \<and>
         (sessions w' = sessions w \<or>
          sessions w' = filter (\<lambda>(k, s). \<not> isStale (nowMs w) s) (sessions w)) \<and>
         set (sessions w') \<subseteq> set (sessions w)"
  using assms
proof (cases rule: prepareCommitMsg_cases)
  case (early m)
  then show ?thesis by simp
next
  case (listed m)
  then show ?thesis by (auto simp: findSessionsForCommit_eq)
next
  case (injected m w2 ident)
  then show ?thesis by (auto simp: findSessionsForCommit_eq)
qed

text \<open>
  Claim C5, as amended. For a merge and for an amend (source \<^verbatim>\<open>commit\<close>), a second call
  of \<open>prepareCommitMsg\<close> on the result of the first changes nothing: it returns the same
  world, so the message file has the contents it had after one call. A message that already
  carries a checkpoint trailer is left as it is. A message the call changes carried no
  checkpoint trailer and carries exactly one afterwards; so the result carries at most one
  whenever the message handed in carried at most one.
\<close>

theorem prepareCommitMsg_twice:
  assumes src: "src = ''merge'' \<or> src = ''commit''"
    and first: "prepareCommitMsg e w f src = Some w1"
  shows "prepareCommitMsg e w1 f src = Some w1 \<and>
         (\<forall>m. files w f = Some m \<and> parseCheckpoint m \<noteq> None \<longrightarrow> w1 = w) \<and>
         (files w1 f \<noteq> files w f \<longrightarrow> (\<exists>m. files w1 f = Some m \<and> parseCheckpoint m \<noteq> None)) \<and>
         (\<exists>m m1. files w f = Some m \<and> files w1 f = Some m1 \<and>
                 (m1 = m \<or> (countCheckpointTrailers m = 0 \<and> countCheckpointTrailers m1 = 1)) \<and>
                 (countCheckpointTrailers m \<le> 1 \<longrightarrow> countCheckpointTrailers m1 \<le> 1))"
proof (intro conjI)
  show "\<forall>m. files w f = Some m \<and> parseCheckpoint m \<noteq> None \<longrightarrow> w1 = w"
  proof (intro allI impI)
    fix m assume "files w f = Some m \<and> parseCheckpoint m \<noteq> None"
    with first src show "w1 = w"
      by (cases "src = ''merge''") (simp_all add: prepareCommitMsg_def)
  qed
  from first show "prepareCommitMsg e w1 f src = Some w1"
  proof (cases rule: prepareCommitMsg_cases)
    case (early m)
    with first show ?thesis by simp
  next
    case (listed m)
    obtain found where fs: "findSessionsForCommit w (HEAD (proj w)) = (w1, found)"
      using listed(4) by (cases "findSessionsForCommit w (HEAD (proj w))") simp
    have again: "findSessionsForCommit w1 (HEAD (proj w)) = (w1, found)"
      using fs by (rule findSessionsForCommit_again)
    have fr: "files w1 f = Some m" "proj w1 = proj w"
      using fs listed(1) by (auto simp: findSessionsForCommit_eq)
    from listed src have c: "src = ''commit''" and np: "parseCheckpoint m = None" by auto
    have a: "prepareCommitMsg e w f ''commit'' =
             (if found = [] then Some w1
              else (case map_option trimEnd (stagedNames (proj w)) of
                            None \<Rightarrow> Some w1
                          | Some stagedOutput \<Rightarrow>
                              if stagedOutput = [] then Some w1
                              else (let stagedFiles =
                                          filter (\<lambda>f. f \<noteq> []) (splitNL (trim stagedOutput))
                                    in if stagedFiles = [] then Some w1
                                       else (case findOverlapping e (proj w) stagedFiles found of
                                               None \<Rightarrow> Some w1
                                             | Some overlappingSession \<Rightarrow>
                                                 (case (case lastCheckpointID overlappingSession of
                                                          Some l \<Rightarrow>
                                                            if l \<noteq> [] \<and> validateCheckpointID l
                                                            then (w1, l) else drawID w1
                                                        | None \<Rightarrow> drawID w1) of
                                                    (w2, cpID) \<Rightarrow>
                                                      (let trailer = CheckpointTrailerKey @ '': '' @ cpID;
                                                           injected = injectCheckpointTrailer m trailer
                                                       in Some (w2\<lparr>files := (files w2)(f \<mapsto> injected)\<rparr>)))))))"
      unfolding prepareCommitMsg_def getHead_def Let_def
      by (simp only: listed(1) np fs fr(2) option.case prod.case simp_thms if_False)
         (simp add: Let_def)
    have b: "prepareCommitMsg e w1 f ''commit'' =
             (if found = [] then Some w1
              else (case map_option trimEnd (stagedNames (proj w)) of
                            None \<Rightarrow> Some w1
                          | Some stagedOutput \<Rightarrow>
                              if stagedOutput = [] then Some w1
                              else (let stagedFiles =
                                          filter (\<lambda>f. f \<noteq> []) (splitNL (trim stagedOutput))
                                    in if stagedFiles = [] then Some w1
                                       else (case findOverlapping e (proj w) stagedFiles found of
                                               None \<Rightarrow> Some w1
                                             | Some overlappingSession \<Rightarrow>
                                                 (case (case lastCheckpointID overlappingSession of
                                                          Some l \<Rightarrow>
                                                            if l \<noteq> [] \<and> validateCheckpointID l
                                                            then (w1, l) else drawID w1
                                                        | None \<Rightarrow> drawID w1) of
                                                    (w2, cpID) \<Rightarrow>
                                                      (let trailer = CheckpointTrailerKey @ '': '' @ cpID;
                                                           injected = injectCheckpointTrailer m trailer
                                                       in Some (w2\<lparr>files := (files w2)(f \<mapsto> injected)\<rparr>)))))))"
      unfolding prepareCommitMsg_def getHead_def Let_def
      by (simp only: fr np again option.case prod.case simp_thms if_False)
         (simp add: Let_def)
    from a b first c show ?thesis by simp
  next
    case (injected m w2 ident)
    let ?inj = "injectCheckpointTrailer m (CheckpointTrailerKey @ '': '' @ ident)"
    from injected src have c: "src = ''commit''" by simp
    have f1: "files w1 f = Some ?inj" using injected by simp
    have p: "parseCheckpoint ?inj \<noteq> None" using injected(4) by (rule parse_injected)
    show ?thesis
      using f1 p c by (simp add: prepareCommitMsg_def)
  qed
  from first show "files w1 f \<noteq> files w f \<longrightarrow> (\<exists>m. files w1 f = Some m \<and> parseCheckpoint m \<noteq> None)"
  proof (cases rule: prepareCommitMsg_cases)
    case (early m)
    then show ?thesis by simp
  next
    case (listed m)
    then show ?thesis by (simp add: findSessionsForCommit_eq)
  next
    case (injected m w2 ident)
    then show ?thesis using parse_injected[OF injected(4), of m] by simp
  qed
  from first show "\<exists>m m1. files w f = Some m \<and> files w1 f = Some m1 \<and>
                 (m1 = m \<or> (countCheckpointTrailers m = 0 \<and> countCheckpointTrailers m1 = 1)) \<and>
                 (countCheckpointTrailers m \<le> 1 \<longrightarrow> countCheckpointTrailers m1 \<le> 1)"
  proof (cases rule: prepareCommitMsg_cases)
    case (early m)
    then show ?thesis by auto
  next
    case (listed m)
    then have "files w1 f = Some m" by (simp add: findSessionsForCommit_eq)
    with listed(1) show ?thesis by auto
  next
    case (injected m w2 ident)
    let ?inj = "injectCheckpointTrailer m (CheckpointTrailerKey @ '': '' @ ident)"
    from injected src have "parseCheckpoint m = None" by simp
    then have n: "execCheckpointRegex m = None" by (simp add: parseCheckpoint_exec)
    then have c0: "countCheckpointTrailers m = 0" by (simp add: count_zero_exec)
    have c1: "countCheckpointTrailers ?inj = 1"
      using injected(4) n by (rule inject_count)
    have f1: "files w1 f = Some ?inj" using injected by simp
    from injected(1) f1 c0 c1 show ?thesis by auto
  qed
qed

subsection \<open>Shadow branch migration\<close>

text \<open>
  What the migration does hold to: on a step where the base commit of the session is set and
  differs from \<^verbatim>\<open>HEAD\<close>, it returns with the base commit set to \<^verbatim>\<open>HEAD\<close> and reports
  a migration, whatever the rename did, and the session is persisted with that base commit.
  When the two derived names coincide or the old shadow ref is gone, nothing but the base
  commit changes.
\<close>

lemma migration_sets_baseCommit:
  assumes ne: "baseCommit state \<noteq> []" and moved: "baseCommit state \<noteq> HEAD (proj w)"
  shows "\<exists>w'. migrateShadowBranchIfNeeded w state = (w', state\<lparr>baseCommit := HEAD (proj w)\<rparr>, True) \<and>
           HEAD (proj w') = HEAD (proj w) \<and> sessions w' = sessions w \<and>
           (getShadowBranchName (baseCommit state) (worktreeID state)
              = getShadowBranchName (HEAD (proj w)) (worktreeID state) \<or>
            \<not> refExists (proj w)
                 (''refs/heads/'' @ getShadowBranchName (baseCommit state) (worktreeID state))
            \<longrightarrow> w' = w) \<and>
           migrateAndPersist w state
             = (saveSession w' (state\<lparr>baseCommit := HEAD (proj w)\<rparr>),
                state\<lparr>baseCommit := HEAD (proj w)\<rparr>) \<and>
           map_of (sessions (fst (migrateAndPersist w state))) (sessionID state)
             = Some (state\<lparr>baseCommit := HEAD (proj w)\<rparr>)"
proof -
  obtain w' s' m where mg: "migrateShadowBranchIfNeeded w state = (w', s', m)"
    by (cases "migrateShadowBranchIfNeeded w state")
  from mg ne moved have m: "m" and s': "s' = state\<lparr>baseCommit := HEAD (proj w)\<rparr>"
    using migrate_head[OF mg] by auto
  have frame: "HEAD (proj w') = HEAD (proj w)" "sessions w' = sessions w"
    using migrate_head[OF mg] by auto
  have same: "w' = w"
    if "getShadowBranchName (baseCommit state) (worktreeID state)
              = getShadowBranchName (HEAD (proj w)) (worktreeID state) \<or>
            \<not> refExists (proj w)
                 (''refs/heads/'' @ getShadowBranchName (baseCommit state) (worktreeID state))"
    using mg that ne moved
    by (auto simp: migrateShadowBranchIfNeeded_def Let_def getHead_def split: if_splits)
  have mp: "migrateAndPersist w state
             = (saveSession w' (state\<lparr>baseCommit := HEAD (proj w)\<rparr>),
                state\<lparr>baseCommit := HEAD (proj w)\<rparr>)"
    using mg m s' by (simp add: migrateAndPersist_def)
  have st: "map_of (sessions (fst (migrateAndPersist w state))) (sessionID state)
             = Some (state\<lparr>baseCommit := HEAD (proj w)\<rparr>)"
    using mp by (simp add: saveSession_def storeSave_def update_conv')
  show ?thesis
    using mg m s' frame same mp st by auto
qed

text \<open>
  The rename never reaches its target: whatever the state, the reference named for the new
  \<^verbatim>\<open>HEAD\<close> is after the migration what it was before.
\<close>

lemma migration_never_renames:
  "map_of (refs (proj (fst (migrateShadowBranchIfNeeded w state))))
     (''refs/heads/'' @ getShadowBranchName (HEAD (proj w)) (worktreeID state))
   = map_of (refs (proj w))
       (''refs/heads/'' @ getShadowBranchName (HEAD (proj w)) (worktreeID state))"
proof -
  have a: "''refs/heads/'' @ ''refs/heads/'' @ n \<noteq> ''refs/heads/'' @ n" for n :: string
    by simp
  show ?thesis
    unfolding migrateShadowBranchIfNeeded_def Let_def getHead_def
    by (auto simp: updateRef_def deleteBranch_def update_conv' delete_conv' a
        split: option.splits if_splits)
qed

section \<open>The properties on the example repository\<close>

lemma trim_id: "trim ''aaaaaaa1'' = ''aaaaaaa1''"
  by code_simp

lemma ex_found:
  "findSessionsForCommit (exWorld [(''s1'', exSession ''s1'' ''aaaaaaa1'')]) ''aaaaaaa1''
     = (exWorld [(''s1'', exSession ''s1'' ''aaaaaaa1'')], [exSession ''s1'' ''aaaaaaa1''])"
  by (simp add: findSessionsForCommit_def listAllSessions_def storeList_def exWorld_def
      exSession_def isStale_def)

text \<open>
  One session at the parent of \<^verbatim>\<open>HEAD\<close>: after \<open>postCommit\<close> it is stored at the new
  \<^verbatim>\<open>HEAD\<close> with its counters reset, and its shadow ref is gone.
\<close>

theorem postCommit_persists_witness:
  "\<exists>w'. postCommit exEnv (exWorld [(''s1'', exSession ''s1'' ''aaaaaaa1'')]) = Some w' \<and>
     map_of (sessions w') ''s1''
       = Some ((exSession ''s1'' ''aaaaaaa1'')
            \<lparr>baseCommit := ''bbbbbbb1'', stepCount := 0, SessionState.filesTouched := [],
             promptAttributions := Some [], lastCheckpointID := Some ''abc123def456''\<rparr>) \<and>
     map_of (refs (proj w')) ''refs/heads/entire/aaaaaaa'' = None"
proof -
  let ?S = "exSession ''s1'' ''aaaaaaa1''"
  let ?W = "exWorld [(''s1'', ?S)]"
  let ?hc = "\<lparr> tree = exTree1, parents = [''aaaaaaa1''],
                       message = ''fix: a'' @ [CHR 0x0A, CHR 0x0A] @
                                 ''Runlog-Checkpoint: abc123def456'' @ [CHR 0x0A],
                       author = exAlice, committer = exAlice \<rparr>"
  have hd: "HEAD (proj ?W) = ''bbbbbbb1''" by (simp add: exWorld_def exRepo_def)
  have h1: "map_of (commits (proj ?W)) ''bbbbbbb1'' = Some ?hc"
    by (simp add: exWorld_def exRepo_def exCommits_def)
  have h2: "parseCheckpoint (trimEnd (message ?hc)) = Some ''abc123def456''"
    by code_simp
  have h3: "parents ?hc = ''aaaaaaa1'' # []" by simp
  have h4: "''aaaaaaa1'' \<noteq> []" by simp
  have h5: "findSessionsForCommit ?W (trim ''aaaaaaa1'') = (?W, [?S])"
    by (simp only: trim_id ex_found)
  have h6: "diffNameOnly (proj ?W) (''bbbbbbb1'' @ ''^'') ''bbbbbbb1'' = ([], [''a.txt''], [])"
    by code_simp
  have h7: "distinct (map sessionID [?S])" by simp
  have h8: "(0::nat) < length [?S]" by simp
  have s0: "[?S] ! 0 = ?S" by simp
  have lp: "postCommitLoop exEnv ''abc123def456'' ''bbbbbbb1'' ''aaaaaaa1''
                (set ([] @ [''a.txt''] @ [])) ?W (take 0 [?S]) = ?W"
    by (simp add: postCommitLoop_def)
  have n: "getShadowBranchName (baseCommit ?S) (worktreeID ?S) = ''entire/aaaaaaa''"
    by code_simp
  have g1: "stepCount ?S \<noteq> 0" by (simp add: exSession_def)
  have g2: "SessionState.filesTouched ?S \<noteq> []" by (simp add: exSession_def)
  have g3: "refExists (proj ?W) (''refs/heads/'' @ ''entire/aaaaaaa'')"
    by code_simp
  have g4: "filesOverlapWithContent exEnv (proj ?W) ''entire/aaaaaaa'' ''bbbbbbb1'' ''aaaaaaa1''
              (SessionState.filesTouched ?S)"
    by (simp add: exEnv_def)
  have r: "filesWithRemainingAgentChanges exEnv
             (proj (tryCondense exEnv ?W ?S ''abc123def456'' (set ([] @ [''a.txt''] @ []))))
             ''entire/aaaaaaa'' ''bbbbbbb1'' (SessionState.filesTouched ?S)
             (set ([] @ [''a.txt''] @ [])) = []"
    by (simp add: exEnv_def exSession_def)
  have c: "''entire/aaaaaaa'' \<noteq> cpBranch exEnv" by code_simp
  have cur: "currentBranch (proj ?W) \<noteq> Some ''entire/aaaaaaa''"
    by (simp add: exWorld_def exRepo_def)
  have sid: "sessionID ?S = ''s1''" by (simp add: exSession_def)
  have inst: "\<exists>w'. postCommit exEnv ?W = Some w' \<and> baseCommit ?S = ''aaaaaaa1'' \<and>
     map_of (sessions w') ''s1''
       = Some (?S\<lparr>baseCommit := ''bbbbbbb1'', stepCount := 0, SessionState.filesTouched := [],
             promptAttributions := Some [], lastCheckpointID := Some ''abc123def456''\<rparr>) \<and>
     ([] = ([]::string list) \<and> currentBranch (proj ?W) \<noteq> Some ''entire/aaaaaaa'' \<and>
      (sessionRepo ?W \<noteq> None \<or> ''entire/aaaaaaa'' \<noteq> cpBranch exEnv)
        \<longrightarrow> map_of (refs (proj w')) (''refs/heads/'' @ ''entire/aaaaaaa'') = None)"
    using postCommit_persists[of ?W ?hc "''abc123def456''" "''aaaaaaa1''" "[]" ?W "[?S]"
        "[]" "[''a.txt'']" "[]" 0 exEnv]
    unfolding hd trim_id s0 lp n r sid
    using h1 h2 h3 h4 h5[unfolded trim_id] h6 h7 h8 g1 g2 g3 g4
    by blast
  then show ?thesis
    using c cur by auto
qed


text \<open>
  Two sessions at the parent of \<^verbatim>\<open>HEAD\<close> share the shadow ref \<open>entire/aaaaaaa\<close>. The
  first is promoted and its shadow ref deleted; when the loop reaches the second, the ref no
  longer exists and the session is skipped: it stays stored as it was, at the old base
  commit and with its step count.
\<close>

theorem postCommit_shared_shadow_counterexample:
  "baseCommit (exSession ''s2'' ''aaaaaaa1'') = ''aaaaaaa1'' \<and>
   stepCount (exSession ''s2'' ''aaaaaaa1'') = 1 \<and>
   SessionState.filesTouched (exSession ''s2'' ''aaaaaaa1'') = [''a.txt''] \<and>
   refExists exRepo (''refs/heads/'' @ getShadowBranchName ''aaaaaaa1'' None) \<and>
   filesOverlapWithContent exEnv exRepo ''entire/aaaaaaa'' ''bbbbbbb1'' ''aaaaaaa1'' [''a.txt''] \<and>
   map_option (\<lambda>w. map_of (sessions w) ''s2'')
     (postCommit exEnv (exWorld [(''s1'', exSession ''s1'' ''aaaaaaa1''),
                                 (''s2'', exSession ''s2'' ''aaaaaaa1'')]))
     = Some (Some (exSession ''s2'' ''aaaaaaa1''))"
  by code_simp

text \<open>
  A promotion of a session that touched \<open>a.txt\<close> and \<open>c.txt\<close>, for a commit of \<open>a.txt\<close>
  and \<open>b.txt\<close>: the summary read back lists \<open>a.txt\<close>.
\<close>

theorem condenseSession_readCommitted_witness:
  "\<exists>w' res summary.
     condenseSession exEnv (exWorld [])
        ((exSession ''s1'' ''aaaaaaa1'')\<lparr>SessionState.filesTouched := [''a.txt'', ''c.txt'']\<rparr>)
        ''abc123def456'' (set [''a.txt'', ''b.txt'']) = Some (w', res) \<and>
     readCommitted (cpBranch exEnv) (committedRepo w') ''abc123def456'' = Some summary \<and>
     jsonField summary ''filesTouched'' = Some (JArr [JStr ''a.txt''])"
proof -
  have v: "validateCheckpointID ''abc123def456''" by code_simp
  have n: "\<not> refExists (committedRepo (exWorld [])) (''refs/heads/'' @ cpBranch exEnv)"
    by code_simp
  have f: "SessionState.filesTouched
             ((exSession ''s1'' ''aaaaaaa1'')\<lparr>SessionState.filesTouched := [''a.txt'', ''c.txt'']\<rparr>)
           = [''a.txt'', ''c.txt'']"
    by simp
  show ?thesis
    using condenseSession_readCommitted[of "''abc123def456''" "exWorld []" exEnv
        "(exSession ''s1'' ''aaaaaaa1'')\<lparr>SessionState.filesTouched := [''a.txt'', ''c.txt'']\<rparr>"
        "set [''a.txt'', ''b.txt'']"] v n
    unfolding f by simp
qed

lemma ex_step:
  "stepSession (exWorld [(''s1'', exSession ''s1'' ''bbbbbbb1'')]) exStep
     = (exWorld [(''s1'', exSession ''s1'' ''bbbbbbb1'')], exSession ''s1'' ''bbbbbbb1'')"
proof -
  have b: "basename (StepContext.metadataDir exStep) = ''s1''" by code_simp
  show ?thesis
    unfolding stepSession_def b Let_def
    by (simp add: loadSession_def storeLoad_def isStale_def exSession_def exWorld_def
        migrateAndPersist_def migrateShadowBranchIfNeeded_def getHead_def exRepo_def Let_def)
qed

text \<open>
  The shadow branch of \<^verbatim>\<open>HEAD\<close> has a tip whose tree is the tree of \<^verbatim>\<open>HEAD\<close>: the
  step is skipped and the world is as it was.
\<close>

theorem saveStep_dedup_witness:
  "writeTemporary ''t'' exRepo (exTemporaryOptions ''bbbbbbb1'')
     = Some (exRepo, \<lparr> commitHash = ''ccccccc1'', skipped = True \<rparr>) \<and>
   saveStep (exWorld [(''s1'', exSession ''s1'' ''bbbbbbb1'')]) exStep
     = (exWorld [(''s1'', exSession ''s1'' ''bbbbbbb1'')], Returned)"
proof -
  let ?S = "exSession ''s1'' ''bbbbbbb1''"
  let ?W = "exWorld [(''s1'', ?S)]"
  let ?o = "exTemporaryOptions ''bbbbbbb1''"
  have n: "getShadowBranchName (WriteTemporaryOptions.baseCommit ?o) (WriteTemporaryOptions.worktreeID ?o)
             = ''entire/bbbbbbb''" by code_simp
  have e: "refExists exRepo (''refs/heads/'' @ ''entire/bbbbbbb'')" by code_simp
  have t1: "getTreeHash exRepo (Branch ''entire/bbbbbbb'') = Some exTree1" by code_simp
  have t2: "getTreeHash exRepo Head = Some exTree1" by code_simp
  have rp: "revParse exRepo (Branch ''entire/bbbbbbb'') = Some ''ccccccc1''" by code_simp
  have p: "proj ?W = exRepo" by (simp add: exWorld_def)
  have b: "baseCommit ?S = WriteTemporaryOptions.baseCommit ?o"
    by (simp add: exSession_def exTemporaryOptions_def)
  have i: "worktreeID ?S = WriteTemporaryOptions.worktreeID ?o"
    by (simp add: exSession_def exTemporaryOptions_def)
  from saveStep_dedup[of exRepo ?o exTree1 "''t''"] e t1 t2
  have "(\<exists>tip. revParse exRepo (Branch ''entire/bbbbbbb'') = Some tip
            \<and> writeTemporary ''t'' exRepo ?o = Some (exRepo, \<lparr> commitHash = tip, skipped = True \<rparr>))
       \<and> (stepSession ?W exStep = (?W, ?S) \<and> proj ?W = exRepo \<and>
             baseCommit ?S = WriteTemporaryOptions.baseCommit ?o \<and>
             worktreeID ?S = WriteTemporaryOptions.worktreeID ?o
             \<longrightarrow> saveStep ?W exStep = (?W, Returned))"
    unfolding n by blast
  with ex_step p b i rp show ?thesis by auto
qed

lemma ex_writeTemporary:
  "map_option (\<lambda>(r, res). (skipped res, commitHash res,
                            map_option parents (map_of (commits r) (commitHash res))))
     (writeTemporary ''t'' (exRepo\<lparr>refs := [(''refs/heads/main'', ''bbbbbbb1'')]\<rparr>)
        (exTemporaryOptions ''aaaaaaa1''))
   = Some (False, ''eeeeeee1'', Some [''bbbbbbb1''])"
  by code_simp

text \<open>
  The repository has no shadow ref yet, \<^verbatim>\<open>HEAD\<close> is \<open>bbbbbbb1\<close>, and the options name
  the earlier commit \<open>aaaaaaa1\<close> as base commit. The parent of the new commit is
  \<^verbatim>\<open>HEAD\<close>, not the base commit of the options: \<open>createTemporaryCommit\<close> falls back
  on \<open>headHash\<close>.
\<close>

theorem writeTemporary_parent_counterexample:
  "\<not> refExists (exRepo\<lparr>refs := [(''refs/heads/main'', ''bbbbbbb1'')]\<rparr>)
        (''refs/heads/'' @ getShadowBranchName ''aaaaaaa1'' None) \<and>
   WriteTemporaryOptions.baseCommit (exTemporaryOptions ''aaaaaaa1'') = ''aaaaaaa1'' \<and>
   WriteTemporaryOptions.worktreeID (exTemporaryOptions ''aaaaaaa1'') = None \<and>
   map_option tree (map_of (commits exRepo) ''aaaaaaa1'') = Some exTree0 \<and>
   HEAD exRepo = ''bbbbbbb1'' \<and>
   map_option (\<lambda>(r, res). (skipped res, map_option parents (map_of (commits r) (commitHash res)),
                            map_of (refs r) ''refs/heads/entire/aaaaaaa''))
     (writeTemporary ''t'' (exRepo\<lparr>refs := [(''refs/heads/main'', ''bbbbbbb1'')]\<rparr>)
        (exTemporaryOptions ''aaaaaaa1''))
   = Some (False, Some [''bbbbbbb1''], Some ''eeeeeee1'')"
  by code_simp

theorem writeTemporary_parent_witness:
  "\<exists>r' res c. writeTemporary ''t'' (exRepo\<lparr>refs := [(''refs/heads/main'', ''bbbbbbb1'')]\<rparr>)
                  (exTemporaryOptions ''aaaaaaa1'') = Some (r', res) \<and>
     \<not> skipped res \<and> map_of (commits r') (commitHash res) = Some c \<and>
     parents c = [''bbbbbbb1'']"
proof -
  let ?r = "exRepo\<lparr>refs := [(''refs/heads/main'', ''bbbbbbb1'')]\<rparr>"
  let ?o = "exTemporaryOptions ''aaaaaaa1''"
  from ex_writeTemporary obtain r' res where
    w: "writeTemporary ''t'' ?r ?o = Some (r', res)" and s: "\<not> skipped res"
    by (auto split: prod.splits)
  have wf: "map_of (commits ?r) [] = None" by code_simp
  have n: "map_of (refs ?r) (''refs/heads/'' @ getShadowBranchName
              (WriteTemporaryOptions.baseCommit ?o) (WriteTemporaryOptions.worktreeID ?o)) = None"
    by code_simp
  have h: "HEAD ?r = ''bbbbbbb1''" by (simp add: exRepo_def)
  from writeTemporary_parent[OF w s wf]
  have "\<exists>c. map_of (commits r') (commitHash res) = Some c \<and> parents c = [''bbbbbbb1'']"
    unfolding n h by simp
  with w s show ?thesis by blast
qed

lemma ex_prepare_commit:
  "map_option (\<lambda>w. files w ''MSG'')
     (prepareCommitMsg exEnv (exWorld [(''s1'', exSession ''s1'' ''bbbbbbb1'')]) ''MSG'' ''commit'')
   = Some (Some (''fix: a'' @ [CHR 0x0A, CHR 0x0A] @ ''Runlog-Checkpoint: abc123def456'' @ [CHR 0x0A]))"
  by code_simp

theorem prepareCommitMsg_twice_witness:
  "\<exists>w1. prepareCommitMsg exEnv (exWorld [(''s1'', exSession ''s1'' ''bbbbbbb1'')]) ''MSG'' ''commit'' = Some w1 \<and>
     prepareCommitMsg exEnv w1 ''MSG'' ''commit'' = Some w1 \<and>
     files w1 ''MSG''
       = Some (''fix: a'' @ [CHR 0x0A, CHR 0x0A] @ ''Runlog-Checkpoint: abc123def456'' @ [CHR 0x0A]) \<and>
     map_option countCheckpointTrailers (files w1 ''MSG'') = Some 1"
proof -
  let ?W = "exWorld [(''s1'', exSession ''s1'' ''bbbbbbb1'')]"
  from ex_prepare_commit obtain w1 where
    a: "prepareCommitMsg exEnv ?W ''MSG'' ''commit'' = Some w1"
    and b: "files w1 ''MSG''
       = Some (''fix: a'' @ [CHR 0x0A, CHR 0x0A] @ ''Runlog-Checkpoint: abc123def456'' @ [CHR 0x0A])"
    by auto
  have f: "files ?W ''MSG'' = Some ''fix: a''" by (simp add: exWorld_def)
  from prepareCommitMsg_twice[of "''commit''" exEnv ?W "''MSG''" w1, OF _ a]
  have t: "prepareCommitMsg exEnv w1 ''MSG'' ''commit'' = Some w1"
    and c: "\<exists>m m1. files ?W ''MSG'' = Some m \<and> files w1 ''MSG'' = Some m1 \<and>
                 (m1 = m \<or> (countCheckpointTrailers m = 0 \<and> countCheckpointTrailers m1 = 1)) \<and>
                 (countCheckpointTrailers m \<le> 1 \<longrightarrow> countCheckpointTrailers m1 \<le> 1)"
    by simp_all
  from c f b have "map_option countCheckpointTrailers (files w1 ''MSG'') = Some 1"
    by auto
  with a b t show ?thesis by blast
qed

text \<open>
  With the source \<^verbatim>\<open>message\<close> the message is not inspected for a trailer: a second call
  on the same file, the session store and the staged files unchanged, injects a second
  trailer, so the file differs from what one call leaves and carries two trailers. And a
  message that comes with two checkpoint trailers keeps both through an amend.
\<close>

theorem prepareCommitMsg_twice_counterexample:
  "map_option (\<lambda>w. (files w ''MSG'', sessions w, stagedNames (proj w)))
     (prepareCommitMsg exEnv (exWorld [(''s1'', exSession ''s1'' ''bbbbbbb1'')]) ''MSG'' ''message'')
   = Some (Some (''fix: a'' @ [CHR 0x0A, CHR 0x0A] @ ''Runlog-Checkpoint: abc123def456'' @ [CHR 0x0A]),
           [(''s1'', exSession ''s1'' ''bbbbbbb1'')], stagedNames exRepo) \<and>
   map_option (\<lambda>w. files w ''MSG'')
     (Option.bind
        (prepareCommitMsg exEnv (exWorld [(''s1'', exSession ''s1'' ''bbbbbbb1'')]) ''MSG'' ''message'')
        (\<lambda>w. prepareCommitMsg exEnv w ''MSG'' ''message''))
   = Some (Some (''fix: a'' @ [CHR 0x0A, CHR 0x0A] @ ''Runlog-Checkpoint: abc123def456'' @
                 [CHR 0x0A, CHR 0x0A] @ ''Runlog-Checkpoint: abc123def456'' @ [CHR 0x0A])) \<and>
   countCheckpointTrailers
     (''fix: a'' @ [CHR 0x0A, CHR 0x0A] @ ''Runlog-Checkpoint: abc123def456'' @
      [CHR 0x0A, CHR 0x0A] @ ''Runlog-Checkpoint: abc123def456'' @ [CHR 0x0A]) = 2 \<and>
   map_option (\<lambda>w. map_option countCheckpointTrailers (files w ''MSG''))
     (prepareCommitMsg exEnv
        ((exWorld [(''s1'', exSession ''s1'' ''bbbbbbb1'')])
           \<lparr>files := [''MSG'' \<mapsto> ''Runlog-Checkpoint: abc123def456'' @ [CHR 0x0A] @
                                   ''Runlog-Checkpoint: 0123456789ab'']\<rparr>)
        ''MSG'' ''commit'')
   = Some (Some 2)"
  by code_simp

text \<open>
  Claim C7 at the scenario of the specification. The session was recorded at \<open>aaaaaaa1\<close>
  and has its shadow ref \<open>refs/heads/entire/aaaaaaa\<close>; \<^verbatim>\<open>HEAD\<close> is now \<open>bbbbbbb1\<close>
  and nothing is named for it. The claim has the old shadow ref renamed to
  \<open>refs/heads/entire/bbbbbbb\<close>. The migration sets the base commit and persists it, but it
  hands \<open>updateRef\<close> a name that is already prefixed, so the ref it writes is
  \<open>refs/heads/refs/heads/entire/bbbbbbb\<close>; the unforced delete of the old branch, whose
  tip is not merged into \<^verbatim>\<open>HEAD\<close>, fails, and the old ref stays. The step then throws:
  the existence test of \<open>writeTemporary\<close> is answered by the misnamed ref, and
  \<^verbatim>\<open>rev-parse\<close> of the branch name finds nothing.
\<close>

theorem migration_rename_fails:
  "refs (proj (fst (migrateShadowBranchIfNeeded
          ((exWorld [(''s1'', exSession ''s1'' ''aaaaaaa1'')])
             \<lparr>proj := exRepo\<lparr>refs := [(''refs/heads/main'', ''bbbbbbb1''),
                                       (''refs/heads/entire/aaaaaaa'', ''ccccccc1'')]\<rparr>\<rparr>)
          (exSession ''s1'' ''aaaaaaa1''))))
     = [(''refs/heads/main'', ''bbbbbbb1''),
        (''refs/heads/entire/aaaaaaa'', ''ccccccc1''),
        (''refs/heads/refs/heads/entire/bbbbbbb'', ''ccccccc1'')] \<and>
   baseCommit (fst (snd (migrateShadowBranchIfNeeded
          ((exWorld [(''s1'', exSession ''s1'' ''aaaaaaa1'')])
             \<lparr>proj := exRepo\<lparr>refs := [(''refs/heads/main'', ''bbbbbbb1''),
                                       (''refs/heads/entire/aaaaaaa'', ''ccccccc1'')]\<rparr>\<rparr>)
          (exSession ''s1'' ''aaaaaaa1'')))) = ''bbbbbbb1'' \<and>
   getShadowBranchName ''bbbbbbb1'' None = ''entire/bbbbbbb'' \<and>
   (case saveStep
           ((exWorld [(''s1'', exSession ''s1'' ''aaaaaaa1'')])
              \<lparr>proj := exRepo\<lparr>refs := [(''refs/heads/main'', ''bbbbbbb1''),
                                        (''refs/heads/entire/aaaaaaa'', ''ccccccc1'')]\<rparr>\<rparr>)
           exStep of
      (w, out) \<Rightarrow> (map (\<lambda>(k, s). (k, baseCommit s, stepCount s)) (sessions w),
                    map_of (refs (proj w)) ''refs/heads/entire/bbbbbbb'', out))
     = ([(''s1'', ''bbbbbbb1'', 1)], None, Threw)"
  by code_simp

text \<open>
  The classifier does not accept the name generated for an arbitrary string: the pattern
  demands seven hexadecimal digits after the prefix.
\<close>

theorem isShadowBranch_HEAD_counterexample:
  "shadowBranchNameForCommit ''HEAD'' None = ''entire/HEAD'' \<and>
   \<not> isShadowBranch (shadowBranchNameForCommit ''HEAD'' None)"
  by code_simp

text \<open>
  Claim C9 at two inputs. \<open>writeCommitted\<close> is handed the identity \<open>Agent\<close> in its
  options, in a repository configured for \<open>Alice\<close>: the commit on the metadata branch is
  Alice's. And with a separate session repository configured for \<open>Bob\<close>, a promotion
  fills the options from the configuration of the project, \<open>Alice\<close>, and the commit is
  Bob's. The options are never read; \<open>writeTemporary\<close> reads the same two fields.
\<close>

theorem writeCommitted_ignores_author:
  "WriteCommittedOptions.authorName exCommittedOptions = ''Agent'' \<and>
   WriteCommittedOptions.authorEmail exCommittedOptions = ''agent@example.com'' \<and>
   map_option (\<lambda>r. map_option (\<lambda>h. map_option (\<lambda>c. (author c, committer c)) (map_of (commits r) h))
                      (map_of (refs r) (''refs/heads/'' @ CHECKPOINTS_BRANCH)))
     (writeCommitted CHECKPOINTS_BRANCH ''t'' exRepo exCommittedOptions)
   = Some (Some (Some (\<lparr> name = ''Alice'', email = ''alice@example.com'' \<rparr>,
                       \<lparr> name = ''Alice'', email = ''alice@example.com'' \<rparr>))) \<and>
   getGitAuthor (proj ((exWorld [])\<lparr>sessionRepo := Some exSessionRepo\<rparr>))
     = \<lparr> name = ''Alice'', email = ''alice@example.com'' \<rparr> \<and>
   map_option (\<lambda>(w, res). map_option (\<lambda>r. map (\<lambda>(h, c). (h, author c, committer c)) (commits r))
                             (sessionRepo w))
     (condenseSession exEnv ((exWorld [])\<lparr>sessionRepo := Some exSessionRepo\<rparr>)
        (exSession ''s1'' ''aaaaaaa1'') ''abc123def456'' (set [''a.txt'']))
   = Some (Some [(''fffffff1'', \<lparr> name = ''Bob'', email = ''bob@example.com'' \<rparr>,
                               \<lparr> name = ''Bob'', email = ''bob@example.com'' \<rparr>)])"
  by code_simp

lemma ex_prepare_message:
  "map_option (\<lambda>w. files w ''MSG'')
     (prepareCommitMsg exEnv (exWorld [(''s1'', exSession ''s1'' ''bbbbbbb1'')]) ''MSG'' ''message'')
   = Some (Some (''fix: a'' @ [CHR 0x0A, CHR 0x0A] @ ''Runlog-Checkpoint: abc123def456'' @ [CHR 0x0A]))"
  by code_simp

theorem prepareCommitMsg_store_witness:
  "\<exists>w'. prepareCommitMsg exEnv (exWorld [(''s1'', exSession ''s1'' ''bbbbbbb1'')]) ''MSG'' ''message'' = Some w' \<and>
     files w' ''MSG''
       = Some (''fix: a'' @ [CHR 0x0A, CHR 0x0A] @ ''Runlog-Checkpoint: abc123def456'' @ [CHR 0x0A]) \<and>
     proj w' = exRepo \<and> sessionRepo w' = None \<and>
     sessions w' = [(''s1'', exSession ''s1'' ''bbbbbbb1'')]"
proof -
  let ?W = "exWorld [(''s1'', exSession ''s1'' ''bbbbbbb1'')]"
  from ex_prepare_message obtain w' where
    a: "prepareCommitMsg exEnv ?W ''MSG'' ''message'' = Some w'"
    and b: "files w' ''MSG''
       = Some (''fix: a'' @ [CHR 0x0A, CHR 0x0A] @ ''Runlog-Checkpoint: abc123def456'' @ [CHR 0x0A])"
    by auto
  have f: "filter (\<lambda>(k, s). \<not> isStale (nowMs ?W) s) (sessions ?W) = sessions ?W"
    by (simp add: exWorld_def exSession_def isStale_def)
  have p: "proj ?W = exRepo" "sessionRepo ?W = None"
    "sessions ?W = [(''s1'', exSession ''s1'' ''bbbbbbb1'')]"
    by (simp_all add: exWorld_def)
  from prepareCommitMsg_store[OF a]
  have "proj w' = proj ?W \<and> sessionRepo w' = sessionRepo ?W \<and> sessions w' = sessions ?W"
    unfolding f by blast
  with a b p show ?thesis by auto
qed

text \<open>
  A session that ended more than seven days ago is in the store. Listing the sessions
  unlinks it, so after \<open>prepareCommitMsg\<close> the store has lost a record.
\<close>

theorem prepareCommitMsg_stale_counterexample:
  "sessions (exWorld [(''old'', (exSession ''old'' ''aaaaaaa1'')\<lparr>phase := Ended, endedAt := Some 0\<rparr>)])
     = [(''old'', (exSession ''old'' ''aaaaaaa1'')\<lparr>phase := Ended, endedAt := Some 0\<rparr>)] \<and>
   map_option sessions
     (prepareCommitMsg exEnv
        (exWorld [(''old'', (exSession ''old'' ''aaaaaaa1'')\<lparr>phase := Ended, endedAt := Some 0\<rparr>)])
        ''MSG'' ''message'')
     = Some []"
  by code_simp

end
